(* ===== verification/Linkbit_Prelude.thy ===== *)
theory Linkbit_Prelude
  imports Complex_Main "HOL-Library.AList" "HOL-Library.Sublist" "HOL-Library.Multiset"
begin

text \<open>
  Shared vocabulary of the development: the theorem collections, the relational-table
  operations that the SQLite store is built from (a table is the list of its rows in row
  order), the invariants of such tables, runs of calls with the
  interface (locale) of a simulation, and small lemmas on lists and sums.
\<close>

named_theorems table_simps \<open>lookup and membership facts about table operations\<close>
named_theorems stmt_defs \<open>definitions of the store's SQL statements\<close>
named_theorems handler_defs \<open>definitions of the HTTP handlers\<close>

section \<open>Tables as lists of rows\<close>

text \<open>
  INSERT refuses a row that conflicts with a stored one (primary key or UNIQUE column);
  UPDATE rewrites the rows a WHERE clause selects; DELETE drops them; a single-row query
  returns the first selected row.
\<close>

definition tbl_insert :: "('r \<Rightarrow> 'r \<Rightarrow> bool) \<Rightarrow> 'r \<Rightarrow> 'r list \<Rightarrow> 'r list option" where
  "tbl_insert conflict r rows = (if list_ex (conflict r) rows then None else Some (rows @ [r]))"

definition tbl_update :: "('r \<Rightarrow> bool) \<Rightarrow> ('r \<Rightarrow> 'r) \<Rightarrow> 'r list \<Rightarrow> 'r list" where
  "tbl_update p f rows = map (\<lambda>r. if p r then f r else r) rows"

definition tbl_delete :: "('r \<Rightarrow> bool) \<Rightarrow> 'r list \<Rightarrow> 'r list" where
  "tbl_delete p rows = filter (\<lambda>r. \<not> p r) rows"

definition tbl_count :: "('r \<Rightarrow> bool) \<Rightarrow> 'r list \<Rightarrow> nat" where
  "tbl_count p rows = length (filter p rows)"

text \<open>A column is unique when no two rows share its value.\<close>

definition unique_on :: "('r \<Rightarrow> 'k) \<Rightarrow> 'r list \<Rightarrow> bool" where
  "unique_on key rows = distinct (map key rows)"

lemma unique_on_Nil [simp]: "unique_on key []"
  by (simp add: unique_on_def)

lemma tbl_insert_SomeD:
  "tbl_insert c r rows = Some rows' \<Longrightarrow> rows' = rows @ [r] \<and> (\<forall>x \<in> set rows. \<not> c r x)"
  by (auto simp: tbl_insert_def list_ex_iff split: if_splits)

lemma tbl_insert_None_iff: "tbl_insert c r rows = None \<longleftrightarrow> (\<exists>x \<in> set rows. c r x)"
  by (auto simp: tbl_insert_def list_ex_iff)

lemma unique_on_insert:
  assumes "tbl_insert c r rows = Some rows'" and "unique_on key rows"
    and "\<And>x. key r = key x \<Longrightarrow> c r x"
  shows "unique_on key rows'"
  using assms by (fastforce simp: unique_on_def dest: tbl_insert_SomeD)

lemma set_tbl_update [table_simps]:
  "set (tbl_update p f rows) = (\<lambda>r. if p r then f r else r) ` set rows"
  by (simp add: tbl_update_def)

lemma set_tbl_delete [table_simps]: "set (tbl_delete p rows) = {r \<in> set rows. \<not> p r}"
  by (auto simp: tbl_delete_def)

lemma map_tbl_update:
  "(\<And>r. key (f r) = key r) \<Longrightarrow> map key (tbl_update p f rows) = map key rows"
  by (simp add: tbl_update_def)

lemma unique_on_update:
  "(\<And>r. key (f r) = key r) \<Longrightarrow> unique_on key (tbl_update p f rows) = unique_on key rows"
  by (simp add: unique_on_def map_tbl_update)

lemma unique_on_delete: "unique_on key rows \<Longrightarrow> unique_on key (tbl_delete p rows)"
  by (induction rows) (auto simp: unique_on_def tbl_delete_def)

lemma tbl_count_0_iff: "tbl_count p rows = 0 \<longleftrightarrow> (\<forall>r \<in> set rows. \<not> p r)"
  by (auto simp: tbl_count_def filter_empty_conv)

lemma tbl_update_noop: "tbl_count p rows = 0 \<Longrightarrow> tbl_update p f rows = rows"
  by (induction rows) (auto simp: tbl_count_def tbl_update_def split: if_splits)

lemma tbl_delete_noop: "tbl_count p rows = 0 \<Longrightarrow> tbl_delete p rows = rows"
  by (induction rows) (auto simp: tbl_count_def tbl_delete_def split: if_splits)

lemma length_tbl_delete: "length (tbl_delete p rows) + tbl_count p rows = length rows"
  by (induction rows) (auto simp: tbl_count_def tbl_delete_def)

lemma find_SomeD: "find p rows = Some r \<Longrightarrow> r \<in> set rows \<and> p r"
  by (auto simp: find_Some_iff)

lemma find_append:
  "find p (xs @ ys) = (case find p xs of None \<Rightarrow> find p ys | Some y \<Rightarrow> Some y)"
  by (induction xs) auto

lemma unique_onD:
  "unique_on key rows \<Longrightarrow> a \<in> set rows \<Longrightarrow> b \<in> set rows \<Longrightarrow> key a = key b \<Longrightarrow> a = b"
  by (auto simp: unique_on_def distinct_map dest: inj_onD)

lemma unique_on_find:
  assumes "unique_on key rows" and "r \<in> set rows" and "p r"
    and "\<And>x. x \<in> set rows \<Longrightarrow> p x \<Longrightarrow> key x = key r"
  shows "find p rows = Some r"
proof -
  obtain x where x: "find p rows = Some x"
    using assms(2,3) by (metis find_None_iff not_None_eq)
  then have "x \<in> set rows" "p x" by (auto dest: find_SomeD)
  with assms have "x = r" by (blast dest: unique_onD)
  with x show ?thesis by simp
qed

text \<open>With a unique key, an equality selection meets at most one row.\<close>

lemma unique_on_count_le_1:
  assumes "unique_on key rows" and "\<And>x. x \<in> set rows \<Longrightarrow> p x \<Longrightarrow> key x = k"
  shows "tbl_count p rows \<le> 1"
  using assms
proof (induction rows)
  case Nil
  then show ?case by (simp add: tbl_count_def)
next
  case (Cons a rows)
  show ?case
  proof (cases "p a")
    case True
    then have "\<forall>x \<in> set rows. \<not> p x"
      using Cons.prems by (auto simp: unique_on_def)
    then show ?thesis
      using True by (simp add: tbl_count_def filter_empty_conv [THEN iffD2])
  next
    case False
    then show ?thesis
      using Cons by (auto simp: tbl_count_def unique_on_def)
  qed
qed

section \<open>Sums and lists\<close>

lemma sum_isl_cases: "(\<And>e. x = Inl e \<Longrightarrow> P) \<Longrightarrow> (\<And>v. x = Inr v \<Longrightarrow> P) \<Longrightarrow> P"
  by (cases x) auto

lemma list_all_nth_eq: "list_all P xs \<longleftrightarrow> (\<forall>x \<in> set xs. P x)"
  by (simp add: list_all_iff)

section \<open>Runs of calls\<close>

text \<open>The replies to a sequence of calls of a component, and its state afterwards.\<close>

fun run_calls :: "('c \<Rightarrow> 's \<Rightarrow> 'r \<times> 's) \<Rightarrow> 'c list \<Rightarrow> 's \<Rightarrow> 'r list \<times> 's" where
  "run_calls call [] s = ([], s)"
| "run_calls call (c # cs) s =
     (case call c s of (r, s') \<Rightarrow> case run_calls call cs s' of (rs, s'') \<Rightarrow> (r # rs, s''))"

text \<open>
  A component \<open>call\<close> and another \<open>call'\<close> that follows it on \<open>abs\<close> of its states: every fitting
  call in a good state leads to a good state, to the state the other one reaches, and to replies
  that agree. Then this holds of every sequence of calls.
\<close>

locale simulation =
  fixes call :: "'c \<Rightarrow> 's \<Rightarrow> 'r \<times> 's"
    and call' :: "'c \<Rightarrow> 't \<Rightarrow> 'q \<times> 't"
    and abs :: "'s \<Rightarrow> 't"
    and good :: "'s \<Rightarrow> bool"
    and fits :: "'c \<Rightarrow> bool"
    and agree :: "'r \<Rightarrow> 'q \<Rightarrow> bool"
  assumes step: "good s \<Longrightarrow> fits c \<Longrightarrow> call c s = (r, s') \<Longrightarrow>
    good s' \<and> snd (call' c (abs s)) = abs s' \<and> agree r (fst (call' c (abs s)))"
begin

lemma run:
  assumes "good s" and "list_all fits calls" and "run_calls call calls s = (rs, s')"
  shows "\<exists>qs. run_calls call' calls (abs s) = (qs, abs s') \<and> list_all2 agree rs qs \<and> good s'"
  using assms
proof (induction calls arbitrary: s rs)
  case (Cons c calls)
  obtain r s1 where c: "call c s = (r, s1)" by fastforce
  with Cons.prems(3) obtain rs1 where r: "run_calls call calls s1 = (rs1, s')" "rs = r # rs1"
    by (auto split: prod.splits)
  have st: "good s1" "snd (call' c (abs s)) = abs s1" "agree r (fst (call' c (abs s)))"
    using step [OF Cons.prems(1) _ c] Cons.prems(2) by auto
  from Cons.IH [OF st(1) _ r(1)] Cons.prems(2) obtain qs where
    "run_calls call' calls (abs s1) = (qs, abs s')" "list_all2 agree rs1 qs" "good s'" by auto
  with st(2,3) r(2) show ?case by (cases "call' c (abs s)") auto
qed simp

end

end
