(* ===== verification/Go_Strings.thy ===== *)
theory Go_Strings
  imports Linkbit_Prelude "HOL-Library.Sublist"
begin

text \<open>
  The string functions of Go's standard library that the program calls, on byte strings
  (a \<open>char\<close> is a byte, as a Go string is a byte sequence): \<open>strings.TrimSpace\<close>,
  \<open>strings.TrimRight\<close>, \<open>strings.Contains\<close>, \<open>strings.ContainsAny\<close>, \<open>strings.EqualFold\<close>,
  \<open>strconv.Atoi\<close>, \<open>strconv.Itoa\<close>, \<open>strconv.ParseBool\<close>, \<open>net.SplitHostPort\<close> and \<open>net.JoinHostPort\<close>, with
  the facts about them that the components use.
\<close>

section \<open>Trimming\<close>

text \<open>
  \<open>unicode.IsSpace\<close> holds of six ASCII bytes and of the runes U+0085, U+00A0, U+1680,
  U+2000 to U+200A, U+2028, U+2029, U+202F, U+205F and U+3000. Below are their UTF-8
  encodings. UTF-8 is self-synchronising, so a string starts (ends) with such a rune
  exactly when one of the encodings is its prefix (suffix).
\<close>

definition space_encodings :: "string list" where
  "space_encodings =
     [[CHR 0x09], [CHR 0x0A], [CHR 0x0B], [CHR 0x0C], [CHR 0x0D], [CHR 0x20],
      [CHR 0xC2, CHR 0x85], [CHR 0xC2, CHR 0xA0], [CHR 0xE1, CHR 0x9A, CHR 0x80],
      [CHR 0xE2, CHR 0x80, CHR 0x80], [CHR 0xE2, CHR 0x80, CHR 0x81],
      [CHR 0xE2, CHR 0x80, CHR 0x82], [CHR 0xE2, CHR 0x80, CHR 0x83],
      [CHR 0xE2, CHR 0x80, CHR 0x84], [CHR 0xE2, CHR 0x80, CHR 0x85],
      [CHR 0xE2, CHR 0x80, CHR 0x86], [CHR 0xE2, CHR 0x80, CHR 0x87],
      [CHR 0xE2, CHR 0x80, CHR 0x88], [CHR 0xE2, CHR 0x80, CHR 0x89],
      [CHR 0xE2, CHR 0x80, CHR 0x8A], [CHR 0xE2, CHR 0x80, CHR 0xA8],
      [CHR 0xE2, CHR 0x80, CHR 0xA9], [CHR 0xE2, CHR 0x80, CHR 0xAF],
      [CHR 0xE2, CHR 0x81, CHR 0x9F], [CHR 0xE3, CHR 0x80, CHR 0x80]]"

function trim_by :: "string list \<Rightarrow> string \<Rightarrow> string" where
  "trim_by ws s =
     (case find (\<lambda>w. w \<noteq> [] \<and> prefix w s) ws of
        None \<Rightarrow> s
      | Some w \<Rightarrow> trim_by ws (drop (length w) s))"
  by pat_completeness auto
termination
  by (relation "measure (\<lambda>(ws, s). length s)")
    (auto dest!: find_SomeD prefix_length_le simp flip: length_greater_0_conv)

declare trim_by.simps [simp del]

definition trim_space :: "string \<Rightarrow> string" where
  "trim_space s =
     rev (trim_by (map rev space_encodings) (rev (trim_by space_encodings s)))"

lemma trim_by_suffix: "suffix (trim_by ws s) s"
proof (induction ws s rule: trim_by.induct)
  case (1 ws s)
  show ?case
  proof (cases "find (\<lambda>w. w \<noteq> [] \<and> prefix w s) ws")
    case None
    then show ?thesis by (subst trim_by.simps) simp
  next
    case (Some w)
    from "1.IH" [OF Some] have "suffix (trim_by ws (drop (length w) s)) s"
      using suffix_drop suffix_order.trans by blast
    with Some show ?thesis by (subst trim_by.simps) simp
  qed
qed

lemma trim_by_no_prefix: "find (\<lambda>w. w \<noteq> [] \<and> prefix w (trim_by ws s)) ws = None"
proof (induction ws s rule: trim_by.induct)
  case (1 ws s)
  show ?case
  proof (cases "find (\<lambda>w. w \<noteq> [] \<and> prefix w s) ws")
    case None
    then show ?thesis by (simp add: trim_by.simps [of ws s])
  next
    case (Some w)
    with "1.IH" [OF Some] show ?thesis by (simp add: trim_by.simps [of ws s])
  qed
qed

lemma trim_by_id: "find (\<lambda>w. w \<noteq> [] \<and> prefix w s) ws = None \<Longrightarrow> trim_by ws s = s"
  by (simp add: trim_by.simps)

lemma trim_by_Nil [simp]: "trim_by ws [] = []"
  by (rule trim_by_id) (auto simp: find_None_iff)

lemma trim_space_Nil [simp]: "trim_space [] = []"
  by (simp add: trim_space_def)

text \<open>Trimming on the right leaves a prefix of its input, so it brings no space to the front.\<close>

lemma trim_space_idem [simp]: "trim_space (trim_space s) = trim_space s"
proof -
  let ?L = space_encodings and ?R = "map rev space_encodings"
  let ?l = "trim_by ?L s" and ?t = "rev (trim_by ?R (rev (trim_by ?L s)))"
  have pre: "prefix ?t ?l"
    using trim_by_suffix [of ?R "rev ?l"] by (simp add: suffix_to_prefix)
  have "find (\<lambda>w. w \<noteq> [] \<and> prefix w ?t) ?L = None"
    using trim_by_no_prefix [of ?L s] pre
    by (auto simp: find_None_iff intro: prefix_order.trans)
  then have 1: "trim_by ?L ?t = ?t" by (rule trim_by_id)
  have "trim_by ?R (rev ?t) = rev ?t"
    by (rule trim_by_id) (simp add: trim_by_no_prefix)
  with 1 show ?thesis by (simp add: trim_space_def)
qed

text \<open>A string without any byte of a space encoding is its own trimming.\<close>

definition space_free :: "string \<Rightarrow> bool" where
  "space_free s \<longleftrightarrow> set s \<inter> set (concat space_encodings) = {}"

lemma find_space_free:
  assumes "set s \<inter> set (concat ws) = {}"
  shows "find (\<lambda>w. w \<noteq> [] \<and> prefix w s) ws = None"
proof -
  have "\<not> (w \<noteq> [] \<and> prefix w s)" if "w \<in> set ws" for w
  proof
    assume a: "w \<noteq> [] \<and> prefix w s"
    then have "hd w \<in> set s" using set_mono_prefix hd_in_set by blast
    moreover have "hd w \<in> set (concat ws)" using that a hd_in_set by fastforce
    ultimately show False using assms by blast
  qed
  then show ?thesis by (auto simp: find_None_iff)
qed

lemma trim_space_id: "space_free s \<Longrightarrow> trim_space s = s"
proof -
  assume f: "space_free s"
  then have 1: "trim_by space_encodings s = s"
    by (intro trim_by_id find_space_free) (simp add: space_free_def)
  have "trim_by (map rev space_encodings) (rev s) = rev s"
    using f by (intro trim_by_id find_space_free) (simp add: space_free_def)
  with 1 show ?thesis by (simp add: trim_space_def)
qed

text \<open>\<open>strings.TrimRight(s, "/")\<close>: every trailing byte of the cutset goes.\<close>

definition trim_right :: "string \<Rightarrow> string \<Rightarrow> string" where
  "trim_right s cutset = rev (dropWhile (\<lambda>c. c \<in> set cutset) (rev s))"

definition contains_any :: "string \<Rightarrow> string \<Rightarrow> bool" where
  "contains_any s cs = list_ex (\<lambda>c. c \<in> set cs) s"

text \<open>\<open>strings.Contains\<close>.\<close>

definition contains_string :: "string \<Rightarrow> string \<Rightarrow> bool" where
  "contains_string s sub = list_ex (prefix sub) (suffixes s)"

lemma contains_middle: "contains_string (a @ sub @ b) sub"
  unfolding contains_string_def list_ex_iff by (intro bexI [of _ "sub @ b"]) (simp_all add: suffix_def)

section \<open>Decimal numbers\<close>

definition digit_of :: "char \<Rightarrow> nat option" where
  "digit_of c = (let n = of_char c :: nat in if 48 \<le> n \<and> n \<le> 57 then Some (n - 48) else None)"

definition digit_char :: "nat \<Rightarrow> char" where
  "digit_char d = char_of (48 + d)"

fun digits_value :: "nat \<Rightarrow> string \<Rightarrow> nat option" where
  "digits_value acc [] = Some acc"
| "digits_value acc (c # cs) =
     (case digit_of c of None \<Rightarrow> None | Some d \<Rightarrow> digits_value (10 * acc + d) cs)"

text \<open>
  \<open>strconv.Atoi\<close>: an optional sign, at least one decimal digit, and a value that an int
  (64 bits) holds; everything else is an error.
\<close>

definition atoi :: "string \<Rightarrow> int option" where
  "atoi s =
     (let (neg, ds) =
        (case s of [] \<Rightarrow> (False, [])
         | c # cs \<Rightarrow> if c = CHR ''-'' then (True, cs) else if c = CHR ''+'' then (False, cs)
                    else (False, s))
      in if ds = [] then None
         else case digits_value 0 ds of
             None \<Rightarrow> None
           | Some n \<Rightarrow>
               (let v = (if neg then - int n else int n)
                in if - (2 ^ 63) \<le> v \<and> v < 2 ^ 63 then Some v else None))"

fun dec_string :: "nat \<Rightarrow> string" where
  "dec_string n =
     (if n < 10 then [digit_char n] else dec_string (n div 10) @ [digit_char (n mod 10)])"

declare dec_string.simps [simp del]

definition itoa :: "int \<Rightarrow> string" where
  "itoa i = (if i < 0 then CHR ''-'' # dec_string (nat (- i)) else dec_string (nat i))"

lemma digit_of_digit_char [simp]: "d < 10 \<Longrightarrow> digit_of (digit_char d) = Some d"
  by (simp add: digit_of_def digit_char_def of_char_of take_bit_eq_mod)

lemma digits_value_append:
  "digits_value a (xs @ ys) =
     (case digits_value a xs of None \<Rightarrow> None | Some b \<Rightarrow> digits_value b ys)"
  by (induction xs arbitrary: a) (auto split: option.splits)

lemma digits_value_dec_string [simp]: "digits_value 0 (dec_string n) = Some n"
proof (induction n rule: dec_string.induct)
  case (1 n)
  show ?case
  proof (cases "n < 10")
    case True
    then show ?thesis by (simp add: dec_string.simps [of n])
  next
    case False
    with "1.IH" show ?thesis
      by (simp add: dec_string.simps [of n] digits_value_append)
  qed
qed

lemma dec_string_nonempty [simp]: "dec_string n \<noteq> []"
  by (subst dec_string.simps) simp

lemma set_dec_string: "set (dec_string n) \<subseteq> digit_char ` {0..<10}"
proof (induction n rule: dec_string.induct)
  case (1 n)
  then show ?case by (cases "n < 10") (auto simp: dec_string.simps [of n])
qed

lemma digit_char_values:
  "digit_char ` {0..<10} = set ''0123456789''"
proof -
  have "{0..<10} = set [0, 1, 2, 3, 4, 5, 6, 7, 8, 9 :: nat]" by auto
  then have "digit_char ` {0..<10} = set (map digit_char [0, 1, 2, 3, 4, 5, 6, 7, 8, 9])"
    by simp
  also have "map digit_char [0, 1, 2, 3, 4, 5, 6, 7, 8, 9] = ''0123456789''"
    by code_simp
  finally show ?thesis .
qed

lemma dec_string_digits: "c \<in> set (dec_string n) \<Longrightarrow> c \<in> set ''0123456789''"
  using set_dec_string [of n] by (auto simp only: digit_char_values)

lemma dec_string_no [simp]:
  "CHR '':'' \<notin> set (dec_string n)" "CHR ''['' \<notin> set (dec_string n)"
  "CHR '']'' \<notin> set (dec_string n)" "CHR ''-'' \<notin> set (dec_string n)"
  "CHR ''+'' \<notin> set (dec_string n)" "CHR ''.'' \<notin> set (dec_string n)"
  "CHR ''Z'' \<notin> set (dec_string n)"
  by (auto dest: dec_string_digits)

lemma atoi_dec_string: "int n < 2 ^ 63 \<Longrightarrow> atoi (dec_string n) = Some (int n)"
proof -
  assume b: "int n < 2 ^ 63"
  obtain c cs where s: "dec_string n = c # cs" by (cases "dec_string n") auto
  have "c \<noteq> CHR ''-''" "c \<noteq> CHR ''+''"
    using dec_string_no [of n] s by auto
  then show ?thesis
    using b digits_value_dec_string [of n] s by (simp add: atoi_def)
qed

lemma atoi_itoa:
  assumes "- (2 ^ 63) \<le> i" and "i < 2 ^ 63"
  shows "atoi (itoa i) = Some i"
proof (cases "i < 0")
  case True
  have "digits_value 0 (dec_string (nat (- i))) = Some (nat (- i))" by simp
  with True assms show ?thesis by (simp add: itoa_def atoi_def)
next
  case False
  with assms atoi_dec_string [of "nat i"] show ?thesis by (simp add: itoa_def)
qed

lemma dec_string_inj: "dec_string m = dec_string n \<Longrightarrow> m = n"
  by (metis digits_value_dec_string option.inject)

text \<open>\<open>strconv.ParseBool\<close> accepts twelve spellings.\<close>

definition parse_bool :: "string \<Rightarrow> bool option" where
  "parse_bool s =
     (if s \<in> set [''1'', ''t'', ''T'', ''true'', ''TRUE'', ''True''] then Some True
      else if s \<in> set [''0'', ''f'', ''F'', ''false'', ''FALSE'', ''False''] then Some False
      else None)"

end
