(* ===== verification/Go_Time.thy ===== *)
theory Go_Time
  imports Go_Strings
begin

text \<open>
  Instants and durations of Go's \<open>time\<close> package, and the text form the store keeps them in
  (RFC 3339 with nanoseconds, in UTC): \<open>formatTime\<close> and \<open>parseTime\<close> of
  internal/store/sqlite/store.go, with the round trip between them.
\<close>

section \<open>Instants\<close>

text \<open>
  A \<open>time.Time\<close> in UTC is the number of nanoseconds since the zero time, January 1 of year
  1. A \<open>time.Duration\<close> is a number of nanoseconds.
\<close>

datatype gotime = GoTime (nanos: nat)

instantiation gotime :: linorder
begin

definition less_eq_gotime :: "gotime \<Rightarrow> gotime \<Rightarrow> bool" where
  "less_eq_gotime a b = (nanos a \<le> nanos b)"

definition less_gotime :: "gotime \<Rightarrow> gotime \<Rightarrow> bool" where
  "less_gotime a b = (nanos a < nanos b)"

instance
  by standard (auto simp: less_eq_gotime_def less_gotime_def gotime.expand)

end

definition zero_time :: gotime where "zero_time = GoTime 0"

definition is_zero :: "gotime \<Rightarrow> bool" where "is_zero t = (t = zero_time)"

definition time_add :: "gotime \<Rightarrow> int \<Rightarrow> gotime" where
  "time_add t d = GoTime (nat (int (nanos t) + d))"

definition time_after :: "gotime \<Rightarrow> gotime \<Rightarrow> bool" where
  "time_after a b = (nanos b < nanos a)"

abbreviation second :: int where "second \<equiv> 1000000000"
abbreviation minute :: int where "minute \<equiv> 60 * second"
abbreviation hour :: int where "hour \<equiv> 60 * minute"

lemma nanos_time_add [simp]: "0 \<le> d \<Longrightarrow> int (nanos (time_add t d)) = int (nanos t) + d"
  by (simp add: time_add_def)

lemma time_after_irrefl [simp]: "\<not> time_after t t"
  by (simp add: time_after_def)

lemma time_add_pos_not_zero: "0 < d \<Longrightarrow> time_add t d \<noteq> zero_time"
  by (simp add: time_add_def zero_time_def)

lemma time_after_trans: "time_after a b \<Longrightarrow> time_after b c \<Longrightarrow> time_after a c"
  by (simp add: time_after_def)

section \<open>The civil calendar\<close>

text \<open>
  \<open>days_to k\<close>: the days in the first \<open>k\<close> years. \<open>years_in d\<close>: how many whole years lie
  before day \<open>d\<close>, from the mean year length and one correction either way.
\<close>

definition days_to :: "nat \<Rightarrow> nat" where
  "days_to k = 365 * k + k div 4 + k div 400 - k div 100"

definition years_in :: "nat \<Rightarrow> nat" where
  "years_in d =
     (let k = 400 * d div 146097
      in if d < days_to k then k - 1 else if days_to (k + 1) \<le> d then k + 1 else k)"

definition is_leap :: "nat \<Rightarrow> bool" where
  "is_leap y = (y mod 4 = 0 \<and> (y mod 100 \<noteq> 0 \<or> y mod 400 = 0))"

definition month_days :: "bool \<Rightarrow> nat list" where
  "month_days leap = [31, if leap then 29 else 28, 31, 30, 31, 30, 31, 31, 30, 31, 30, 31]"

fun month_of :: "nat list \<Rightarrow> nat \<Rightarrow> nat \<Rightarrow> nat \<times> nat" where
  "month_of [] m d = (m, d)"
| "month_of (n # ns) m d = (if d < n then (m, d) else month_of ns (m + 1) (d - n))"

text \<open>Year, month and day of a day number, and back.\<close>

definition civil :: "nat \<Rightarrow> nat \<times> nat \<times> nat" where
  "civil d =
     (let k = years_in d; (m, r) = month_of (month_days (is_leap (k + 1))) 1 (d - days_to k)
      in (k + 1, m, r + 1))"

definition day_number :: "nat \<Rightarrow> nat \<Rightarrow> nat \<Rightarrow> nat" where
  "day_number y m d = days_to (y - 1) + sum_list (take (m - 1) (month_days (is_leap y))) + (d - 1)"

lemma div_bounds: "(n::nat) > 0 \<Longrightarrow> n * (k div n) \<le> k \<and> k < n * (k div n) + n"
  by (metis div_mult_mod_eq le_add1 mod_less_divisor mult.commute nat_add_left_cancel_less)

lemma days_to_bounds:
  "400 * days_to k \<le> 146097 * k + 400" "146097 * k \<le> 400 * days_to k + 800"
proof -
  note b = div_bounds [of 4 k] div_bounds [of 100 k] div_bounds [of 400 k]
  have "k div 100 \<le> 365 * k" by (rule le_trans [OF div_le_dividend]) simp
  then show "400 * days_to k \<le> 146097 * k + 400" "146097 * k \<le> 400 * days_to k + 800"
    using b by (simp_all add: days_to_def)
qed

lemma div_Suc_if: "0 < n \<Longrightarrow> Suc k div n = k div n + (if Suc k mod n = 0 then 1 else 0)"
  by (simp add: div_Suc)

lemma days_to_Suc: "days_to (Suc k) = days_to k + (if is_leap (Suc k) then 366 else 365)"
proof -
  define a b c where "a = k div 4" and "b = k div 100" and "c = k div 400"
  define p q r where "p \<longleftrightarrow> Suc k mod 4 = 0" and "q \<longleftrightarrow> Suc k mod 100 = 0"
    and "r \<longleftrightarrow> Suc k mod 400 = 0"
  have d: "Suc k div 4 = a + of_bool p" "Suc k div 100 = b + of_bool q"
    "Suc k div 400 = c + of_bool r"
    by (simp_all only: div_Suc_if a_def b_def c_def p_def q_def r_def of_bool_def zero_less_numeral)
  have "r \<Longrightarrow> q" "q \<Longrightarrow> p"
    using mod_mod_cancel [of 100 400 "Suc k"] mod_mod_cancel [of 4 100 "Suc k"]
    by (simp_all add: p_def q_def r_def)
  moreover have "b \<le> k" by (simp add: b_def)
  moreover have "days_to (Suc k) = 365 * k + 365 + (a + of_bool p) + (c + of_bool r) - (b + of_bool q)"
    unfolding days_to_def d by simp
  moreover have "days_to k = 365 * k + a + c - b"
    by (simp add: days_to_def a_def b_def c_def)
  moreover have "is_leap (Suc k) \<longleftrightarrow> p \<and> (\<not> q \<or> r)"
    by (simp add: is_leap_def p_def q_def r_def)
  ultimately show ?thesis by (cases p; cases q; cases r) simp_all
qed

lemma days_to_mono: "j \<le> k \<Longrightarrow> days_to j \<le> days_to k"
  by (rule lift_Suc_mono_le [of days_to]) (auto simp: days_to_Suc)

lemma years_in_bounds: "days_to (years_in d) \<le> d" "d < days_to (Suc (years_in d))"
proof -
  let ?k = "400 * d div 146097"
  have b: "146097 * ?k \<le> 400 * d" "400 * d < 146097 * ?k + 146097"
    using div_bounds [of 146097 "400 * d"] by simp_all
  have lo: "days_to (?k - 1) \<le> d"
  proof (cases ?k)
    case 0
    then show ?thesis by (simp add: days_to_def)
  next
    case (Suc j)
    have "400 * days_to j \<le> 146097 * j + 400" by (rule days_to_bounds)
    with b(1) show ?thesis by (simp add: Suc)
  qed
  have hi: "d < days_to (Suc (Suc ?k))"
    using days_to_bounds(2) [of "Suc (Suc ?k)"] b(2) by simp
  show "days_to (years_in d) \<le> d"
    using lo by (auto simp: years_in_def Let_def)
  show "d < days_to (Suc (years_in d))"
  proof (cases ?k)
    case 0
    then show ?thesis using hi by (auto simp: years_in_def Let_def days_to_def)
  next
    case (Suc j)
    then show ?thesis using hi by (auto simp: years_in_def Let_def)
  qed
qed

lemma month_of_SomeD:
  "month_of ns m d = (m', r) \<Longrightarrow> d < sum_list ns \<Longrightarrow>
   m \<le> m' \<and> m' < m + length ns \<and> r < ns ! (m' - m) \<and> d = sum_list (take (m' - m) ns) + r"
proof (induction ns arbitrary: m d)
  case Nil
  then show ?case by simp
next
  case (Cons n ns)
  show ?case
  proof (cases "d < n")
    case True
    with Cons.prems show ?thesis by simp
  next
    case False
    with Cons.prems have "month_of ns (m + 1) (d - n) = (m', r)" "d - n < sum_list ns" by auto
    from Cons.IH [OF this] have ih: "m + 1 \<le> m'" "m' < m + 1 + length ns"
      "r < ns ! (m' - (m + 1))" "d - n = sum_list (take (m' - (m + 1)) ns) + r" by auto
    then obtain j where "m' - m = Suc j" "m' - (m + 1) = j"
      by (metis Suc_diff_le Suc_eq_plus1 diff_Suc_Suc)
    with ih False show ?thesis by auto
  qed
qed

lemma sum_month_days: "sum_list (month_days l) = (if l then 366 else 365)"
  by (simp add: month_days_def)

lemma civil_props:
  assumes "civil d = (y, m, a)"
  shows "1 \<le> y" "1 \<le> m" "m \<le> 12" "1 \<le> a" "a \<le> month_days (is_leap y) ! (m - 1)"
    "day_number y m a = d" "days_to (y - 1) \<le> d"
proof -
  let ?k = "years_in d"
  obtain r where mo: "month_of (month_days (is_leap (?k + 1))) 1 (d - days_to ?k) = (m, r)"
    and eqs: "y = ?k + 1" "a = r + 1"
    using assms by (auto simp: civil_def Let_def split: prod.splits)
  have "d - days_to ?k < sum_list (month_days (is_leap (?k + 1)))"
    using years_in_bounds [of d] by (simp add: days_to_Suc sum_month_days split: if_splits)
  from month_of_SomeD [OF mo this] have m: "1 \<le> m" "m < 1 + length (month_days (is_leap (?k + 1)))"
    "r < month_days (is_leap (?k + 1)) ! (m - 1)"
    "d - days_to ?k = sum_list (take (m - 1) (month_days (is_leap (?k + 1)))) + r" by auto
  show "1 \<le> y" "1 \<le> m" "1 \<le> a" using m eqs by auto
  show "m \<le> 12" using m(2) by (simp add: month_days_def)
  show "a \<le> month_days (is_leap y) ! (m - 1)" using m(3) eqs by simp
  show "day_number y m a = d"
    using m(4) years_in_bounds(1) [of d] by (simp add: day_number_def eqs)
  show "days_to (y - 1) \<le> d" using years_in_bounds(1) [of d] by (simp add: eqs)
qed

section \<open>The text form\<close>

text \<open>
  \<open>t.UTC().Format(time.RFC3339Nano)\<close>: date and time of day with fixed-width fields, then a
  fraction of a second with its trailing zeros dropped (none at all when it is zero), then
  the letter Z. The zero time is the empty text.
\<close>

definition pad :: "nat \<Rightarrow> nat \<Rightarrow> string" where
  "pad w n = replicate (w - length (dec_string n)) CHR ''0'' @ dec_string n"

definition fraction :: "nat \<Rightarrow> string" where
  "fraction f =
     (if f = 0 then ''''
      else CHR ''.'' # rev (dropWhile (\<lambda>c. c = CHR ''0'') (rev (pad 9 f))))"

definition formatTime :: "gotime \<Rightarrow> string" where
  "formatTime t =
     (if is_zero t then ''''
      else
        let secs = nanos t div 1000000000;
            (y, m, d) = civil (secs div 86400);
            sod = secs mod 86400
        in pad 4 y @ ''-'' @ pad 2 m @ ''-'' @ pad 2 d @ ''T'' @ pad 2 (sod div 3600) @ '':''
           @ pad 2 (sod div 60 mod 60) @ '':'' @ pad 2 (sod mod 60)
           @ fraction (nanos t mod 1000000000) @ ''Z'')"

definition formatOptionalTime :: "gotime \<Rightarrow> string" where
  "formatOptionalTime t = formatTime t"

definition field :: "string \<Rightarrow> nat \<Rightarrow> nat \<Rightarrow> nat option" where
  "field s i n = digits_value 0 (take n (drop i s))"

definition is_digit :: "char \<Rightarrow> bool" where
  "is_digit c = (digit_of c \<noteq> None)"

definition parse_fraction :: "string \<Rightarrow> nat option" where
  "parse_fraction s =
     (if s = ''Z'' then Some 0
      else
        (case s of
           [] \<Rightarrow> None
         | c # r \<Rightarrow>
             (let ds = take 9 (takeWhile is_digit r)
              in if c = CHR ''.'' \<and> ds \<noteq> [] \<and> dropWhile is_digit r = ''Z''
                 then map_option (\<lambda>v. v * 10 ^ (9 - length ds)) (digits_value 0 ds)
                 else None)))"

text \<open>
  \<open>time.Parse\<close> with the layout \<open>RFC3339Nano\<close>, on texts in UTC as \<open>formatTime\<close> writes them (the
  layout's numeric zone offsets, which no row holds, are not read).
\<close>

definition parse_rfc3339 :: "string \<Rightarrow> gotime option" where
  "parse_rfc3339 s =
     (if length s < 20 \<or> s ! 4 \<noteq> CHR ''-'' \<or> s ! 7 \<noteq> CHR ''-'' \<or> s ! 10 \<noteq> CHR ''T''
         \<or> s ! 13 \<noteq> CHR '':'' \<or> s ! 16 \<noteq> CHR '':'' then None
      else
        (case (field s 0 4, field s 5 2, field s 8 2, field s 11 2, field s 14 2, field s 17 2,
               parse_fraction (drop 19 s)) of
           (Some y, Some m, Some d, Some hh, Some mm, Some ss, Some f) \<Rightarrow>
             if 1 \<le> y \<and> 1 \<le> m \<and> m \<le> 12 \<and> 1 \<le> d \<and> d \<le> month_days (is_leap y) ! (m - 1)
                \<and> hh < 24 \<and> mm < 60 \<and> ss < 60
             then Some (GoTime (((day_number y m d * 24 + hh) * 60 + mm) * 60 * 1000000000
                                + ss * 1000000000 + f))
             else None
         | _ \<Rightarrow> None))"

definition parseTime :: "string \<Rightarrow> gotime" where
  "parseTime value =
     (if value = '''' then zero_time
      else (case parse_rfc3339 value of None \<Rightarrow> zero_time | Some t \<Rightarrow> t))"

subsection \<open>Round trip\<close>

lemma length_dec_string: "0 < w \<Longrightarrow> n < 10 ^ w \<Longrightarrow> length (dec_string n) \<le> w"
proof (induction w arbitrary: n)
  case 0
  then show ?case by simp
next
  case (Suc w)
  show ?case
  proof (cases "n < 10")
    case True
    then show ?thesis by (simp add: dec_string.simps [of n])
  next
    case False
    with Suc.prems have "0 < w" by (cases w) auto
    moreover have "n div 10 < 10 ^ w" using Suc.prems by (simp add: less_mult_imp_div_less mult.commute)
    ultimately have "length (dec_string (n div 10)) \<le> w" by (rule Suc.IH)
    with False show ?thesis by (simp add: dec_string.simps [of n])
  qed
qed

lemma length_pad [simp]: "0 < w \<Longrightarrow> n < 10 ^ w \<Longrightarrow> length (pad w n) = w"
  by (simp add: pad_def length_dec_string)

lemma digits_value_zeros: "digits_value 0 (replicate k CHR ''0'' @ s) = digits_value 0 s"
  by (induction k) (simp_all add: digit_of_def)

lemma digits_value_pad [simp]: "digits_value 0 (pad w n) = Some n"
  by (simp add: pad_def digits_value_zeros)

lemma digits_value_trailing:
  "digits_value a (t @ replicate k CHR ''0'') = map_option (\<lambda>v. v * 10 ^ k) (digits_value a t)"
proof (induction k arbitrary: t)
  case 0
  then show ?case by (simp add: option.map_ident)
next
  case (Suc k)
  have "t @ replicate (Suc k) CHR ''0'' = (t @ [CHR ''0'']) @ replicate k CHR ''0''" by simp
  with Suc [of "t @ [CHR ''0'']"] show ?case
    by (auto simp: digits_value_append digit_of_def split: option.splits)
qed

lemma digits_value_is_digit: "digits_value a s = Some v \<Longrightarrow> c \<in> set s \<Longrightarrow> is_digit c"
  by (induction s arbitrary: a) (auto simp: is_digit_def split: option.splits)

lemma dropWhile_zeros_split:
  "\<exists>k. rev s = rev (dropWhile (\<lambda>c. c = z) s) @ replicate k z"
proof (induction s)
  case Nil
  then show ?case by simp
next
  case (Cons a s)
  then obtain k where k: "rev s = rev (dropWhile (\<lambda>c. c = z) s) @ replicate k z" by blast
  show ?case
  proof (cases "a = z")
    case True
    with k have "rev (a # s) = rev (dropWhile (\<lambda>c. c = z) (a # s)) @ replicate (Suc k) z"
      by (simp add: replicate_append_same)
    then show ?thesis by blast
  next
    case False
    then have "rev (a # s) = rev (dropWhile (\<lambda>c. c = z) (a # s)) @ replicate 0 z" by simp
    then show ?thesis by blast
  qed
qed

lemma take_drop_until:
  assumes "\<forall>c \<in> set t. P c" and "\<not> P z"
  shows "takeWhile P (t @ [z]) = t" "dropWhile P (t @ [z]) = [z]"
  using assms by (induction t) auto

lemma parse_fraction_fraction:
  assumes "f < 1000000000"
  shows "parse_fraction (fraction f @ ''Z'') = Some f"
proof (cases "f = 0")
  case True
  then show ?thesis by (simp add: fraction_def parse_fraction_def)
next
  case False
  let ?t = "rev (dropWhile (\<lambda>c. c = CHR ''0'') (rev (pad 9 f)))"
  obtain k where k: "pad 9 f = ?t @ replicate k CHR ''0''"
    using dropWhile_zeros_split [of "rev (pad 9 f)" "CHR ''0''"] by auto
  have len: "length ?t + k = 9"
    using arg_cong [OF k, of length] assms by simp
  have "digits_value 0 (?t @ replicate k CHR ''0'') = Some f"
    using digits_value_pad [of 9 f] k by simp
  then obtain v where v: "digits_value 0 ?t = Some v" "v * 10 ^ k = f"
    by (auto simp: digits_value_trailing)
  have ne: "?t \<noteq> []"
  proof
    assume "?t = []"
    with v have "f = 0" by simp
    with False show False ..
  qed
  have dig: "\<forall>c \<in> set ?t. is_digit c" using digits_value_is_digit [OF v(1)] by blast
  have nz: "\<not> is_digit CHR ''Z''" by (simp add: is_digit_def digit_of_def)
  have "takeWhile is_digit (?t @ ''Z'') = ?t" "dropWhile is_digit (?t @ ''Z'') = ''Z''"
    using take_drop_until [OF dig nz] by blast+
  moreover have "take 9 ?t = ?t" using len by simp
  moreover have "9 - length ?t = k" using len by simp
  ultimately show ?thesis
    using v ne False by (simp add: fraction_def parse_fraction_def Let_def)
qed

text \<open>The fields of a formatted text, at their fixed positions.\<close>

lemma length_2E: "length s = 2 \<Longrightarrow> \<exists>a b. s = [a, b]"
  by (simp add: length_Suc_conv numeral_eq_Suc) blast

lemma length_4E: "length s = 4 \<Longrightarrow> \<exists>a b c d. s = [a, b, c, d]"
  by (simp add: length_Suc_conv numeral_eq_Suc) blast

lemma layout_positions:
  fixes A B C D E F r :: string
  assumes "length A = 4" "length B = 2" "length C = 2" "length D = 2" "length E = 2" "length F = 2"
    and s: "s = A @ ''-'' @ B @ ''-'' @ C @ ''T'' @ D @ '':'' @ E @ '':'' @ F @ r"
  shows "length s = 19 + length r" "s ! 4 = CHR ''-''" "s ! 7 = CHR ''-''" "s ! 10 = CHR ''T''"
    "s ! 13 = CHR '':''" "s ! 16 = CHR '':''" "take 4 (drop 0 s) = A" "take 2 (drop 5 s) = B"
    "take 2 (drop 8 s) = C" "take 2 (drop 11 s) = D" "take 2 (drop 14 s) = E"
    "take 2 (drop 17 s) = F" "drop 19 s = r"
proof -
  obtain a1 a2 a3 a4 b1 b2 c1 c2 d1 d2 e1 e2 f1 f2 where
    l: "A = [a1, a2, a3, a4]" "B = [b1, b2]" "C = [c1, c2]" "D = [d1, d2]" "E = [e1, e2]" "F = [f1, f2]"
    using assms(1-6) by (metis length_2E length_4E)
  show "length s = 19 + length r" "s ! 4 = CHR ''-''" "s ! 7 = CHR ''-''" "s ! 10 = CHR ''T''"
    "s ! 13 = CHR '':''" "s ! 16 = CHR '':''" "take 4 (drop 0 s) = A" "take 2 (drop 5 s) = B"
    "take 2 (drop 8 s) = C" "take 2 (drop 11 s) = D" "take 2 (drop 14 s) = E"
    "take 2 (drop 17 s) = F" "drop 19 s = r"
    by (simp_all add: s l)
qed

lemma parse_fields:
  assumes "y < 10000" "m < 100" "d < 100" "hh < 100" "mm < 100" "ss < 100"
    and s: "s = pad 4 y @ ''-'' @ pad 2 m @ ''-'' @ pad 2 d @ ''T'' @ pad 2 hh @ '':''
           @ pad 2 mm @ '':'' @ pad 2 ss @ r"
  shows "length s = 19 + length r" "s ! 4 = CHR ''-''" "s ! 7 = CHR ''-''" "s ! 10 = CHR ''T''"
    "s ! 13 = CHR '':''" "s ! 16 = CHR '':''" "field s 0 4 = Some y" "field s 5 2 = Some m"
    "field s 8 2 = Some d" "field s 11 2 = Some hh" "field s 14 2 = Some mm"
    "field s 17 2 = Some ss" "drop 19 s = r"
proof -
  have "length (pad 4 y) = 4" "length (pad 2 m) = 2" "length (pad 2 d) = 2"
    "length (pad 2 hh) = 2" "length (pad 2 mm) = 2" "length (pad 2 ss) = 2"
    using assms(1-6) by simp_all
  note p = layout_positions [OF this s]
  show "length s = 19 + length r" "s ! 4 = CHR ''-''" "s ! 7 = CHR ''-''" "s ! 10 = CHR ''T''"
    "s ! 13 = CHR '':''" "s ! 16 = CHR '':''" "drop 19 s = r"
    by (fact p)+
  show "field s 0 4 = Some y" "field s 5 2 = Some m"
    "field s 8 2 = Some d" "field s 11 2 = Some hh" "field s 14 2 = Some mm"
    "field s 17 2 = Some ss"
    unfolding field_def p by (fact digits_value_pad)+
qed

lemma time_of_day:
  fixes n :: nat
  defines "secs \<equiv> n div 1000000000"
  defines "sod \<equiv> secs mod 86400"
  shows "((secs div 86400 * 24 + sod div 3600) * 60 + sod div 60 mod 60) * 60 * 1000000000
           + sod mod 60 * 1000000000 + n mod 1000000000 = n"
proof -
  have "sod = sod div 3600 * 3600 + sod div 60 mod 60 * 60 + sod mod 60"
  proof -
    have "sod div 3600 = sod div 60 div 60" by (simp add: div_mult2_eq [symmetric])
    then show ?thesis
      using div_mult_mod_eq [of sod 60] div_mult_mod_eq [of "sod div 60" 60] by linarith
  qed
  moreover have "secs = secs div 86400 * 86400 + sod" by (simp add: sod_def)
  moreover have "n = secs * 1000000000 + n mod 1000000000" by (simp add: secs_def)
  ultimately show ?thesis by (simp add: algebra_simps)
qed

definition year_10000 :: gotime where
  "year_10000 = GoTime (days_to 9999 * 86400 * 1000000000)"

lemma civil_year_bound: "d < days_to 9999 \<Longrightarrow> civil d = (y, m, a) \<Longrightarrow> y < 10000"
  using civil_props(7) [of d y m a] days_to_mono [of 9999 "y - 1"] by fastforce

lemma month_days_le_31: "i < 12 \<Longrightarrow> month_days l ! i \<le> 31"
  by (auto simp: month_days_def less_Suc_eq numeral_eq_Suc)

lemma parse_rfc3339_format:
  assumes "t < year_10000" and "\<not> is_zero t"
  shows "parse_rfc3339 (formatTime t) = Some t" and "formatTime t \<noteq> ''''"
proof -
  let ?n = "nanos t"
  let ?secs = "?n div 1000000000"
  let ?sod = "?secs mod 86400"
  obtain y m a where c: "civil (?secs div 86400) = (y, m, a)" by (metis prod_cases3)
  have "?n < days_to 9999 * 86400 * 1000000000"
    using assms(1) by (simp add: year_10000_def less_gotime_def)
  then have "?secs div 86400 < days_to 9999"
    by (simp add: less_mult_imp_div_less mult.commute mult.left_commute)
  from civil_year_bound [OF this c] have y: "y < 10000" .
  note cp = civil_props [OF c]
  have a: "a \<le> 31" using cp(2,3,5) month_days_le_31 [of "m - 1" "is_leap y"] by linarith
  have h: "?sod div 3600 < 24" "?sod div 60 mod 60 < 60" "?sod mod 60 < 60"
    by (simp_all add: less_mult_imp_div_less)
  define r where "r = fraction (?n mod 1000000000) @ ''Z''"
  have fmt: "formatTime t = pad 4 y @ ''-'' @ pad 2 m @ ''-'' @ pad 2 a @ ''T''
      @ pad 2 (?sod div 3600) @ '':'' @ pad 2 (?sod div 60 mod 60) @ '':'' @ pad 2 (?sod mod 60) @ r"
    using assms(2) c by (simp add: formatTime_def r_def Let_def)
  have lt: "m < 100" "a < 100" "?sod div 3600 < 100" "?sod div 60 mod 60 < 100" "?sod mod 60 < 100"
    using cp(3) a h by linarith+
  note pf = parse_fields [OF y lt fmt]
  have fr: "parse_fraction r = Some (?n mod 1000000000)"
    unfolding r_def by (rule parse_fraction_fraction) simp
  have rl: "0 < length r" by (simp add: r_def)
  have "GoTime (((day_number y m a * 24 + ?sod div 3600) * 60 + ?sod div 60 mod 60) * 60 * 1000000000
          + ?sod mod 60 * 1000000000 + ?n mod 1000000000) = t"
    unfolding cp(6) by (subst time_of_day) simp
  then show "parse_rfc3339 (formatTime t) = Some t"
    using cp(1-5) h rl by (simp add: parse_rfc3339_def pf fr)
  show "formatTime t \<noteq> ''''" using pf(1) by force
qed

lemma parseTime_formatTime: "t < year_10000 \<Longrightarrow> parseTime (formatTime t) = t"
  using parse_rfc3339_format [of t]
  by (cases "is_zero t") (auto simp: parseTime_def formatTime_def is_zero_def)

lemma formatTime_empty_iff: "t < year_10000 \<Longrightarrow> formatTime t = '''' \<longleftrightarrow> is_zero t"
  using parse_rfc3339_format(2) [of t] by (auto simp: formatTime_def)

lemma formatTime_inj: "a < year_10000 \<Longrightarrow> b < year_10000 \<Longrightarrow> formatTime a = formatTime b \<Longrightarrow> a = b"
  by (metis parseTime_formatTime)

end
