(* ===== verification/Models.thy ===== *)
theory Models
  imports Go_Time "HOL-Library.Word"
begin

text \<open>
  The data types of internal/models/models.go, one record per struct with the struct's
  fields in order. A field name carries its record's initials because record fields are
  global constants. A \<open>float64\<close> load is a rational (rounding is not modelled), a JSON array
  that may be absent (a nil slice) is an option, and the one \<open>int\<close> whose overflow matters
  (\<open>ExpiresInSeconds\<close>) is a 64-bit word. \<open>wire\<close> functions drop the fields tagged
  \<open>json:"-"\<close>, as encoding to JSON does.
\<close>

section \<open>Users and groups\<close>

record user =
  u_ID :: string
  u_Name :: string
  u_Email :: string
  u_Role :: string
  u_CreatedAt :: gotime

record user_create_request =
  ucr_ID :: string
  ucr_Name :: string
  ucr_Email :: string
  ucr_Role :: string

record device_group =
  g_ID :: string
  g_Name :: string
  g_Description :: string
  g_CreatedAt :: gotime

record device_group_create_request =
  gcr_ID :: string
  gcr_Name :: string
  gcr_Description :: string

section \<open>Devices\<close>

definition DeviceStatusPending :: string where "DeviceStatusPending = ''pending''"
definition DeviceStatusOnline :: string where "DeviceStatusOnline = ''online''"
definition DeviceStatusOffline :: string where "DeviceStatusOffline = ''offline''"

record device =
  d_ID :: string
  d_UserID :: string
  d_GroupID :: string
  d_Name :: string
  d_VirtualIP :: string
  d_PublicKey :: string
  d_Endpoint :: string
  d_TokenHash :: string
  d_DeviceToken :: string
  d_Status :: string
  d_LastSeenAt :: gotime
  d_CreatedAt :: gotime
  d_Fingerprint :: string

definition empty_device :: device where
  "empty_device = \<lparr>d_ID = '''', d_UserID = '''', d_GroupID = '''', d_Name = '''',
     d_VirtualIP = '''', d_PublicKey = '''', d_Endpoint = '''', d_TokenHash = '''',
     d_DeviceToken = '''', d_Status = '''', d_LastSeenAt = zero_time,
     d_CreatedAt = zero_time, d_Fingerprint = ''''\<rparr>"

definition wire_device :: "device \<Rightarrow> device" where
  "wire_device d = d\<lparr>d_TokenHash := ''''\<rparr>"

record device_registration_request =
  drr_EnrollmentKey :: string
  drr_Name :: string
  drr_PublicKey :: string
  drr_Fingerprint :: string
  drr_Endpoint :: string

record device_health_report =
  dhr_Status :: string
  dhr_LatencyMS :: int
  dhr_PeersReachable :: int
  dhr_PeersTotal :: int
  dhr_Endpoint :: string

record network_peer =
  np_ID :: string
  np_Name :: string
  np_VirtualIP :: string
  np_PublicKey :: string
  np_Endpoint :: string
  np_AllowedIPs :: "string list"

section \<open>Relays\<close>

definition RelayStatusHealthy :: string where "RelayStatusHealthy = ''healthy''"
definition RelayStatusDegraded :: string where "RelayStatusDegraded = ''degraded''"
definition RelayStatusUnhealthy :: string where "RelayStatusUnhealthy = ''unhealthy''"

record relay_node =
  r_ID :: string
  r_Name :: string
  r_Region :: string
  r_PublicURL :: string
  r_IPv4 :: string
  r_IPv6 :: string
  r_Status :: string
  r_Load :: rat
  r_LastSeenAt :: gotime
  r_Registered :: gotime

definition empty_relay :: relay_node where
  "empty_relay = \<lparr>r_ID = '''', r_Name = '''', r_Region = '''', r_PublicURL = '''',
     r_IPv4 = '''', r_IPv6 = '''', r_Status = '''', r_Load = 0, r_LastSeenAt = zero_time,
     r_Registered = zero_time\<rparr>"

section \<open>Policies, invitations, API keys\<close>

record network_policy =
  p_ID :: string
  p_Name :: string
  p_SourceID :: string
  p_TargetID :: string
  p_Ports :: "string list option"
  p_Protocol :: string
  p_Enabled :: bool
  p_Description :: string
  p_CreatedAt :: gotime
  p_UpdatedAt :: gotime

record invitation =
  i_ID :: string
  i_TokenHash :: string
  i_UserID :: string
  i_GroupID :: string
  i_Reusable :: bool
  i_ExpiresAt :: gotime
  i_UsedAt :: gotime
  i_CreatedAt :: gotime
  i_PlaintextToken :: string

definition wire_invitation :: "invitation \<Rightarrow> invitation" where
  "wire_invitation i = i\<lparr>i_TokenHash := ''''\<rparr>"

record invitation_create_request =
  icr_UserID :: string
  icr_GroupID :: string
  icr_Reusable :: bool
  icr_ExpiresInSeconds :: "64 word"

record api_key =
  k_ID :: string
  k_Name :: string
  k_Digest :: string
  k_Scope :: string
  k_CreatedAt :: gotime
  k_LastUsedAt :: gotime
  k_RevokedAt :: gotime
  k_PlaintextKey :: string

definition wire_api_key :: "api_key \<Rightarrow> api_key" where
  "wire_api_key k = k\<lparr>k_Digest := ''''\<rparr>"

record api_key_create_request =
  kcr_Name :: string
  kcr_Scope :: string

section \<open>Composite responses\<close>

record device_registration_response =
  resp_Device :: device
  resp_Relays :: "relay_node list"
  resp_Message :: string

record network_config =
  nc_Device :: device
  nc_Peers :: "network_peer list"
  nc_Policies :: "network_policy list"
  nc_Relays :: "relay_node list"

record overview =
  ov_OnlineDevices :: nat
  ov_TotalDevices :: nat
  ov_RelayNodes :: nat
  ov_HealthyRelays :: nat
  ov_PolicyCount :: nat
  ov_NetworkHealth :: string
  ov_AverageLoad :: rat

record controller_settings =
  cs_PublicURL :: string
  cs_ListenAddr :: string
  cs_LogLevel :: string
  cs_WebConsoleEnabled :: bool
  cs_DatabaseBackend :: string

section \<open>TCP relay sessions\<close>

record tcp_relay_session_request =
  tsr_SourceDeviceID :: string
  tsr_Target :: string
  tsr_TargetPort :: int
  tsr_Protocol :: string

record tcp_relay_session =
  ts_ID :: string
  ts_SourceDeviceID :: string
  ts_TargetDeviceID :: string
  ts_TargetName :: string
  ts_TargetVirtualIP :: string
  ts_TargetPort :: int
  ts_Protocol :: string
  ts_ExpiresAt :: gotime

end
