(* ===== verification/Relay_Broker.thy ===== *)
theory Relay_Broker
  imports Models
begin

text \<open>
  TCPRelayBroker of internal/controller/tcp_relay.go: the table of relay sessions waiting for
  their two connections, the attachment of a client and an agent connection, expiry, and the
  wake channel of the long poll. The broker's mutex makes each method atomic; \<open>PendingWait\<close>,
  which takes it several times, is split into its critical sections.

  The session map is an association list (Go's map iteration order is open, so results that
  depend on it are stated as sets). A connection is a number. The broker's effects outside
  its own state are recorded: \<open>b_closed\<close> the connections it closed, \<open>b_proxied\<close> the pairs it
  started to copy between, with the session each pair belonged to. The wake channel is a
  generation number: \<open>signalLocked\<close> closes the current channel and installs a new one, so a
  channel is closed exactly when its number is below \<open>b_wake\<close>.
\<close>

section \<open>State\<close>

type_synonym conn = nat

definition tcpRelaySessionTTL :: int where "tcpRelaySessionTTL = 2 * minute"

record session_state =
  st_session :: tcp_relay_session
  st_client :: "conn option"
  st_agent :: "conn option"

record broker =
  b_sessions :: "(string \<times> session_state) list"
  b_wake :: nat
  b_closed :: "conn list"
  b_proxied :: "(tcp_relay_session \<times> conn \<times> conn) list"

datatype relay_error = SessionNotFound | SourceMismatch | TargetMismatch | ClientAttached
  | AgentAttached | SessionExpired | ClientRejected | AgentRejected

definition NewTCPRelayBroker :: broker where
  "NewTCPRelayBroker = \<lparr>b_sessions = [], b_wake = 0, b_closed = [], b_proxied = []\<rparr>"

section \<open>Methods\<close>

definition opt_list :: "'a option \<Rightarrow> 'a list" where
  "opt_list x = (case x of None \<Rightarrow> [] | Some a \<Rightarrow> [a])"

definition expired :: "gotime \<Rightarrow> session_state \<Rightarrow> bool" where
  "expired now st = time_after now (ts_ExpiresAt (st_session st))"

text \<open>\<open>cleanupLocked\<close>: every expired session is dropped and its connections are closed.\<close>

definition cleanupLocked :: "gotime \<Rightarrow> broker \<Rightarrow> broker" where
  "cleanupLocked now b =
     (let dead = filter (\<lambda>(sid, st). expired now st) (b_sessions b)
      in b\<lparr>b_sessions := filter (\<lambda>(sid, st). \<not> expired now st) (b_sessions b),
           b_closed := b_closed b
             @ concat (map (\<lambda>(sid, st). opt_list (st_client st) @ opt_list (st_agent st)) dead)\<rparr>)"

definition signalLocked :: "broker \<Rightarrow> broker" where
  "signalLocked b = b\<lparr>b_wake := b_wake b + 1\<rparr>"

definition new_session ::
  "gotime \<Rightarrow> string \<Rightarrow> device \<Rightarrow> device \<Rightarrow> int \<Rightarrow> tcp_relay_session" where
  "new_session now sid source target port =
     \<lparr>ts_ID = sid, ts_SourceDeviceID = d_ID source, ts_TargetDeviceID = d_ID target,
      ts_TargetName = d_Name target, ts_TargetVirtualIP = d_VirtualIP target,
      ts_TargetPort = port, ts_Protocol = ''tcp'',
      ts_ExpiresAt = time_add now tcpRelaySessionTTL\<rparr>"

definition Create ::
  "gotime \<Rightarrow> string \<Rightarrow> device \<Rightarrow> device \<Rightarrow> int \<Rightarrow> broker \<Rightarrow> tcp_relay_session \<times> broker" where
  "Create now sid source target port b =
     (let session = new_session now sid source target port;
          b1 = b\<lparr>b_sessions := AList.update sid
                   \<lparr>st_session = session, st_client = None, st_agent = None\<rparr> (b_sessions b)\<rparr>;
          b2 = cleanupLocked now b1;
          b3 = signalLocked b2
      in (session, b3))"

definition Pending :: "gotime \<Rightarrow> string \<Rightarrow> broker \<Rightarrow> tcp_relay_session list \<times> broker" where
  "Pending now targetDeviceID b =
     (let b' = cleanupLocked now b
      in (map (\<lambda>(sid, st). st_session st)
            (filter (\<lambda>(sid, st). ts_TargetDeviceID (st_session st) = targetDeviceID
                                 \<and> st_agent st = None) (b_sessions b')), b'))"

definition validate ::
  "gotime \<Rightarrow> string \<Rightarrow> string \<Rightarrow> bool \<Rightarrow> broker \<Rightarrow> (relay_error + unit) \<times> broker" where
  "validate now sessionID deviceID client b =
     (let b' = cleanupLocked now b
      in (case map_of (b_sessions b') sessionID of
            None \<Rightarrow> Inl SessionNotFound
          | Some state \<Rightarrow>
              if client \<and> ts_SourceDeviceID (st_session state) \<noteq> deviceID then Inl SourceMismatch
              else if \<not> client \<and> ts_TargetDeviceID (st_session state) \<noteq> deviceID then Inl TargetMismatch
              else if client \<and> st_client state \<noteq> None then Inl ClientAttached
              else if \<not> client \<and> st_agent state \<noteq> None then Inl AgentAttached
              else Inr (), b'))"

definition ValidateClient :: "gotime \<Rightarrow> string \<Rightarrow> string \<Rightarrow> broker \<Rightarrow> (relay_error + unit) \<times> broker" where
  "ValidateClient now sessionID sourceDeviceID = validate now sessionID sourceDeviceID True"

definition ValidateAgent :: "gotime \<Rightarrow> string \<Rightarrow> string \<Rightarrow> broker \<Rightarrow> (relay_error + unit) \<times> broker" where
  "ValidateAgent now sessionID targetDeviceID = validate now sessionID targetDeviceID False"

definition close_conn :: "conn \<Rightarrow> broker \<Rightarrow> broker" where
  "close_conn c b = b\<lparr>b_closed := b_closed b @ [c]\<rparr>"

text \<open>
  The end of \<open>attach\<close>: the session with the new connection is stored back, or, when both
  connections are there, removed and handed to the proxy.
\<close>

definition settle :: "string \<Rightarrow> session_state \<Rightarrow> broker \<Rightarrow> broker" where
  "settle sessionID state b =
     (case (st_client state, st_agent state) of
        (Some c, Some a) \<Rightarrow>
          b\<lparr>b_sessions := AList.delete sessionID (b_sessions b),
            b_proxied := b_proxied b @ [(st_session state, c, a)]\<rparr>
      | _ \<Rightarrow> b\<lparr>b_sessions := AList.update sessionID state (b_sessions b)\<rparr>)"

definition attach ::
  "gotime \<Rightarrow> string \<Rightarrow> string \<Rightarrow> conn \<Rightarrow> bool \<Rightarrow> broker \<Rightarrow> (relay_error + unit) \<times> broker" where
  "attach now sessionID deviceID conn client b =
     (case map_of (b_sessions b) sessionID of
        None \<Rightarrow> (Inl SessionNotFound, close_conn conn b)
      | Some state \<Rightarrow>
          if time_after now (ts_ExpiresAt (st_session state)) then
            (Inl SessionExpired,
             close_conn conn (b\<lparr>b_sessions := AList.delete sessionID (b_sessions b)\<rparr>))
          else if client then
            if ts_SourceDeviceID (st_session state) \<noteq> deviceID \<or> st_client state \<noteq> None
            then (Inl ClientRejected, close_conn conn b)
            else (Inr (), settle sessionID (state\<lparr>st_client := Some conn\<rparr>) b)
          else
            if ts_TargetDeviceID (st_session state) \<noteq> deviceID \<or> st_agent state \<noteq> None
            then (Inl AgentRejected, close_conn conn b)
            else (Inr (), settle sessionID (state\<lparr>st_agent := Some conn\<rparr>) b))"

definition AttachClient ::
  "gotime \<Rightarrow> string \<Rightarrow> string \<Rightarrow> conn \<Rightarrow> broker \<Rightarrow> (relay_error + unit) \<times> broker" where
  "AttachClient now sessionID sourceDeviceID conn = attach now sessionID sourceDeviceID conn True"

definition AttachAgent ::
  "gotime \<Rightarrow> string \<Rightarrow> string \<Rightarrow> conn \<Rightarrow> broker \<Rightarrow> (relay_error + unit) \<times> broker" where
  "AttachAgent now sessionID targetDeviceID conn = attach now sessionID targetDeviceID conn False"

section \<open>The long poll\<close>

text \<open>
  \<open>PendingWait\<close> in its critical sections. A poll first asks for pending sessions; if there are
  none and it may wait, it reads the wake channel in a second critical section, blocks until
  that channel is closed, the timer fires or the request is cancelled, and asks again.
\<close>

datatype waiter = Polling | Reading | Blocked nat | Answered "tcp_relay_session list"

datatype wake_cause = ChannelClosed | TimerFired | ContextDone

definition wait_poll :: "gotime \<Rightarrow> string \<Rightarrow> int \<Rightarrow> broker \<Rightarrow> waiter \<times> broker" where
  "wait_poll now dev wait b =
     (case Pending now dev b of (pending, b') \<Rightarrow>
        if pending \<noteq> [] \<or> wait \<le> 0 then (Answered pending, b') else (Reading, b'))"

definition wait_read :: "broker \<Rightarrow> waiter" where
  "wait_read b = Blocked (b_wake b)"

definition channel_closed :: "nat \<Rightarrow> broker \<Rightarrow> bool" where
  "channel_closed g b = (g < b_wake b)"

definition wait_wake ::
  "wake_cause \<Rightarrow> gotime \<Rightarrow> string \<Rightarrow> nat \<Rightarrow> broker \<Rightarrow> waiter \<times> broker" where
  "wait_wake cause now dev g b =
     (if cause = ChannelClosed \<and> \<not> channel_closed g b then (Blocked g, b)
      else (case Pending now dev b of (pending, b') \<Rightarrow> (Answered pending, b')))"

text \<open>
  One undisturbed poll: the sections in a row, with \<open>later\<close> the broker at the time of waking
  (changed by other requests) and \<open>cause\<close> what woke it.
\<close>

definition PendingWait ::
  "gotime \<Rightarrow> gotime \<Rightarrow> string \<Rightarrow> int \<Rightarrow> wake_cause \<Rightarrow> (broker \<Rightarrow> broker) \<Rightarrow> broker
   \<Rightarrow> waiter \<times> broker" where
  "PendingWait now1 now2 dev wait cause others b =
     (case wait_poll now1 dev wait b of
        (Answered p, b1) \<Rightarrow> (Answered p, b1)
      | (_, b1) \<Rightarrow>
          (case wait_read b1 of
             Blocked g \<Rightarrow> wait_wake cause now2 dev g (others b1)
           | w \<Rightarrow> (w, b1)))"

end
