(* ===== verification/Broker_Props.thy ===== *)
theory Broker_Props
  imports Relay_Broker
begin

text \<open>
  The broker as a transition system and its invariant: whatever requests arrive in whatever
  order, a session pairs at most one client with at most one agent connection, only
  connections of the session's own source and target devices are paired, a session is used
  once, and a connection ends in at most one place.
\<close>

section \<open>Where connections are\<close>

definition state_conns :: "session_state \<Rightarrow> conn list" where
  "state_conns st = opt_list (st_client st) @ opt_list (st_agent st)"

definition live_conns :: "(string \<times> session_state) list \<Rightarrow> conn multiset" where
  "live_conns xs = sum_list (map (\<lambda>x. mset (state_conns (snd x))) xs)"

definition pair_conns :: "(tcp_relay_session \<times> conn \<times> conn) list \<Rightarrow> conn multiset" where
  "pair_conns ps = sum_list (map (\<lambda>(s, c, a). {#c, a#}) ps)"

text \<open>Every connection the broker still holds, has closed, or has handed to a proxy.\<close>

definition accounted :: "broker \<Rightarrow> conn multiset" where
  "accounted b = live_conns (b_sessions b) + mset (b_closed b) + pair_conns (b_proxied b)"

lemma live_conns_simps [simp]:
  "live_conns [] = {#}" "live_conns (x # xs) = mset (state_conns (snd x)) + live_conns xs"
  by (simp_all add: live_conns_def)

lemma pair_conns_simps [simp]:
  "pair_conns [] = {#}" "pair_conns (ps @ qs) = pair_conns ps + pair_conns qs"
  "pair_conns [(s, c, a)] = {#c, a#}"
  by (simp_all add: pair_conns_def)

lemma state_conns_simps [simp]:
  "state_conns \<lparr>st_session = s, st_client = None, st_agent = None\<rparr> = []"
  "state_conns (st\<lparr>st_client := Some c\<rparr>) = c # opt_list (st_agent st)"
  "state_conns (st\<lparr>st_agent := Some c\<rparr>) = opt_list (st_client st) @ [c]"
  by (simp_all add: state_conns_def opt_list_def)

lemma opt_list_simps [simp]: "opt_list None = []" "opt_list (Some x) = [x]"
  by (simp_all add: opt_list_def)

text \<open>A lookup splits one session off the table; storing it back puts its connections back.\<close>

lemma delete_absent: "k \<notin> fst ` set xs \<Longrightarrow> AList.delete k xs = xs"
  by (induction xs) auto

lemma live_conns_split:
  "map_of xs k = Some st \<Longrightarrow> distinct (map fst xs) \<Longrightarrow>
   live_conns xs = mset (state_conns st) + live_conns (AList.delete k xs)"
proof (induction xs)
  case Nil
  then show ?case by simp
next
  case (Cons x xs)
  then show ?case
    by (cases "fst x = k") (auto simp: delete_absent split: if_splits)
qed

lemma live_conns_update:
  "distinct (map fst xs) \<Longrightarrow>
   live_conns (AList.update k st xs) = mset (state_conns st) + live_conns (AList.delete k xs)"
proof (induction xs)
  case Nil
  then show ?case by simp
next
  case (Cons x xs)
  then show ?case by (cases x) (auto simp: delete_absent)
qed

lemma live_conns_cleanup:
  "live_conns xs = live_conns (filter (\<lambda>(sid, st). \<not> expired now st) xs)
     + mset (concat (map (\<lambda>(sid, st). opt_list (st_client st) @ opt_list (st_agent st))
         (filter (\<lambda>(sid, st). expired now st) xs)))"
  by (induction xs) (auto simp: state_conns_def)

lemma accounted_cleanup [simp]: "accounted (cleanupLocked now b) = accounted b"
  using live_conns_cleanup [of "b_sessions b" now]
  by (simp add: accounted_def cleanupLocked_def Let_def)

lemma accounted_close [simp]: "accounted (close_conn c b) = add_mset c (accounted b)"
  by (simp add: accounted_def close_conn_def)

lemma accounted_settle:
  assumes "distinct (map fst (b_sessions b))"
  shows "accounted (settle sid st b) =
    mset (state_conns st) + live_conns (AList.delete sid (b_sessions b))
    + mset (b_closed b) + pair_conns (b_proxied b)"
  using assms
  by (auto simp: settle_def accounted_def live_conns_update state_conns_def split: option.splits)

text \<open>
  One attachment adds its connection to the account, except when it finds its session
  expired: then the partner that was already attached drops out of it.
\<close>

lemma accounted_attach:
  assumes "distinct (map fst (b_sessions b))" and "attach now sid dev c client b = (x, b')"
  shows "accounted b' + (if x = Inl SessionExpired
           then (case map_of (b_sessions b) sid of None \<Rightarrow> {#} | Some st \<Rightarrow> mset (state_conns st))
           else {#}) = add_mset c (accounted b)"
proof (cases "map_of (b_sessions b) sid")
  case None
  with assms(2) show ?thesis by (auto simp: attach_def)
next
  case (Some st)
  note split = live_conns_split [OF Some assms(1)]
  have l: "accounted b = mset (state_conns st) + live_conns (AList.delete sid (b_sessions b))
      + mset (b_closed b) + pair_conns (b_proxied b)"
    by (simp add: accounted_def split)
  show ?thesis
  proof (cases "expired now st")
    case True
    with assms(2) Some have "x = Inl SessionExpired"
      "b' = close_conn c (b\<lparr>b_sessions := AList.delete sid (b_sessions b)\<rparr>)"
      by (auto simp: attach_def expired_def)
    with Some show ?thesis by (simp add: l) (simp add: accounted_def)
  next
    case False
    show ?thesis
      using assms(2) Some False
      by (auto simp: attach_def expired_def accounted_settle [OF assms(1)] l state_conns_def split: if_splits)
  qed
qed

section \<open>The transition system\<close>

text \<open>
  The broker with its history: the clock, the sessions created so far, and every connection
  that was handed to it with the device that had authenticated on it. A session id and a
  connection are new when they appear (UUIDs; a hijacked connection is handed over once).
\<close>

record bsys =
  y_broker :: broker
  y_now :: gotime
  y_made :: "tcp_relay_session list"
  y_conns :: "(conn \<times> string) list"

definition init_bsys :: bsys where
  "init_bsys = \<lparr>y_broker = NewTCPRelayBroker, y_now = zero_time, y_made = [], y_conns = []\<rparr>"

inductive bstep :: "bsys \<Rightarrow> bsys \<Rightarrow> bool" where
  tick: "y_now y \<le> now \<Longrightarrow> bstep y (y\<lparr>y_now := now\<rparr>)"
| create: "Create (y_now y) sid source target port (y_broker y) = (session, b') \<Longrightarrow>
    sid \<notin> ts_ID ` set (y_made y) \<Longrightarrow>
    bstep y (y\<lparr>y_broker := b', y_made := y_made y @ [session]\<rparr>)"
| pending: "Pending (y_now y) dev (y_broker y) = (out, b') \<Longrightarrow> bstep y (y\<lparr>y_broker := b'\<rparr>)"
| validate: "validate (y_now y) sid dev client (y_broker y) = (x, b') \<Longrightarrow> bstep y (y\<lparr>y_broker := b'\<rparr>)"
| attach: "attach (y_now y) sid dev c client (y_broker y) = (x, b') \<Longrightarrow>
    c \<notin> fst ` set (y_conns y) \<Longrightarrow>
    bstep y (y\<lparr>y_broker := b', y_conns := y_conns y @ [(c, dev)]\<rparr>)"

inductive breach :: "bsys \<Rightarrow> bool" where
  start: "breach init_bsys"
| next_step: "breach y \<Longrightarrow> bstep y z \<Longrightarrow> breach z"

section \<open>The invariant\<close>

definition session_ok :: "bsys \<Rightarrow> string \<Rightarrow> session_state \<Rightarrow> bool" where
  "session_ok y sid st \<longleftrightarrow>
     ts_ID (st_session st) = sid \<and> st_session st \<in> set (y_made y)
     \<and> (st_client st = None \<or> st_agent st = None)
     \<and> (\<forall>c. st_client st = Some c \<longrightarrow> (c, ts_SourceDeviceID (st_session st)) \<in> set (y_conns y))
     \<and> (\<forall>a. st_agent st = Some a \<longrightarrow> (a, ts_TargetDeviceID (st_session st)) \<in> set (y_conns y))"

definition pair_ok :: "bsys \<Rightarrow> tcp_relay_session \<times> conn \<times> conn \<Rightarrow> bool" where
  "pair_ok y = (\<lambda>(s, c, a). s \<in> set (y_made y)
     \<and> (c, ts_SourceDeviceID s) \<in> set (y_conns y) \<and> (a, ts_TargetDeviceID s) \<in> set (y_conns y))"

definition broker_inv :: "bsys \<Rightarrow> bool" where
  "broker_inv y \<longleftrightarrow>
     distinct (map ts_ID (y_made y)) \<and> distinct (map fst (y_conns y))
     \<and> distinct (map fst (b_sessions (y_broker y)))
     \<and> (\<forall>(sid, st) \<in> set (b_sessions (y_broker y)). session_ok y sid st)
     \<and> (\<forall>p \<in> set (b_proxied (y_broker y)). pair_ok y p)
     \<and> distinct (map (\<lambda>p. ts_ID (fst p)) (b_proxied (y_broker y)))
     \<and> fst ` set (b_sessions (y_broker y)) \<inter> (\<lambda>p. ts_ID (fst p)) ` set (b_proxied (y_broker y)) = {}
     \<and> accounted (y_broker y) \<subseteq># mset (map fst (y_conns y))"

lemma broker_invI:
  assumes "distinct (map ts_ID (y_made y))" "distinct (map fst (y_conns y))"
    "distinct (map fst (b_sessions (y_broker y)))"
    "\<And>sid st. (sid, st) \<in> set (b_sessions (y_broker y)) \<Longrightarrow> session_ok y sid st"
    "\<And>p. p \<in> set (b_proxied (y_broker y)) \<Longrightarrow> pair_ok y p"
    "distinct (map (\<lambda>p. ts_ID (fst p)) (b_proxied (y_broker y)))"
    "fst ` set (b_sessions (y_broker y)) \<inter> (\<lambda>p. ts_ID (fst p)) ` set (b_proxied (y_broker y)) = {}"
    "accounted (y_broker y) \<subseteq># mset (map fst (y_conns y))"
  shows "broker_inv y"
  unfolding broker_inv_def using assms by blast

lemma broker_invD:
  assumes "broker_inv y"
  shows "distinct (map ts_ID (y_made y))" "distinct (map fst (y_conns y))"
    "distinct (map fst (b_sessions (y_broker y)))"
    "(sid, st) \<in> set (b_sessions (y_broker y)) \<Longrightarrow> session_ok y sid st"
    "p \<in> set (b_proxied (y_broker y)) \<Longrightarrow> pair_ok y p"
    "distinct (map (\<lambda>p. ts_ID (fst p)) (b_proxied (y_broker y)))"
    "fst ` set (b_sessions (y_broker y)) \<inter> (\<lambda>p. ts_ID (fst p)) ` set (b_proxied (y_broker y)) = {}"
    "accounted (y_broker y) \<subseteq># mset (map fst (y_conns y))"
  using assms unfolding broker_inv_def by blast+

lemma close_conn_fields [simp]:
  "b_sessions (close_conn c b) = b_sessions b" "b_proxied (close_conn c b) = b_proxied b"
  by (simp_all add: close_conn_def)

lemma cleanup_sessions [simp]:
  "b_sessions (cleanupLocked now b) = filter (\<lambda>(sid, st). \<not> expired now st) (b_sessions b)"
  "b_proxied (cleanupLocked now b) = b_proxied b" "b_wake (cleanupLocked now b) = b_wake b"
  by (simp_all add: cleanupLocked_def Let_def)

lemma proxied_fields [simp]:
  "b_proxied (cleanupLocked now b) = b_proxied b" "b_proxied (signalLocked b) = b_proxied b"
  by (simp_all add: cleanupLocked_def signalLocked_def Let_def)

lemma distinct_map_filter': "distinct (map f xs) \<Longrightarrow> distinct (map f (filter p xs))"
  by (induction xs) auto

lemma broker_inv_cleanup:
  "broker_inv y \<Longrightarrow> broker_inv (y\<lparr>y_broker := cleanupLocked now (y_broker y)\<rparr>)"
  by (auto simp: broker_inv_def session_ok_def pair_ok_def distinct_map_filter')

lemma broker_inv_init: "broker_inv init_bsys"
  by (simp add: broker_inv_def init_bsys_def NewTCPRelayBroker_def accounted_def)

lemma set_delete: "set (AList.delete k xs) = {x \<in> set xs. fst x \<noteq> k}"
  by (auto simp: AList.delete_eq)

lemma set_update_subset: "set (AList.update k v xs) \<subseteq> insert (k, v) (set xs)"
  by (induction xs) auto

lemma set_update_distinct:
  "distinct (map fst xs) \<Longrightarrow> set (AList.update k v xs) = insert (k, v) {x \<in> set xs. fst x \<noteq> k}"
  by (induction xs) (auto simp: image_iff)

lemma distinct_map_delete: "distinct (map fst xs) \<Longrightarrow> distinct (map fst (AList.delete k xs))"
  by (simp add: AList.delete_eq distinct_map_filter')

lemma session_ok_more:
  "session_ok y sid st \<Longrightarrow> set (y_made y) \<subseteq> set (y_made z) \<Longrightarrow> set (y_conns y) \<subseteq> set (y_conns z) \<Longrightarrow>
   session_ok z sid st"
  by (auto simp: session_ok_def)

lemma pair_ok_more:
  "pair_ok y p \<Longrightarrow> set (y_made y) \<subseteq> set (y_made z) \<Longrightarrow> set (y_conns y) \<subseteq> set (y_conns z) \<Longrightarrow> pair_ok z p"
  by (auto simp: pair_ok_def)

lemma broker_inv_shrink:
  assumes inv: "broker_inv y" and made: "y_made z = y_made y"
    and conns: "set (y_conns y) \<subseteq> set (y_conns z)" "distinct (map fst (y_conns z))"
    and sub: "set (b_sessions (y_broker z)) \<subseteq> set (b_sessions (y_broker y))"
    and dist: "distinct (map fst (b_sessions (y_broker z)))"
    and pairs: "b_proxied (y_broker z) = b_proxied (y_broker y)"
    and acc: "accounted (y_broker z) \<subseteq># mset (map fst (y_conns z))"
  shows "broker_inv z"
proof -
  have "session_ok z k s" if "(k, s) \<in> set (b_sessions (y_broker z))" for k s
  proof -
    have "session_ok y k s" using inv that sub by (auto simp: broker_inv_def)
    then show ?thesis by (rule session_ok_more) (simp_all add: made conns)
  qed
  moreover have "pair_ok z p" if "p \<in> set (b_proxied (y_broker z))" for p
  proof -
    have "pair_ok y p" using inv that pairs by (auto simp: broker_inv_def)
    then show ?thesis by (rule pair_ok_more) (simp_all add: made conns)
  qed
  moreover have "fst ` set (b_sessions (y_broker z)) \<inter> (\<lambda>p. ts_ID (fst p)) ` set (b_proxied (y_broker z)) = {}"
  proof -
    have "fst ` set (b_sessions (y_broker z)) \<subseteq> fst ` set (b_sessions (y_broker y))"
      using sub by (rule image_mono)
    moreover have "fst ` set (b_sessions (y_broker y)) \<inter> (\<lambda>p. ts_ID (fst p)) ` set (b_proxied (y_broker y)) = {}"
      using inv by (simp add: broker_inv_def)
    ultimately show ?thesis using pairs by auto
  qed
  ultimately show ?thesis
    using inv made conns(2) dist pairs acc by (simp add: broker_inv_def) blast
qed

lemma broker_inv_signal:
  "broker_inv (y\<lparr>y_broker := signalLocked b, y_made := m\<rparr>) \<longleftrightarrow> broker_inv (y\<lparr>y_broker := b, y_made := m\<rparr>)"
  by (simp add: broker_inv_def signalLocked_def session_ok_def pair_ok_def accounted_def)

lemma broker_inv_key_made:
  "broker_inv y \<Longrightarrow> (sid, st) \<in> set (b_sessions (y_broker y)) \<Longrightarrow> sid \<in> ts_ID ` set (y_made y)"
  by (fastforce simp: broker_inv_def session_ok_def)

lemma broker_inv_pair_made:
  "broker_inv y \<Longrightarrow> p \<in> set (b_proxied (y_broker y)) \<Longrightarrow> ts_ID (fst p) \<in> ts_ID ` set (y_made y)"
  by (fastforce simp: broker_inv_def pair_ok_def)

lemma broker_inv_add:
  assumes inv: "broker_inv y" and new: "ts_ID s \<notin> ts_ID ` set (y_made y)"
  shows "broker_inv (y\<lparr>y_broker := (y_broker y)\<lparr>b_sessions := AList.update (ts_ID s)
      \<lparr>st_session = s, st_client = None, st_agent = None\<rparr> (b_sessions (y_broker y))\<rparr>,
      y_made := y_made y @ [s]\<rparr>)" (is "broker_inv ?z")
proof -
  let ?xs = "b_sessions (y_broker y)"
  have fresh: "ts_ID s \<notin> fst ` set ?xs" using broker_inv_key_made [OF inv] new by auto
  have pfresh: "ts_ID s \<notin> (\<lambda>p. ts_ID (fst p)) ` set (b_proxied (y_broker y))"
    using broker_inv_pair_made [OF inv] new by auto
  have d: "distinct (map fst ?xs)" using inv by (simp add: broker_inv_def)
  have acc: "accounted (y_broker ?z) = accounted (y_broker y)"
    using fresh d by (simp add: accounted_def live_conns_update delete_absent)
  have sess: "session_ok ?z sid st" if "(sid, st) \<in> set (b_sessions (y_broker ?z))" for sid st
  proof -
    from that have "sid = ts_ID s \<and> st = \<lparr>st_session = s, st_client = None, st_agent = None\<rparr>
        \<or> (sid, st) \<in> set ?xs"
      by (simp add: set_update_distinct [OF d]) blast
    then show ?thesis
    proof
      assume "(sid, st) \<in> set ?xs"
      then have "session_ok y sid st" by (rule broker_invD(4) [OF inv])
      then show ?thesis by (rule session_ok_more) auto
    qed (simp add: session_ok_def)
  qed
  have pairs: "pair_ok ?z p" if "p \<in> set (b_proxied (y_broker ?z))" for p
  proof -
    have "pair_ok y p" using broker_invD(5) [OF inv] that by simp
    then show ?thesis by (rule pair_ok_more) auto
  qed
  have keys: "fst ` set (AList.update (ts_ID s) v ?xs) \<subseteq> insert (ts_ID s) (fst ` set ?xs)" for v
    using set_update_subset [of "ts_ID s" v ?xs] by auto
  have disj: "fst ` set (AList.update (ts_ID s) v ?xs)
      \<inter> (\<lambda>p. ts_ID (fst p)) ` set (b_proxied (y_broker y)) = {}" for v
  proof -
    let ?P = "(\<lambda>p. ts_ID (fst p)) ` set (b_proxied (y_broker y))"
    have "fst ` set (AList.update (ts_ID s) v ?xs) \<inter> ?P \<subseteq> insert (ts_ID s) (fst ` set ?xs) \<inter> ?P"
      using keys [of v] by (rule Int_mono) simp
    also have "\<dots> = {}" using pfresh broker_invD(7) [OF inv] by simp
    finally show ?thesis by simp
  qed
  show ?thesis
  proof (rule broker_invI)
    show "accounted (y_broker ?z) \<subseteq># mset (map fst (y_conns ?z))"
      unfolding acc using broker_invD(8) [OF inv] by simp
    show "distinct (map ts_ID (y_made ?z))" using broker_invD(1) [OF inv] new by simp
    show "distinct (map fst (b_sessions (y_broker ?z)))" using d by (simp add: distinct_update)
  qed (use broker_invD(2,6) [OF inv] disj sess pairs in simp_all)
qed

text \<open>Storing a session back, or turning it into a pair, after one connection was added.\<close>

lemma broker_inv_settle:
  assumes inv: "broker_inv y" and st0: "map_of (b_sessions (y_broker y)) sid = Some st0"
    and st: "st_session st = st_session st0"
    and conns: "set (y_conns y) \<subseteq> set cs" and dist: "distinct (map fst cs)"
    and client: "\<forall>c. st_client st = Some c \<longrightarrow> (c, ts_SourceDeviceID (st_session st)) \<in> set cs"
    and agent: "\<forall>a. st_agent st = Some a \<longrightarrow> (a, ts_TargetDeviceID (st_session st)) \<in> set cs"
    and acc: "accounted (settle sid st (y_broker y)) \<subseteq># mset (map fst cs)"
  shows "broker_inv (y\<lparr>y_broker := settle sid st (y_broker y), y_conns := cs\<rparr>)" (is "broker_inv ?z")
proof -
  let ?b = "y_broker y"
  let ?xs = "b_sessions ?b"
  have d: "distinct (map fst ?xs)" using inv by (simp add: broker_inv_def)
  have mem: "(sid, st0) \<in> set ?xs" by (rule map_of_SomeD [OF st0])
  then have ok0: "session_ok y sid st0" using inv by (auto simp: broker_inv_def)
  have key: "sid \<in> fst ` set ?xs" using mem by force
  have np: "sid \<notin> (\<lambda>p. ts_ID (fst p)) ` set (b_proxied ?b)"
    using inv key by (auto simp: broker_inv_def)
  have made: "st_session st \<in> set (y_made y)" "ts_ID (st_session st) = sid"
    using ok0 by (auto simp: session_ok_def st)
  have old: "session_ok ?z k s" if "(k, s) \<in> set ?xs" for k s
  proof -
    have "session_ok y k s" using inv that by (auto simp: broker_inv_def)
    then show ?thesis by (rule session_ok_more) (simp_all add: conns)
  qed
  have oldp: "pair_ok ?z p" if "p \<in> set (b_proxied ?b)" for p
  proof -
    have "pair_ok y p" using inv that by (auto simp: broker_inv_def)
    then show ?thesis by (rule pair_ok_more) (simp_all add: conns)
  qed
  show ?thesis
  proof (cases "st_client st = None \<or> st_agent st = None")
    case True
    then have z: "y_broker ?z = ?b\<lparr>b_sessions := AList.update sid st ?xs\<rparr>"
      by (auto simp: settle_def split: option.splits)
    have new: "session_ok ?z sid st"
      using True made client agent by (simp add: session_ok_def)
    have bz: "b_sessions (y_broker ?z) = AList.update sid st ?xs" "b_proxied (y_broker ?z) = b_proxied ?b"
      unfolding z by simp_all
    show ?thesis
    proof (rule broker_invI)
      fix k s assume "(k, s) \<in> set (b_sessions (y_broker ?z))"
      then have "(k, s) = (sid, st) \<or> (k, s) \<in> set ?xs"
        unfolding bz set_update_distinct [OF d] by blast
      then show "session_ok ?z k s" using new old by blast
    next
      have "fst ` set (AList.update sid st ?xs) = fst ` set ?xs"
        using key d by (auto simp: set_update_distinct image_iff)
      then show "fst ` set (b_sessions (y_broker ?z))
          \<inter> (\<lambda>p. ts_ID (fst p)) ` set (b_proxied (y_broker ?z)) = {}"
        unfolding bz using broker_invD(7) [OF inv] by simp
    next
      show "distinct (map fst (b_sessions (y_broker ?z)))" unfolding bz using d by (simp add: distinct_update)
    next
      show "distinct (map (\<lambda>p. ts_ID (fst p)) (b_proxied (y_broker ?z)))"
        unfolding bz by (rule broker_invD(6) [OF inv])
    next
      fix p assume "p \<in> set (b_proxied (y_broker ?z))"
      then show "pair_ok ?z p" unfolding bz by (rule oldp)
    qed (use broker_invD(1) [OF inv] dist acc in simp_all)
  next
    case False
    then obtain c a where ca: "st_client st = Some c" "st_agent st = Some a" by auto
    then have z: "y_broker ?z = ?b\<lparr>b_sessions := AList.delete sid ?xs,
        b_proxied := b_proxied ?b @ [(st_session st, c, a)]\<rparr>"
      by (simp add: settle_def)
    have bz: "b_sessions (y_broker ?z) = AList.delete sid ?xs"
        "b_proxied (y_broker ?z) = b_proxied ?b @ [(st_session st, c, a)]"
      unfolding z by simp_all
    have new: "pair_ok ?z (st_session st, c, a)"
      using ca made client agent by (simp add: pair_ok_def)
    show ?thesis
    proof (rule broker_invI)
      fix k s assume "(k, s) \<in> set (b_sessions (y_broker ?z))"
      then show "session_ok ?z k s" unfolding bz set_delete using old by blast
    next
      show "fst ` set (b_sessions (y_broker ?z))
          \<inter> (\<lambda>p. ts_ID (fst p)) ` set (b_proxied (y_broker ?z)) = {}"
        unfolding bz set_delete using broker_invD(7) [OF inv] made by auto
    next
      show "distinct (map fst (b_sessions (y_broker ?z)))" unfolding bz using d by (rule distinct_map_delete)
    next
      show "distinct (map (\<lambda>p. ts_ID (fst p)) (b_proxied (y_broker ?z)))"
        unfolding bz using broker_invD(6) [OF inv] made np by auto
    next
      fix p assume "p \<in> set (b_proxied (y_broker ?z))"
      then show "pair_ok ?z p" unfolding bz using oldp [of p] new by auto
    qed (use broker_invD(1) [OF inv] dist acc in simp_all)
  qed
qed

lemma accounted_attach_le:
  assumes "broker_inv y" and "attach now sid dev c client (y_broker y) = (x, b')"
  shows "accounted b' \<subseteq># mset (map fst (y_conns y @ [(c, dev)]))"
proof -
  have "distinct (map fst (b_sessions (y_broker y)))" using assms(1) by (simp add: broker_inv_def)
  from accounted_attach [OF this assms(2)]
  have "accounted b' \<subseteq># add_mset c (accounted (y_broker y))"
    by (metis mset_subset_eq_add_left)
  also have "\<dots> \<subseteq># mset (map fst (y_conns y @ [(c, dev)]))"
    using assms(1) by (simp add: broker_inv_def)
  finally show ?thesis .
qed

lemma broker_inv_attach:
  assumes inv: "broker_inv y" and at: "attach now sid dev c client (y_broker y) = (x, b')"
    and fresh: "c \<notin> fst ` set (y_conns y)"
  shows "broker_inv (y\<lparr>y_broker := b', y_conns := y_conns y @ [(c, dev)]\<rparr>)"
proof -
  let ?b = "y_broker y" and ?cs = "y_conns y @ [(c, dev)]"
  have acc: "accounted b' \<subseteq># mset (map fst ?cs)" by (rule accounted_attach_le [OF inv at])
  have dist: "distinct (map fst ?cs)" using inv fresh by (auto simp: broker_inv_def)
  have closed: ?thesis if b': "b' = close_conn c b0"
    and sess: "b_sessions b0 = b_sessions ?b \<or> b_sessions b0 = AList.delete sid (b_sessions ?b)"
    and pr: "b_proxied b0 = b_proxied ?b" for b0
  proof -
    have d: "distinct (map fst (b_sessions ?b))" by (rule broker_invD(3) [OF inv])
    have sub: "set (b_sessions b') \<subseteq> set (b_sessions ?b)" using sess by (auto simp: b' set_delete)
    have d': "distinct (map fst (b_sessions b'))" using sess d distinct_map_delete [OF d] by (auto simp: b')
    have pr': "b_proxied b' = b_proxied ?b" by (simp add: b' pr)
    show ?thesis
      by (rule broker_inv_shrink [OF inv]) (use sub d' pr' acc dist in auto)
  qed
  show ?thesis
  proof (cases "map_of (b_sessions ?b) sid")
    case None
    with at closed [of ?b] show ?thesis by (auto simp: attach_def)
  next
    case (Some st)
    then have "session_ok y sid st"
      using inv by (auto simp: broker_inv_def dest!: map_of_SomeD)
    then have ok: "\<forall>c. st_client st = Some c \<longrightarrow> (c, ts_SourceDeviceID (st_session st)) \<in> set ?cs"
      "\<forall>a. st_agent st = Some a \<longrightarrow> (a, ts_TargetDeviceID (st_session st)) \<in> set ?cs"
      by (auto simp: session_ok_def)
    have "(\<exists>b0. b' = close_conn c b0 \<and> (b_sessions b0 = b_sessions ?b \<or> b_sessions b0 = AList.delete sid (b_sessions ?b))
             \<and> b_proxied b0 = b_proxied ?b)
        \<or> (client \<and> ts_SourceDeviceID (st_session st) = dev \<and> b' = settle sid (st\<lparr>st_client := Some c\<rparr>) ?b)
        \<or> (\<not> client \<and> ts_TargetDeviceID (st_session st) = dev \<and> b' = settle sid (st\<lparr>st_agent := Some c\<rparr>) ?b)"
      using at Some by (force simp: attach_def split: if_splits)
    then consider (closing) b0 where "b' = close_conn c b0"
        "b_sessions b0 = b_sessions ?b \<or> b_sessions b0 = AList.delete sid (b_sessions ?b)"
        "b_proxied b0 = b_proxied ?b"
      | (client) "ts_SourceDeviceID (st_session st) = dev" "b' = settle sid (st\<lparr>st_client := Some c\<rparr>) ?b"
      | (agent) "ts_TargetDeviceID (st_session st) = dev" "b' = settle sid (st\<lparr>st_agent := Some c\<rparr>) ?b"
      by blast
    then show ?thesis
    proof cases
      case closing
      then show ?thesis by (rule closed)
    next
      case client
      show ?thesis unfolding client(2)
        by (rule broker_inv_settle [OF inv Some])
          (use client ok dist acc in \<open>auto simp: client(2)\<close>)
    next
      case agent
      show ?thesis unfolding agent(2)
        by (rule broker_inv_settle [OF inv Some])
          (use agent ok dist acc in \<open>auto simp: agent(2)\<close>)
    qed
  qed
qed

lemma bstep_inv: "bstep y z \<Longrightarrow> broker_inv y \<Longrightarrow> broker_inv z"
proof (induction rule: bstep.induct)
  case (tick y now)
  then show ?case by (simp add: broker_inv_def session_ok_def pair_ok_def)
next
  case (create y sid source target port session b')
  let ?s = "new_session (y_now y) sid source target port"
  let ?b = "(y_broker y)\<lparr>b_sessions := AList.update sid
      \<lparr>st_session = ?s, st_client = None, st_agent = None\<rparr> (b_sessions (y_broker y))\<rparr>"
  have id: "ts_ID ?s = sid" by (simp add: new_session_def)
  have eqs: "session = ?s" "b' = signalLocked (cleanupLocked (y_now y) ?b)"
    using create(1) by (auto simp: Create_def Let_def)
  have "broker_inv (y\<lparr>y_broker := ?b, y_made := y_made y @ [?s]\<rparr>)"
    using broker_inv_add [OF create(3), of ?s] create(2) by (simp add: id)
  from broker_inv_cleanup [OF this, of "y_now y"]
  have "broker_inv (y\<lparr>y_broker := cleanupLocked (y_now y) ?b, y_made := y_made y @ [?s]\<rparr>)"
    by (cases y) simp
  then show ?case unfolding eqs by (subst broker_inv_signal)
next
  case (pending y dev out b')
  then show ?case using broker_inv_cleanup by (auto simp: Pending_def Let_def)
next
  case (validate y sid dev client x b')
  then show ?case using broker_inv_cleanup by (auto simp: validate_def Let_def)
next
  case (attach y sid dev c client x b')
  from attach(3,1,2) show ?case by (rule broker_inv_attach)
qed

lemma breach_inv: "breach y \<Longrightarrow> broker_inv y"
  by (induction rule: breach.induct) (auto intro: broker_inv_init bstep_inv)

section \<open>What the broker guarantees\<close>

lemma accounted_once: "breach y \<Longrightarrow> count (accounted (y_broker y)) c \<le> 1"
proof -
  assume "breach y"
  then have inv: "broker_inv y" by (rule breach_inv)
  have "count (accounted (y_broker y)) c \<le> count (mset (map fst (y_conns y))) c"
    using broker_invD(8) [OF inv] by (rule mset_subset_eq_count)
  also have "\<dots> \<le> 1" using broker_invD(2) [OF inv] by (simp only: distinct_count_atmost_1) simp
  finally show ?thesis .
qed

text \<open>
  C6: In every reachable state of the broker, each pair it started to proxy belongs to a session
  that was created, joins a connection authenticated as that session's source device with one
  authenticated as its target device, no session is used for two pairs, and a connection is in
  at most one place (waiting, closed or paired).
\<close>

theorem relay_pairing_sound:
  assumes "breach y"
  shows "(\<forall>(s, c, a) \<in> set (b_proxied (y_broker y)). s \<in> set (y_made y)
            \<and> (c, ts_SourceDeviceID s) \<in> set (y_conns y) \<and> (a, ts_TargetDeviceID s) \<in> set (y_conns y))
       \<and> distinct (map (\<lambda>p. ts_ID (fst p)) (b_proxied (y_broker y)))
       \<and> (\<forall>c. count (accounted (y_broker y)) c \<le> 1)"
proof -
  have inv: "broker_inv y" by (rule breach_inv [OF assms])
  have "\<forall>p \<in> set (b_proxied (y_broker y)). pair_ok y p" using broker_invD(5) [OF inv] by blast
  then show ?thesis
    using broker_invD(6) [OF inv] accounted_once [OF assms] by (simp add: pair_ok_def)
qed

text \<open>A run that ends with a pair: one session, its client and its agent.\<close>

definition alice :: device where "alice = empty_device\<lparr>d_ID := ''alice''\<rparr>"
definition bob :: device where "bob = empty_device\<lparr>d_ID := ''bob''\<rparr>"

definition demo_session :: tcp_relay_session where
  "demo_session = new_session zero_time ''s'' alice bob 22"

lemma demo_fields [simp]:
  "ts_ID demo_session = ''s''" "ts_SourceDeviceID demo_session = ''alice''"
  "ts_TargetDeviceID demo_session = ''bob''" "ts_ExpiresAt demo_session = GoTime 120000000000"
  by (simp_all add: demo_session_def new_session_def alice_def bob_def time_add_def
      zero_time_def tcpRelaySessionTTL_def)

definition paired_system :: bsys where
  "paired_system = \<lparr>y_broker = \<lparr>b_sessions = [], b_wake = 1, b_closed = [], b_proxied = [(demo_session, 1, 2)]\<rparr>,
     y_now = zero_time, y_made = [demo_session], y_conns = [(1, ''alice''), (2, ''bob'')]\<rparr>"

text \<open>The same session with only its agent connected.\<close>

definition waiting_broker :: broker where
  "waiting_broker = \<lparr>b_sessions = [(''s'', \<lparr>st_session = demo_session, st_client = None, st_agent = Some 1\<rparr>)],
     b_wake = 1, b_closed = [], b_proxied = []\<rparr>"

definition waiting_system :: bsys where
  "waiting_system = \<lparr>y_broker = waiting_broker, y_now = zero_time, y_made = [demo_session],
     y_conns = [(1, ''bob'')]\<rparr>"

lemma demo_live: "\<not> time_after zero_time (ts_ExpiresAt demo_session)"
  by (simp add: time_after_def zero_time_def)

definition created_system :: bsys where
  "created_system = \<lparr>y_broker = \<lparr>b_sessions = [(''s'', \<lparr>st_session = demo_session, st_client = None, st_agent = None\<rparr>)],
     b_wake = 1, b_closed = [], b_proxied = []\<rparr>, y_now = zero_time, y_made = [demo_session], y_conns = []\<rparr>"

lemma created_reachable: "breach created_system"
proof -
  have "Create (y_now init_bsys) ''s'' alice bob 22 (y_broker init_bsys) = (demo_session, y_broker created_system)"
    using demo_live
    by (simp add: Create_def Let_def cleanupLocked_def signalLocked_def expired_def init_bsys_def
        NewTCPRelayBroker_def created_system_def flip: demo_session_def)
  from bstep.create [OF this] have "bstep init_bsys created_system"
    by (simp add: init_bsys_def created_system_def)
  with breach.start show ?thesis by (rule breach.next_step)
qed

lemma waiting_reachable: "breach waiting_system"
proof -
  have "attach (y_now created_system) ''s'' ''bob'' 1 False (y_broker created_system) = (Inr (), waiting_broker)"
    using demo_live by (simp add: attach_def settle_def created_system_def waiting_broker_def)
  from bstep.attach [OF this] have "bstep created_system waiting_system"
    by (simp add: created_system_def waiting_system_def)
  with created_reachable show ?thesis by (rule breach.next_step)
qed

lemma paired_reachable: "breach paired_system"
proof -
  let ?b = "(y_broker created_system)\<lparr>b_sessions := [(''s'', \<lparr>st_session = demo_session, st_client = Some 1, st_agent = None\<rparr>)]\<rparr>"
  let ?y = "created_system\<lparr>y_broker := ?b, y_conns := [(1, ''alice'')]\<rparr>"
  have "attach (y_now created_system) ''s'' ''alice'' 1 True (y_broker created_system) = (Inr (), ?b)"
    using demo_live by (simp add: attach_def settle_def created_system_def)
  from bstep.attach [OF this] have 1: "bstep created_system ?y" by (simp add: created_system_def)
  have "attach (y_now ?y) ''s'' ''bob'' 2 False (y_broker ?y) = (Inr (), y_broker paired_system)"
    using demo_live by (simp add: attach_def settle_def created_system_def paired_system_def)
  from bstep.attach [OF this] have 2: "bstep ?y paired_system"
    by (simp add: created_system_def paired_system_def)
  from created_reachable 1 2 show ?thesis by (blast intro: breach.next_step)
qed

theorem relay_pairing_sound_witness:
  "(2, ''bob'') \<in> set (y_conns paired_system) \<and> count (accounted (y_broker paired_system)) 2 \<le> 1"
  using relay_pairing_sound [OF paired_reachable]
  by (simp add: paired_system_def)

text \<open>Lookups after a cleanup, and the sessions a poll reports.\<close>

lemma map_of_filter_val:
  "distinct (map fst xs) \<Longrightarrow>
   map_of (filter (\<lambda>(k, v). P v) xs) k = (case map_of xs k of Some v \<Rightarrow> if P v then Some v else None | None \<Rightarrow> None)"
proof (induction xs)
  case (Cons x xs)
  have "map_of (filter (\<lambda>(k, v). P v) xs) k = None" if "k \<notin> fst ` set xs"
    using that by (auto simp: map_of_eq_None_iff)
  with Cons show ?case by (auto simp: map_of_eq_None_iff split: option.splits)
qed simp

definition session_of :: "broker \<Rightarrow> string \<Rightarrow> session_state option" where
  "session_of b sid = map_of (b_sessions b) sid"

definition keys_distinct :: "broker \<Rightarrow> bool" where
  "keys_distinct b = distinct (map fst (b_sessions b))"

lemma breach_keys: "breach y \<Longrightarrow> keys_distinct (y_broker y)"
  using broker_invD(3) breach_inv by (simp add: keys_distinct_def)

lemma keys_cleanup: "keys_distinct b \<Longrightarrow> keys_distinct (cleanupLocked now b)"
  by (simp add: keys_distinct_def distinct_map_filter')

lemma session_of_cleanup:
  "keys_distinct b \<Longrightarrow> session_of (cleanupLocked now b) k =
     (case session_of b k of Some st \<Rightarrow> if expired now st then None else Some st | None \<Rightarrow> None)"
  by (simp add: session_of_def keys_distinct_def map_of_filter_val split: option.splits)

text \<open>
  A poll for a device's pending sessions returns exactly the sessions in the table that are
  aimed at the device, have not expired and still wait for their agent connection; it drops
  every expired session from the table, keeps the others, and closes exactly the connections
  the dropped sessions held.
\<close>

theorem pending_exact:
  assumes "Pending now dev b = (out, b')"
  shows "set out = {st_session st | sid st. (sid, st) \<in> set (b_sessions b) \<and> \<not> expired now st
                      \<and> ts_TargetDeviceID (st_session st) = dev \<and> st_agent st = None}
       \<and> set (b_sessions b') = {(sid, st) \<in> set (b_sessions b). \<not> expired now st}
       \<and> set (b_closed b') = set (b_closed b)
           \<union> \<Union> {set (state_conns st) | sid st. (sid, st) \<in> set (b_sessions b) \<and> expired now st}"
proof (intro conjI)
  have b': "b' = cleanupLocked now b" using assms by (simp add: Pending_def Let_def)
  show "set out = {st_session st | sid st. (sid, st) \<in> set (b_sessions b) \<and> \<not> expired now st
                      \<and> ts_TargetDeviceID (st_session st) = dev \<and> st_agent st = None}" (is "_ = ?P")
  proof
    show "set out \<subseteq> ?P" using assms by (auto simp: Pending_def Let_def) blast
    show "?P \<subseteq> set out"
    proof
      fix s assume "s \<in> ?P"
      then obtain sid st where st: "s = st_session st" "(sid, st) \<in> set (b_sessions b)" "\<not> expired now st"
        "ts_TargetDeviceID (st_session st) = dev" "st_agent st = None" by blast
      have out: "out = map (\<lambda>(sid, st). st_session st) (filter (\<lambda>(sid, st).
          ts_TargetDeviceID (st_session st) = dev \<and> st_agent st = None) (b_sessions b'))"
        using assms by (simp add: Pending_def Let_def b')
      have "(sid, st) \<in> set (filter (\<lambda>(sid, st). ts_TargetDeviceID (st_session st) = dev
          \<and> st_agent st = None) (b_sessions b'))" using st by (simp add: b')
      from imageI [OF this, of "\<lambda>(sid, st). st_session st"]
      have "(\<lambda>(sid, st). st_session st) (sid, st) \<in> set out" unfolding out set_map .
      then show "s \<in> set out" by (simp add: st(1))
    qed
  qed
  show "set (b_sessions b') = {(sid, st) \<in> set (b_sessions b). \<not> expired now st}"
    by (auto simp: b')
  show "set (b_closed b') = set (b_closed b)
           \<union> \<Union> {set (state_conns st) | sid st. (sid, st) \<in> set (b_sessions b) \<and> expired now st}"
    by (auto simp: b' cleanupLocked_def Let_def state_conns_def)
qed

theorem pending_exact_witness:
  "set (fst (Pending zero_time ''bob'' (y_broker paired_system))) = {}"
  using pending_exact [of zero_time "''bob''" "y_broker paired_system"]
  by (simp add: paired_system_def Pending_def Let_def)

text \<open>
  C16: The broker loses a connection when a session's second connection arrives after the
  session expired: \<open>attach\<close> deletes the session and closes the new connection, but the partner
  that was waiting is neither kept, nor closed, nor paired.
\<close>

theorem expired_attach_leaks_partner:
  assumes "breach y" and "session_of (y_broker y) sid = Some st" and "c \<in> set (state_conns st)"
    and "time_after now (ts_ExpiresAt (st_session st))" and "new \<noteq> c"
  shows "c \<in># accounted (y_broker y)
       \<and> c \<notin># accounted (snd (attach now sid dev new client (y_broker y)))"
proof -
  let ?b = "y_broker y"
  obtain x b' where at: "attach now sid dev new client ?b = (x, b')" by fastforce
  have x: "x = Inl SessionExpired"
    using at assms(2,4) by (auto simp: attach_def session_of_def)
  have d: "distinct (map fst (b_sessions ?b))" using breach_keys [OF assms(1)] by (simp add: keys_distinct_def)
  have eq: "accounted b' + mset (state_conns st) = add_mset new (accounted ?b)"
    using accounted_attach [OF d at] assms(2) x by (simp add: session_of_def)
  have pos: "0 < count (mset (state_conns st)) c"
    using assms(3) by (metis count_greater_zero_iff set_mset_mset)
  have "count (accounted b') c + count (mset (state_conns st)) c = count (accounted ?b) c"
    using arg_cong [OF eq, of "\<lambda>m. count m c"] assms(5) by simp
  moreover have "count (accounted ?b) c \<le> 1" by (rule accounted_once [OF assms(1)])
  ultimately have "count (accounted b') c = 0" "0 < count (accounted ?b) c" using pos by linarith+
  then show ?thesis by (simp add: at not_in_iff)
qed

theorem expired_attach_leaks_partner_witness:
  "1 \<in># accounted waiting_broker
   \<and> 1 \<notin># accounted (snd (attach (GoTime 120000000001) ''s'' ''alice'' 2 True waiting_broker))"
  using expired_attach_leaks_partner [OF waiting_reachable, of "''s''"
      "\<lparr>st_session = demo_session, st_client = None, st_agent = Some 1\<rparr>" 1 "GoTime 120000000001" 2
      "''alice''" True]
  by (simp add: waiting_system_def waiting_broker_def session_of_def state_conns_def time_after_def)

section \<open>Opening a relayed connection\<close>

lemma keys_update: "distinct (map fst xs) \<Longrightarrow> map_of (AList.update k v xs) k = Some v"
  by (induction xs) auto

lemma session_of_update:
  "keys_distinct b \<Longrightarrow> session_of (b\<lparr>b_sessions := AList.update k v (b_sessions b)\<rparr>) j
     = (if j = k then Some v else session_of b j)"
  by (simp add: session_of_def update_conv')

lemma session_of_signal [simp]: "session_of (signalLocked b) = session_of b"
  by (simp add: session_of_def signalLocked_def fun_eq_iff)

lemma keys_signal [simp]: "keys_distinct (signalLocked b) = keys_distinct b"
  by (simp add: keys_distinct_def signalLocked_def)

lemma Create_table:
  assumes "keys_distinct b" and "Create now sid source target port b = (s, b')"
  shows "s = new_session now sid source target port" and "keys_distinct b'"
    and "session_of b' sid = Some \<lparr>st_session = s, st_client = None, st_agent = None\<rparr>"
    and "b_wake b' = b_wake b + 1"
proof -
  let ?st = "\<lparr>st_session = new_session now sid source target port, st_client = None, st_agent = None\<rparr>"
  let ?b = "b\<lparr>b_sessions := AList.update sid ?st (b_sessions b)\<rparr>"
  have k: "keys_distinct ?b" using assms(1) by (simp add: keys_distinct_def distinct_update)
  have live: "\<not> expired now ?st"
    by (cases now) (simp add: expired_def new_session_def time_after_def time_add_def tcpRelaySessionTTL_def)
  have eqs: "s = new_session now sid source target port" "b' = signalLocked (cleanupLocked now ?b)"
    using assms(2) by (auto simp: Create_def Let_def)
  then show "s = new_session now sid source target port" by simp
  show "keys_distinct b'" by (simp add: eqs keys_cleanup k)
  show "session_of b' sid = Some \<lparr>st_session = s, st_client = None, st_agent = None\<rparr>"
    using live by (simp add: eqs session_of_cleanup k session_of_update assms(1))
  show "b_wake b' = b_wake b + 1" by (simp add: eqs signalLocked_def)
qed

text \<open>
  A created session can be used: it is in the table under its id with the expiry two minutes
  ahead, and when its source attaches a client connection and its target an agent connection,
  in either order and before that time, both are accepted, the two connections are paired for
  this session, and the session leaves the table.
\<close>

theorem relay_session_completes:
  assumes "keys_distinct b" and "Create now sid source target port b = (s, b1)"
    and "t1 \<le> time_add now (2 * minute)" and "t2 \<le> time_add now (2 * minute)"
    and "attach t1 sid (if client then d_ID source else d_ID target) c client b1 = (x, b2)"
    and "attach t2 sid (if client then d_ID target else d_ID source) a (\<not> client) b2 = (y, b3)"
  shows "x = Inr () \<and> y = Inr () \<and> session_of b3 sid = None
       \<and> b_proxied b3 = b_proxied b @ [(s, if client then (c, a) else (a, c))]"
proof -
  note C = Create_table [OF assms(1,2)]
  have live: "\<not> time_after t (ts_ExpiresAt s)" if "t \<le> time_add now (2 * minute)" for t
    using that by (simp add: C(1) new_session_def time_after_def tcpRelaySessionTTL_def less_eq_gotime_def)
  have dev: "ts_SourceDeviceID s = d_ID source" "ts_TargetDeviceID s = d_ID target"
    by (simp_all add: C(1) new_session_def)
  have p1: "b_proxied b1 = b_proxied b"
    using assms(2) by (auto simp: Create_def Let_def signalLocked_def)
  let ?st = "if client then \<lparr>st_session = s, st_client = Some c, st_agent = None\<rparr>
             else \<lparr>st_session = s, st_client = None, st_agent = Some c\<rparr>"
  have b2: "x = Inr ()" "b2 = b1\<lparr>b_sessions := AList.update sid ?st (b_sessions b1)\<rparr>"
    using assms(5) C(3) live [OF assms(3)] dev
    by (auto simp: attach_def session_of_def settle_def split: if_splits)
  have s2: "map_of (b_sessions b2) sid = Some ?st"
    using session_of_update [OF C(2)] by (simp add: session_of_def b2)
  have k2: "distinct (map fst (b_sessions b2))"
    using C(2) by (simp add: b2 keys_distinct_def distinct_update)
  have b3: "y = Inr ()" "b3 = b2\<lparr>b_sessions := AList.delete sid (b_sessions b2),
      b_proxied := b_proxied b2 @ [(s, if client then (c, a) else (a, c))]\<rparr>"
    using assms(6) s2 live [OF assms(4)] dev
    by (auto simp: attach_def settle_def split: if_splits)
  have "session_of b3 sid = None"
    by (auto simp: session_of_def b3 map_of_eq_None_iff set_delete)
  then show ?thesis using b2 b3 p1 by simp
qed

theorem relay_session_completes_witness:
  "b_proxied (snd (attach (GoTime 5) ''s'' ''bob'' 2 False
     (snd (attach (GoTime 4) ''s'' ''alice'' 1 True
        (snd (Create zero_time ''s'' alice bob 22 NewTCPRelayBroker)))))) = [(demo_session, 1, 2)]"
proof -
  obtain s b1 where 1: "Create zero_time ''s'' alice bob 22 NewTCPRelayBroker = (s, b1)" by fastforce
  obtain x b2 where 2: "attach (GoTime 4) ''s'' ''alice'' 1 True b1 = (x, b2)" by fastforce
  obtain y b3 where 3: "attach (GoTime 5) ''s'' ''bob'' 2 False b2 = (y, b3)" by fastforce
  have "s = demo_session" using 1 by (auto simp: Create_def Let_def demo_session_def)
  moreover have "b_proxied b3 = [(s, 1, 2)]"
    using relay_session_completes [of NewTCPRelayBroker zero_time "''s''" alice bob 22 s b1 "GoTime 4" "GoTime 5" True 1 x b2 2 y b3]
      1 2 3
    by (simp add: keys_distinct_def NewTCPRelayBroker_def alice_def bob_def less_eq_gotime_def time_add_def zero_time_def)
  ultimately show ?thesis unfolding 1 2 3 snd_conv by simp
qed

text \<open>
  The two checks of an attachment agree: when the broker validated a device for one side of
  a session (done before the connection is hijacked) and nothing happened in between, attaching
  that device's connection on that side is accepted; and an attachment that is accepted would
  have been validated.
\<close>

theorem validate_attach_agree:
  assumes "keys_distinct b" and "validate now sid dev client b = (v, b1)"
  shows "v = Inr () \<longleftrightarrow> fst (attach now sid dev c client b1) = Inr ()"
proof -
  have b1: "b1 = cleanupLocked now b" using assms(2) by (auto simp: validate_def Let_def)
  note s = session_of_cleanup [OF assms(1), of now sid]
  show ?thesis
  proof (cases "map_of (b_sessions b1) sid")
    case None
    with assms(2) show ?thesis by (auto simp: validate_def attach_def Let_def b1)
  next
    case (Some st)
    then have "\<not> expired now st"
      using s by (auto simp: session_of_def b1 split: option.splits if_splits)
    with assms(2) Some show ?thesis
      by (auto simp: validate_def attach_def expired_def Let_def b1 split: if_splits)
  qed
qed

theorem validate_attach_agree_witness:
  "fst (attach zero_time ''s'' ''alice'' 7 True (snd (validate zero_time ''s'' ''alice'' True waiting_broker))) = Inr ()"
proof -
  have "validate zero_time ''s'' ''alice'' True waiting_broker = (Inr (), waiting_broker)"
    using demo_live
    by (simp add: validate_def cleanupLocked_def Let_def waiting_broker_def expired_def)
  moreover have "keys_distinct waiting_broker" by (simp add: keys_distinct_def waiting_broker_def)
  ultimately show ?thesis
    using validate_attach_agree [of waiting_broker zero_time "''s''" "''alice''" True "Inr ()" waiting_broker 7]
    by simp
qed

section \<open>The long poll\<close>

text \<open>
  C18: A waiting poll is woken by a session created for its device: if the poll had already
  read the wake channel, the channel is closed after \<open>Create\<close>, and the poll then answers with
  a list that holds the new session.
\<close>

theorem blocked_poll_is_woken:
  assumes "keys_distinct b" and "wait_read b = Blocked g"
    and "Create now sid source target port b = (s, b')"
  shows "channel_closed g b'
       \<and> (\<exists>out b''. wait_wake ChannelClosed now (d_ID target) g b' = (Answered out, b'') \<and> s \<in> set out)"
proof -
  note C = Create_table [OF assms(1,3)]
  have g: "channel_closed g b'" using assms(2) C(4) by (auto simp: wait_read_def channel_closed_def)
  obtain out b'' where p: "Pending now (d_ID target) b' = (out, b'')" by fastforce
  have "(sid, \<lparr>st_session = s, st_client = None, st_agent = None\<rparr>) \<in> set (b_sessions b')"
    using map_of_SomeD [of "b_sessions b'" sid] C(3) unfolding session_of_def by simp
  moreover have "\<not> expired now \<lparr>st_session = s, st_client = None, st_agent = None\<rparr>"
    by (simp add: C(1) expired_def new_session_def time_after_def tcpRelaySessionTTL_def time_add_def)
  moreover have "ts_TargetDeviceID s = d_ID target" by (simp add: C(1) new_session_def)
  ultimately have "s \<in> st_session ` snd ` {(k, st) \<in> set (b_sessions b'). \<not> expired now st
      \<and> ts_TargetDeviceID (st_session st) = d_ID target \<and> st_agent st = None}"
    by (force simp: image_iff)
  then have "s \<in> set out"
    using p by (force simp: Pending_def Let_def image_iff)
  then show ?thesis using g p by (simp add: wait_wake_def)
qed

theorem blocked_poll_is_woken_witness:
  "channel_closed 0 (snd (Create zero_time ''s'' alice bob 22 NewTCPRelayBroker))"
  using blocked_poll_is_woken [of NewTCPRelayBroker 0 zero_time "''s''" alice bob 22 demo_session]
  by (simp add: keys_distinct_def NewTCPRelayBroker_def wait_read_def Create_def Let_def demo_session_def)

text \<open>
  But a poll that found nothing reads the wake channel only in a later critical section. A
  session created between the two is not signalled to it: the poll blocks on a channel that is
  still open although a session for its device is pending, and no channel event of this
  creation will wake it (only the timer, the cancelled request or a later creation does).
\<close>

theorem poll_can_miss_a_session:
  assumes "keys_distinct b" and "wait_poll now dev wait b = (Reading, b1)"
    and "Create now sid source target port b1 = (s, b2)" and "d_ID target = dev"
  shows "\<exists>g. wait_read b2 = Blocked g \<and> \<not> channel_closed g b2
           \<and> wait_wake ChannelClosed now dev g b2 = (Blocked g, b2)
           \<and> session_of b2 sid = Some \<lparr>st_session = s, st_client = None, st_agent = None\<rparr>
           \<and> ts_TargetDeviceID s = dev"
proof -
  have "b1 = cleanupLocked now b"
    using assms(2) by (auto simp: wait_poll_def Pending_def Let_def split: if_splits)
  then have "keys_distinct b1" using assms(1) by (simp add: keys_cleanup)
  from Create_table [OF this assms(3)] show ?thesis
    using assms(4) by (simp add: wait_read_def channel_closed_def wait_wake_def new_session_def)
qed

theorem poll_can_miss_a_session_witness:
  "\<exists>g. wait_read (snd (Create zero_time ''s'' alice bob 22 NewTCPRelayBroker)) = Blocked g
     \<and> \<not> channel_closed g (snd (Create zero_time ''s'' alice bob 22 NewTCPRelayBroker))"
proof -
  obtain s b2 where c: "Create zero_time ''s'' alice bob 22 NewTCPRelayBroker = (s, b2)" by fastforce
  have p: "wait_poll zero_time ''bob'' 25 NewTCPRelayBroker = (Reading, NewTCPRelayBroker)"
    by (simp add: wait_poll_def Pending_def cleanupLocked_def Let_def NewTCPRelayBroker_def)
  have "keys_distinct NewTCPRelayBroker" "d_ID bob = ''bob''"
    by (simp_all add: keys_distinct_def NewTCPRelayBroker_def bob_def)
  from poll_can_miss_a_session [OF this(1) p c this(2)] show ?thesis by (auto simp: c)
qed

end
