(* ===== verification/Go_Net.thy ===== *)
theory Go_Net
  imports Go_Strings
begin

text \<open>
  Host and port strings: \<open>net.SplitHostPort\<close> and \<open>net.JoinHostPort\<close> of Go's standard
  library, written over byte positions as the library writes them, the decomposition a
  successful split gives, and the round trip with the join.
\<close>

section \<open>Byte positions\<close>

fun index_byte :: "string \<Rightarrow> char \<Rightarrow> nat option" where
  "index_byte [] c = None"
| "index_byte (x # xs) c = (if x = c then Some 0 else map_option Suc (index_byte xs c))"

fun last_index_byte :: "string \<Rightarrow> char \<Rightarrow> nat option" where
  "last_index_byte [] c = None"
| "last_index_byte (x # xs) c =
     (case last_index_byte xs c of
        Some i \<Rightarrow> Some (Suc i)
      | None \<Rightarrow> if x = c then Some 0 else None)"

lemma index_byte_None_iff: "index_byte s c = None \<longleftrightarrow> c \<notin> set s"
  by (induction s) auto

lemma index_byte_SomeD:
  "index_byte s c = Some i \<Longrightarrow> i < length s \<and> s ! i = c \<and> c \<notin> set (take i s)"
  by (induction s arbitrary: i) (auto split: if_splits)

lemma index_byte_append: "c \<notin> set h \<Longrightarrow> index_byte (h @ c # t) c = Some (length h)"
  by (induction h) auto

lemma last_index_byte_None_iff: "last_index_byte s c = None \<longleftrightarrow> c \<notin> set s"
  by (induction s) (auto split: option.splits)

lemma last_index_byte_SomeD:
  "last_index_byte s c = Some i \<Longrightarrow> i < length s \<and> s ! i = c \<and> c \<notin> set (drop (Suc i) s)"
proof (induction s arbitrary: i)
  case Nil
  then show ?case by simp
next
  case (Cons x xs)
  then show ?case
    by (auto split: option.splits if_splits simp: last_index_byte_None_iff)
qed

lemma last_index_byte_append: "c \<notin> set p \<Longrightarrow> last_index_byte (h @ c # p) c = Some (length h)"
  by (induction h) (auto simp: last_index_byte_None_iff split: option.splits)

section \<open>Splitting and joining\<close>

datatype addr_error = MissingPort | TooManyColons | MissingBracket
  | UnexpectedOpen | UnexpectedClose

text \<open>The two checks that end \<open>SplitHostPort\<close>, for stray brackets from \<open>j\<close> and \<open>k\<close> on.\<close>

definition split_tail ::
  "string \<Rightarrow> nat \<Rightarrow> string \<Rightarrow> nat \<Rightarrow> nat \<Rightarrow> addr_error + string \<times> string" where
  "split_tail hp i host j k =
     (if CHR ''['' \<in> set (drop j hp) then Inl UnexpectedOpen
      else if CHR '']'' \<in> set (drop k hp) then Inl UnexpectedClose
      else Inr (host, drop (Suc i) hp))"

definition split_host_port :: "string \<Rightarrow> addr_error + string \<times> string" where
  "split_host_port hp =
     (case last_index_byte hp CHR '':'' of
        None \<Rightarrow> Inl MissingPort
      | Some i \<Rightarrow>
          if hp ! 0 = CHR ''['' then
            (case index_byte hp CHR '']'' of
               None \<Rightarrow> Inl MissingBracket
             | Some e \<Rightarrow>
                 if e + 1 = length hp then Inl MissingPort
                 else if e + 1 = i then split_tail hp i (drop 1 (take e hp)) 1 (e + 1)
                 else if hp ! (e + 1) = CHR '':'' then Inl TooManyColons
                 else Inl MissingPort)
          else
            (let host = take i hp
             in if CHR '':'' \<in> set host then Inl TooManyColons
                else split_tail hp i host 0 0))"

definition join_host_port :: "string \<Rightarrow> string \<Rightarrow> string" where
  "join_host_port host port =
     (if CHR '':'' \<in> set host then CHR ''['' # host @ '']:'' @ port
      else host @ CHR '':'' # port)"

text \<open>
  A successful split: the address is \<open>host:port\<close>, or \<open>[host]:port\<close>, and neither part holds
  a bracket (so a host with a colon was bracketed).
\<close>

lemma split_host_port_InrD:
  assumes "split_host_port hp = Inr (host, port)"
  shows "(hp = host @ CHR '':'' # port \<and> CHR '':'' \<notin> set host
          \<or> hp = CHR ''['' # host @ '']:'' @ port)
         \<and> CHR '':'' \<notin> set port
         \<and> CHR ''['' \<notin> set host \<and> CHR '']'' \<notin> set host
         \<and> CHR ''['' \<notin> set port \<and> CHR '']'' \<notin> set port"
proof -
  obtain i where i: "last_index_byte hp CHR '':'' = Some i"
    using assms by (auto simp: split_host_port_def split: option.splits)
  then have il: "i < length hp" and ic: "hp ! i = CHR '':''"
    and ip: "CHR '':'' \<notin> set (drop (Suc i) hp)"
    by (auto dest: last_index_byte_SomeD)
  have dec: "hp = take i hp @ CHR '':'' # drop (Suc i) hp"
    using il ic by (metis id_take_nth_drop)
  show ?thesis
  proof (cases "hp ! 0 = CHR ''[''")
    case False
    have eqs: "host = take i hp" "port = drop (Suc i) hp"
      and nc: "CHR '':'' \<notin> set host"
      and nb: "CHR ''['' \<notin> set hp" "CHR '']'' \<notin> set hp"
      using assms i False
      by (auto simp: split_host_port_def split_tail_def Let_def split: if_splits)
    have hp: "hp = host @ CHR '':'' # port" using dec eqs by simp
    have "CHR ''['' \<notin> set host" "CHR '']'' \<notin> set host"
         "CHR ''['' \<notin> set port" "CHR '']'' \<notin> set port"
      using nb by (auto simp: hp)
    moreover have "CHR '':'' \<notin> set port" using ip eqs by simp
    ultimately show ?thesis using hp nc by blast
  next
    case True
    obtain e where e: "index_byte hp CHR '']'' = Some e"
      using assms i True by (auto simp: split_host_port_def split: option.splits)
    then have el: "e < length hp" and ec: "hp ! e = CHR '']''"
      and et: "CHR '']'' \<notin> set (take e hp)"
      by (auto dest: index_byte_SomeD)
    have ie: "i = e + 1" and st: "split_tail hp i (drop 1 (take e hp)) 1 (e + 1) = Inr (host, port)"
      using assms i True e by (auto simp: split_host_port_def split: if_splits)
    from st have eqs: "host = drop 1 (take e hp)" "port = drop (Suc i) hp"
      and no: "CHR ''['' \<notin> set (drop 1 hp)" and nk: "CHR '']'' \<notin> set (drop (e + 1) hp)"
      by (auto simp: split_tail_def split: if_splits)
    have e0: "0 < e" using True ec by (cases e) auto
    have "take i hp = take e hp @ [CHR '']'']"
      using ie el ec by (simp add: take_Suc_conv_app_nth)
    moreover have "take e hp = CHR ''['' # drop 1 (take e hp)"
      using e0 el True by (cases hp; cases e) auto
    ultimately have hp: "hp = CHR ''['' # host @ '']:'' @ port"
      using dec eqs by (metis Cons_eq_appendI append.assoc append_Cons append_Nil)
    have "set host \<subseteq> set (drop 1 hp)" "set port \<subseteq> set (drop 1 hp)"
      by (auto simp: hp)
    moreover have "set host \<subseteq> set (take e hp)"
      unfolding eqs by (rule set_drop_subset)
    moreover have "set port \<subseteq> set (drop (e + 1) hp)"
      unfolding eqs ie by (rule set_drop_subset_set_drop) simp
    moreover have "CHR '':'' \<notin> set port" using ip eqs by simp
    ultimately show ?thesis using hp no nk et by blast
  qed
qed

lemma split_join_host_port:
  assumes "CHR ''['' \<notin> set host" "CHR '']'' \<notin> set host"
    and "CHR ''['' \<notin> set port" "CHR '']'' \<notin> set port" "CHR '':'' \<notin> set port"
  shows "split_host_port (join_host_port host port) = Inr (host, port)"
proof (cases "CHR '':'' \<in> set host")
  case False
  have l: "last_index_byte (host @ CHR '':'' # port) CHR '':'' = Some (length host)"
    using assms by (simp add: last_index_byte_append)
  have "(host @ CHR '':'' # port) ! 0 \<noteq> CHR ''[''"
    using assms by (cases host) auto
  then show ?thesis
    using assms False l
    by (simp add: join_host_port_def split_host_port_def split_tail_def Let_def)
next
  case True
  let ?hp = "CHR ''['' # host @ '']:'' @ port"
  have l: "last_index_byte ?hp CHR '':'' = Some (length host + 2)"
    using last_index_byte_append [of "CHR '':''" port "CHR ''['' # host @ '']''"] assms
    by simp
  have r: "index_byte ?hp CHR '']'' = Some (length host + 1)"
    using index_byte_append [of "CHR '']''" "CHR ''['' # host" "CHR '':'' # port"] assms
    by simp
  show ?thesis
    using True assms l r
    by (simp add: join_host_port_def split_host_port_def split_tail_def)
qed

text \<open>A host that itself carries brackets is refused, whatever the port.\<close>

lemma split_join_bracketed:
  assumes "CHR '':'' \<in> set host"
  shows "\<exists>e. split_host_port (join_host_port (CHR ''['' # host @ '']'') port) = Inl e"
proof (rule ccontr)
  let ?h = "CHR ''['' # host @ '']''"
  assume "\<nexists>e. split_host_port (join_host_port ?h port) = Inl e"
  then obtain h p where s: "split_host_port (join_host_port ?h port) = Inr (h, p)"
    by (metis obj_sumE surj_pair)
  have j: "join_host_port ?h port = CHR ''['' # ?h @ '']:'' @ port"
    using assms by (simp add: join_host_port_def)
  from split_host_port_InrD [OF s] have
    "CHR ''['' \<notin> set h" and
    "join_host_port ?h port = h @ CHR '':'' # p \<or> join_host_port ?h port = CHR ''['' # h @ '']:'' @ p"
    by auto
  then show False
    unfolding j by (cases h) auto
qed

section \<open>Case folding\<close>

text \<open>
  \<open>strings.EqualFold\<close>: the ASCII loop compares byte by byte up to case; at the first byte
  of either string that is not ASCII the comparison goes on with the Unicode folding
  tables, which are the parameter \<open>unifold\<close>.
\<close>

definition ascii_lower :: "char \<Rightarrow> char" where
  "ascii_lower c = (let n = of_char c :: nat in if 65 \<le> n \<and> n \<le> 90 then char_of (n + 32) else c)"

definition is_ascii :: "char \<Rightarrow> bool" where
  "is_ascii c \<longleftrightarrow> (of_char c :: nat) < 128"

fun equal_fold :: "(string \<Rightarrow> string \<Rightarrow> bool) \<Rightarrow> string \<Rightarrow> string \<Rightarrow> bool" where
  "equal_fold unifold [] [] = True"
| "equal_fold unifold [] (t # ts) = False"
| "equal_fold unifold (s # ss) [] = False"
| "equal_fold unifold (s # ss) (t # ts) =
     (if \<not> is_ascii s \<or> \<not> is_ascii t then unifold (s # ss) (t # ts)
      else if ascii_lower s = ascii_lower t then equal_fold unifold ss ts
      else False)"

lemma equal_fold_refl:
  assumes "list_all is_ascii s"
  shows "equal_fold unifold s s"
  using assms by (induction s) auto

end
