(* ===== verification/Go_IP.thy ===== *)
theory Go_IP
  imports Go_Net
begin

text \<open>
  \<open>net.ParseIP\<close>, \<open>IP.To4\<close>, \<open>net.ParseCIDR\<close> and \<open>IPNet.Contains\<close> of Go's standard library, on
  byte lists: an address is a list of four or sixteen numbers below 256. They are used for the
  relay map, the hub's default endpoint and the hub's network check. Also the parts of
  \<open>net/url\<close> that act on an already separated host field, \<open>URL.Hostname\<close> and \<open>URL.Port\<close>.
\<close>

section \<open>Splitting\<close>

fun split_on :: "char \<Rightarrow> string \<Rightarrow> string list" where
  "split_on c [] = [[]]"
| "split_on c (x # xs) =
     (if x = c then [] # split_on c xs
      else (case split_on c xs of [] \<Rightarrow> [[x]] | w # ws \<Rightarrow> (x # w) # ws))"

lemma split_on_nonempty [simp]: "split_on c s \<noteq> []"
  by (cases s) (auto split: list.splits)

lemma split_on_none: "c \<notin> set s \<Longrightarrow> split_on c s = [s]"
  by (induction s) auto

lemma split_on_append: "c \<notin> set a \<Longrightarrow> split_on c (a @ c # b) = a # split_on c b"
  by (induction a) auto

text \<open>The parts before and after the first \<open>::\<close>.\<close>

fun cut_ellipsis :: "string \<Rightarrow> (string \<times> string) option" where
  "cut_ellipsis [] = None"
| "cut_ellipsis [x] = None"
| "cut_ellipsis (x # y # s) =
     (if x = CHR '':'' \<and> y = CHR '':'' then Some ([], s)
      else map_option (\<lambda>(a, b). (x # a, b)) (cut_ellipsis (y # s)))"

fun collect :: "'a option list \<Rightarrow> 'a list option" where
  "collect [] = Some []"
| "collect (None # xs) = None"
| "collect (Some x # xs) = map_option (\<lambda>ys. x # ys) (collect xs)"

section \<open>Addresses\<close>

type_synonym ip = "nat list"

definition v4_field :: "string \<Rightarrow> nat option" where
  "v4_field s =
     (if s = [] \<or> (1 < length s \<and> hd s = CHR ''0'') then None
      else case digits_value 0 s of
        Some n \<Rightarrow> if n \<le> 255 then Some n else None
      | None \<Rightarrow> None)"

definition parse_v4 :: "string \<Rightarrow> ip option" where
  "parse_v4 s =
     (let fields = split_on (CHR ''.'') s
      in if length fields = 4 then collect (map v4_field fields) else None)"

definition hex_of :: "char \<Rightarrow> nat option" where
  "hex_of c = (let n = of_char c in
     if 48 \<le> n \<and> n \<le> 57 then Some (n - 48)
     else if 97 \<le> n \<and> n \<le> 102 then Some (n - 87)
     else if 65 \<le> n \<and> n \<le> 70 then Some (n - 55) else None)"

definition hex_group :: "string \<Rightarrow> ip option" where
  "hex_group s =
     (if s = [] \<or> 4 < length s then None
      else case collect (map hex_of s) of
        None \<Rightarrow> None
      | Some ds \<Rightarrow> let n = foldl (\<lambda>a d. 16 * a + d) 0 ds in Some [n div 256, n mod 256])"

text \<open>The groups of one side of \<open>::\<close>; only the last group of the address may be dotted.\<close>

definition v6_groups :: "bool \<Rightarrow> string \<Rightarrow> ip option" where
  "v6_groups final s =
     (if s = [] then Some []
      else let gs = split_on (CHR '':'') s;
               tail = (if final \<and> CHR ''.'' \<in> set (last gs) then parse_v4 (last gs) else hex_group (last gs))
           in map_option concat (collect (map hex_group (butlast gs) @ [tail])))"

definition parse_v6 :: "string \<Rightarrow> ip option" where
  "parse_v6 s =
     (case cut_ellipsis s of
        None \<Rightarrow> (case v6_groups True s of
            Some bs \<Rightarrow> if length bs = 16 then Some bs else None
          | None \<Rightarrow> None)
      | Some (l, r) \<Rightarrow> (case (v6_groups False l, v6_groups True r) of
            (Some a, Some b) \<Rightarrow>
              if length a + length b < 16
              then Some (a @ replicate (16 - length a - length b) 0 @ b) else None
          | _ \<Rightarrow> None))"

text \<open>The first dot or colon decides the family; \<open>netip\<close> keeps the two families apart.\<close>

definition parse_addr :: "string \<Rightarrow> ip option" where
  "parse_addr s =
     (case find (\<lambda>c. c = CHR ''.'' \<or> c = CHR '':'') s of
        None \<Rightarrow> None
      | Some c \<Rightarrow> if c = CHR ''.'' then parse_v4 s else parse_v6 s)"

definition v4_prefix :: ip where "v4_prefix = replicate 10 0 @ [255, 255]"

definition ParseIP :: "string \<Rightarrow> ip option" where
  "ParseIP s = map_option (\<lambda>a. if length a = 4 then v4_prefix @ a else a) (parse_addr s)"

definition To4 :: "ip \<Rightarrow> ip option" where
  "To4 a =
     (if length a = 4 then Some a
      else if length a = 16 \<and> take 12 a = v4_prefix then Some (drop 12 a)
      else None)"

section \<open>Networks\<close>

fun mask_bits :: "nat \<Rightarrow> ip \<Rightarrow> ip" where
  "mask_bits n [] = []"
| "mask_bits n (b # bs) =
     (if 8 \<le> n then b # mask_bits (n - 8) bs
      else (b div 2 ^ (8 - n)) * 2 ^ (8 - n) # mask_bits 0 bs)"

text \<open>The network address and the number of mask bits, in the width the address was written in.\<close>

definition ParseCIDR :: "string \<Rightarrow> (ip \<times> nat) option" where
  "ParseCIDR s =
     (case index_byte s (CHR ''/'') of
        None \<Rightarrow> None
      | Some i \<Rightarrow>
          let mask = drop (Suc i) s
          in (case (parse_addr (take i s), if mask = [] then None else digits_value 0 mask) of
                (Some a, Some n) \<Rightarrow> if n \<le> 8 * length a then Some (mask_bits n a, n) else None
              | _ \<Rightarrow> None))"

definition net_contains :: "ip \<times> nat \<Rightarrow> ip \<Rightarrow> bool" where
  "net_contains net a =
     (let nip = (case To4 (fst net) of Some x \<Rightarrow> x | None \<Rightarrow> fst net);
          bits = (if length (fst net) = 16 \<and> length nip = 4 then snd net - 96 else snd net);
          x = (case To4 a of Some x \<Rightarrow> x | None \<Rightarrow> a)
      in length x = length nip \<and> mask_bits bits x = mask_bits bits nip)"

section \<open>Hosts of a URL\<close>

text \<open>
  \<open>splitHostPort\<close> of net/url: a port is a last colon followed by digits only; brackets are
  removed from the host.
\<close>

definition valid_optional_port :: "string \<Rightarrow> bool" where
  "valid_optional_port p \<longleftrightarrow>
     p = [] \<or> (hd p = CHR '':'' \<and> list_all (\<lambda>c. digit_of c \<noteq> None) (tl p))"

definition url_host_port :: "string \<Rightarrow> string \<times> string" where
  "url_host_port hp =
     (let (host, port) =
        (case last_index_byte hp (CHR '':'') of
           Some i \<Rightarrow> if valid_optional_port (drop i hp) then (take i hp, drop (Suc i) hp) else (hp, [])
         | None \<Rightarrow> (hp, []))
      in (if host \<noteq> [] \<and> hd host = CHR ''['' \<and> last host = CHR '']''
          then butlast (tl host) else host, port))"

text \<open>\<open>url.Parse\<close> is an argument of what uses it: the scheme and the host field, or None.\<close>

type_synonym url_parser = "string \<Rightarrow> (string \<times> string) option"

section \<open>Dotted addresses\<close>

text \<open>Dotted decimals parse to their bytes.\<close>

lemma v4_field_dec [simp]: "n \<le> 255 \<Longrightarrow> v4_field (dec_string n) = Some n"
proof -
  assume n: "n \<le> 255"
  have "\<not> (1 < length (dec_string n) \<and> hd (dec_string n) = CHR ''0'')"
    if "n \<le> 255" for n
  proof (cases "n < 10")
    case True
    then show ?thesis by (simp add: dec_string.simps [of n])
  next
    case False
    have "hd (dec_string m) \<noteq> CHR ''0''" if "0 < m" for m
      using that
    proof (induction m rule: dec_string.induct)
      case (1 m)
      show ?case
      proof (cases "m < 10")
        case True
        have "digit_of (CHR ''0'') = Some 0" by (simp add: digit_of_def)
        then have "digit_char m \<noteq> CHR ''0''" using digit_of_digit_char [OF True] 1(2) by auto
        then show ?thesis using True by (simp add: dec_string.simps [of m])
      next
        case False
        then have "hd (dec_string (m div 10)) \<noteq> CHR ''0''" using 1 by simp
        then show ?thesis using False by (simp add: dec_string.simps [of m])
      qed
    qed
    then show ?thesis using False by simp
  qed
  then show ?thesis using n by (simp add: v4_field_def)
qed

definition dotted :: "nat \<Rightarrow> nat \<Rightarrow> nat \<Rightarrow> nat \<Rightarrow> string" where
  "dotted a b c d = dec_string a @ CHR ''.'' # dec_string b @ CHR ''.'' # dec_string c
     @ CHR ''.'' # dec_string d"

lemma parse_v4_dotted:
  assumes "a \<le> 255" "b \<le> 255" "c \<le> 255" "d \<le> 255"
  shows "parse_v4 (dotted a b c d) = Some [a, b, c, d]"
  using assms by (simp add: parse_v4_def dotted_def split_on_append split_on_none)

lemma find_append_none: "(\<forall>x \<in> set xs. \<not> P x) \<Longrightarrow> find P (xs @ y # ys) = (if P y then Some y else find P ys)"
  by (induction xs) auto

lemma parse_addr_dotted:
  assumes "a \<le> 255" "b \<le> 255" "c \<le> 255" "d \<le> 255"
  shows "parse_addr (dotted a b c d) = Some [a, b, c, d]"
proof -
  have "\<forall>x \<in> set (dec_string a). \<not> (x = CHR ''.'' \<or> x = CHR '':'')"
    using dec_string_no [of a] by blast
  then have "find (\<lambda>c. c = CHR ''.'' \<or> c = CHR '':'') (dotted a b c d) = Some (CHR ''.'')"
    unfolding dotted_def by (subst find_append_none) auto
  then show ?thesis
    using parse_v4_dotted [OF assms] by (simp add: parse_addr_def)
qed

lemma ParseIP_dotted:
  assumes "a \<le> 255" "b \<le> 255" "c \<le> 255" "d \<le> 255"
  shows "ParseIP (dotted a b c d) = Some (v4_prefix @ [a, b, c, d])"
  using parse_addr_dotted [OF assms] by (simp add: ParseIP_def)

lemma To4_mapped [simp]: "length a = 4 \<Longrightarrow> To4 (v4_prefix @ a) = Some a"
  by (simp add: To4_def v4_prefix_def)

end
