(* ===== verification/Derp_Map.thy ===== *)
theory Derp_Map
  imports Models Go_IP
begin

text \<open>
  internal/controller/derpmap.go: the relay map in the format of tailcfg, built from the
  registered relays. \<open>url.Parse\<close> is the parameter \<open>url_parse\<close>, which gives the scheme and the
  host field of a URL it accepts; the order in which Go iterates over the map of regions is the
  parameter \<open>order\<close>, any permutation.
\<close>

section \<open>Names and region numbers\<close>

text \<open>\<open>hash/fnv\<close> New32a: xor the byte, multiply by the FNV prime, modulo 2 to the 32.\<close>

definition fnv1a_byte :: "32 word \<Rightarrow> char \<Rightarrow> 32 word" where
  "fnv1a_byte h c = (xor h (of_nat (of_char c))) * 16777619"

definition fnv1a :: "string \<Rightarrow> 32 word" where
  "fnv1a s = foldl fnv1a_byte 2166136261 s"

definition stableRegionID :: "string \<Rightarrow> nat" where
  "stableRegionID region = 900 + unat (fnv1a region mod 100)"

text \<open>
  The runes of \<open>strings.ToLower(value)\<close> that the loop keeps. Besides ASCII letters, two runes
  have an ASCII lower case: U+212A (Kelvin sign, bytes E2 84 AA) and U+0130 (bytes C4 B0).
  Every other byte above 127 belongs to a rune the loop drops.
\<close>

definition derp_rune :: "char \<Rightarrow> bool" where
  "derp_rune c = (let n = of_char c :: nat in (97 \<le> n \<and> n \<le> 122) \<or> (48 \<le> n \<and> n \<le> 57) \<or> n = 45)"

function kept_runes :: "string \<Rightarrow> string" where
  "kept_runes s =
     (if s = [] then []
      else if prefix [CHR 0xE2, CHR 0x84, CHR 0xAA] s then CHR ''k'' # kept_runes (drop 3 s)
      else if prefix [CHR 0xC4, CHR 0xB0] s then CHR ''i'' # kept_runes (drop 2 s)
      else (let l = ascii_lower (hd s) in (if derp_rune l then [l] else []) @ kept_runes (tl s)))"
  by pat_completeness auto
termination by (relation "measure length") auto

declare kept_runes.simps [simp del]

definition sanitizeDERPName :: "string \<Rightarrow> string" where
  "sanitizeDERPName value =
     (let value' = trim_space value
      in if value' = [] then ''relay''
         else let kept = kept_runes value' in if kept = [] then ''relay'' else kept)"

section \<open>Nodes and regions\<close>

record derp_node =
  dn_Name :: string
  dn_RegionID :: nat
  dn_HostName :: string
  dn_IPv4 :: string
  dn_IPv6 :: string
  dn_STUNPort :: int
  dn_DERPPort :: int
  dn_InsecureForTests :: bool

record derp_region =
  dr_RegionID :: nat
  dr_RegionCode :: string
  dr_RegionName :: string
  dr_Nodes :: "derp_node list"

definition relayToDERPNode :: "url_parser \<Rightarrow> relay_node \<Rightarrow> derp_node option" where
  "relayToDERPNode url_parse relay =
     (case url_parse (r_PublicURL relay) of
        None \<Rightarrow> None
      | Some (scheme, hostfield) \<Rightarrow>
          if hostfield = '''' then None
          else (let (host, portstr) = url_host_port hostfield
            in if host = '''' then None
               else (let port = (if portstr \<noteq> '''' then (case atoi portstr of Some p \<Rightarrow> p | None \<Rightarrow> 443)
                           else if scheme = ''http'' then 80 else 443);
                         node = \<lparr>dn_Name = sanitizeDERPName (r_ID relay), dn_RegionID = 0,
                           dn_HostName = host, dn_IPv4 = r_IPv4 relay, dn_IPv6 = r_IPv6 relay,
                           dn_STUNPort = - 1, dn_DERPPort = port, dn_InsecureForTests = False\<rparr>;
                         node1 = (if scheme = ''http'' then node\<lparr>dn_InsecureForTests := True\<rparr> else node)
                     in (case ParseIP host of
                           None \<Rightarrow> Some node1
                         | Some ip \<Rightarrow>
                             if To4 ip = None then Some (node1\<lparr>dn_IPv4 := ''none'', dn_IPv6 := host\<rparr>)
                             else Some (node1\<lparr>dn_IPv4 := host\<rparr>)))))"

definition region_code :: "relay_node \<Rightarrow> string" where
  "region_code relay = (if r_Region relay = '''' then ''default'' else r_Region relay)"

definition add_relay ::
  "url_parser \<Rightarrow> (string \<times> derp_region) list \<Rightarrow> relay_node \<Rightarrow> (string \<times> derp_region) list" where
  "add_relay url_parse regions relay =
     (if r_Status relay = RelayStatusUnhealthy then regions
      else case relayToDERPNode url_parse relay of
        None \<Rightarrow> regions
      | Some node \<Rightarrow>
          (let code = region_code relay;
               region = (case map_of regions code of
                   Some r \<Rightarrow> r
                 | None \<Rightarrow> \<lparr>dr_RegionID = stableRegionID code, dr_RegionCode = code,
                     dr_RegionName = code, dr_Nodes = []\<rparr>)
           in AList.update code
                (region\<lparr>dr_Nodes := dr_Nodes region @ [node\<lparr>dn_RegionID := dr_RegionID region\<rparr>]\<rparr>)
                regions))"

definition regionsByCode :: "url_parser \<Rightarrow> relay_node list \<Rightarrow> (string \<times> derp_region) list" where
  "regionsByCode url_parse relays = foldl (add_relay url_parse) [] relays"

type_synonym iteration_order = "(string \<times> derp_region) list \<Rightarrow> (string \<times> derp_region) list"

definition buildDERPMap ::
  "url_parser \<Rightarrow> iteration_order \<Rightarrow> relay_node list \<Rightarrow> (nat \<times> derp_region) list" where
  "buildDERPMap url_parse order relays =
     foldl (\<lambda>regions (code, region). AList.update (dr_RegionID region) region regions) []
       (order (regionsByCode url_parse relays))"

section \<open>Names\<close>

lemma kept_runes_charset: "c \<in> set (kept_runes s) \<Longrightarrow> derp_rune c"
proof (induction s rule: kept_runes.induct)
  case (1 s)
  have "derp_rune (CHR ''k'')" "derp_rune (CHR ''i'')" by (simp_all add: derp_rune_def)
  with 1 show ?case
    by (subst (asm) (4) kept_runes.simps) (auto simp: Let_def split: if_splits)
qed

text \<open>
  A relay's name in the map is never empty and consists of lower-case letters, digits and
  dashes only, whatever id the relay registered with.
\<close>

theorem sanitizeDERPName_safe:
  "sanitizeDERPName s \<noteq> '''' \<and> list_all derp_rune (sanitizeDERPName s)"
proof -
  have "list_all derp_rune ''relay''" by (simp add: derp_rune_def)
  then show ?thesis
    using kept_runes_charset [of _ "trim_space s"]
    by (auto simp: sanitizeDERPName_def Let_def list_all_iff)
qed

section \<open>The regions\<close>

text \<open>The node of a relay in its region, and the relays a region gets, in order.\<close>

definition usable_node :: "url_parser \<Rightarrow> relay_node \<Rightarrow> derp_node option" where
  "usable_node url_parse relay =
     (if r_Status relay = RelayStatusUnhealthy then None
      else map_option (\<lambda>n. n\<lparr>dn_RegionID := stableRegionID (region_code relay)\<rparr>)
        (relayToDERPNode url_parse relay))"

definition region_nodes :: "url_parser \<Rightarrow> relay_node list \<Rightarrow> string \<Rightarrow> derp_node list" where
  "region_nodes url_parse relays code =
     List.map_filter (\<lambda>r. if region_code r = code then usable_node url_parse r else None) relays"

definition region_spec :: "string \<Rightarrow> derp_node list \<Rightarrow> derp_region option" where
  "region_spec code nodes =
     (if nodes = [] then None
      else Some \<lparr>dr_RegionID = stableRegionID code, dr_RegionCode = code, dr_RegionName = code,
                 dr_Nodes = nodes\<rparr>)"

lemma region_nodes_simps [simp]:
  "region_nodes p [] code = []"
  "region_nodes p (xs @ [r]) code = region_nodes p xs code
     @ (if region_code r = code then (case usable_node p r of None \<Rightarrow> [] | Some n \<Rightarrow> [n]) else [])"
  by (simp_all add: region_nodes_def List.map_filter_def split: option.splits)

lemma regionsByCode_spec:
  "map_of (regionsByCode p relays) code = region_spec code (region_nodes p relays code)"
proof (induction relays arbitrary: code rule: rev_induct)
  case Nil
  then show ?case by (simp add: regionsByCode_def region_spec_def)
next
  case (snoc r xs)
  have step: "regionsByCode p (xs @ [r]) = add_relay p (regionsByCode p xs) r"
    by (simp add: regionsByCode_def)
  show ?case
  proof (cases "usable_node p r")
    case None
    then have "add_relay p (regionsByCode p xs) r = regionsByCode p xs"
      by (auto simp: add_relay_def usable_node_def split: if_splits)
    with None snoc.IH show ?thesis by (simp add: step)
  next
    case (Some n)
    then obtain n0 where n0: "r_Status r \<noteq> RelayStatusUnhealthy" "relayToDERPNode p r = Some n0"
      "n = n0\<lparr>dn_RegionID := stableRegionID (region_code r)\<rparr>"
      by (auto simp: usable_node_def split: if_splits)
    show ?thesis
      using n0 Some snoc.IH [of "region_code r"] snoc.IH [of code]
      by (auto simp: step add_relay_def Let_def update_conv' region_spec_def split: option.splits if_splits)
  qed
qed

lemma add_relay_keys: "distinct (map fst xs) \<Longrightarrow> distinct (map fst (add_relay p xs r))"
  by (simp add: add_relay_def Let_def distinct_update split: option.splits)

lemma regionsByCode_keys: "distinct (map fst (regionsByCode p relays))"
  by (induction relays rule: rev_induct) (simp_all add: regionsByCode_def add_relay_keys)

lemma update_all_Some:
  "map_of (foldl (\<lambda>m (k, v). AList.update (f v) v m) acc xs) i = Some v \<Longrightarrow>
   map_of acc i = Some v \<or> (\<exists>k. (k, v) \<in> set xs \<and> f v = i)"
  by (induction xs arbitrary: acc) (fastforce simp: update_conv' split: if_splits)+

lemma update_all_last:
  assumes "(k, v) \<in> set xs" and "\<And>k' v'. (k', v') \<in> set xs \<Longrightarrow> f v' = f v \<Longrightarrow> v' = v"
  shows "map_of (foldl (\<lambda>m (k, v). AList.update (f v) v m) acc xs) (f v) = Some v"
  using assms
proof (induction xs rule: rev_induct)
  case (snoc x xs)
  then show ?case
  proof (cases "f (snd x) = f v")
    case True
    then have "snd x = v" using snoc.prems(2) [of "fst x" "snd x"] by simp
    then show ?thesis by (simp add: case_prod_beta update_conv')
  next
    case False
    then have m: "(k, v) \<in> set xs" using snoc.prems(1) by auto
    have "map_of (foldl (\<lambda>m (k, v). AList.update (f v) v m) acc xs) (f v) = Some v"
      by (rule snoc.IH [OF m]) (use snoc.prems(2) in auto)
    with False show ?thesis by (cases x) (simp add: update_conv')
  qed
qed simp

lemma stableRegionID_range: "900 \<le> stableRegionID code \<and> stableRegionID code < 1000"
proof -
  have "unat (fnv1a code mod 100) < 100"
    by (simp add: unat_mod)
  then show ?thesis by (simp add: stableRegionID_def)
qed

text \<open>An iteration order of Go is some arrangement of the same entries.\<close>

definition arranges :: "iteration_order \<Rightarrow> bool" where
  "arranges order \<longleftrightarrow> (\<forall>xs. mset (order xs) = mset xs)"

lemma arranges_set: "arranges order \<Longrightarrow> set (order xs) = set xs"
  unfolding arranges_def by (metis set_mset_mset)

lemma regionsByCode_mem:
  "(code, r) \<in> set (regionsByCode p relays) \<longleftrightarrow> region_spec code (region_nodes p relays code) = Some r"
  by (metis regionsByCode_keys regionsByCode_spec map_of_SomeD map_of_is_SomeI)

lemma derp_map_from:
  assumes "arranges order" and "map_of (buildDERPMap p order relays) i = Some r"
  shows "i = stableRegionID (dr_RegionCode r)" "dr_RegionID r = i"
    "dr_Nodes r = region_nodes p relays (dr_RegionCode r)" "dr_Nodes r \<noteq> []"
proof -
  let ?xs = "order (regionsByCode p relays)"
  obtain code where "(code, r) \<in> set ?xs" and i: "dr_RegionID r = i"
    using update_all_Some [of dr_RegionID "[]" ?xs i r] assms(2) unfolding buildDERPMap_def by auto
  then have "region_spec code (region_nodes p relays code) = Some r"
    by (simp add: arranges_set [OF assms(1)] regionsByCode_mem)
  then have "region_nodes p relays code \<noteq> []" and
    "r = \<lparr>dr_RegionID = stableRegionID code, dr_RegionCode = code, dr_RegionName = code,
          dr_Nodes = region_nodes p relays code\<rparr>"
    by (simp_all add: region_spec_def split: if_splits)
  then show "i = stableRegionID (dr_RegionCode r)" "dr_RegionID r = i"
    "dr_Nodes r = region_nodes p relays (dr_RegionCode r)" "dr_Nodes r \<noteq> []"
    using i by simp_all
qed

text \<open>
  C14: Every region of the relay map has the number of its code, a number from 900 to 999, and
  holds exactly the nodes of the usable relays of that code, in the order the relays are
  listed. A code with a usable relay has its region in the map when no other such code has
  the same number.
\<close>

theorem derp_map_regions:
  assumes "arranges order"
  shows "(\<forall>i r. map_of (buildDERPMap p order relays) i = Some r \<longrightarrow>
            900 \<le> i \<and> i < 1000 \<and> i = stableRegionID (dr_RegionCode r)
            \<and> dr_RegionID r = i
            \<and> dr_Nodes r = region_nodes p relays (dr_RegionCode r) \<and> dr_Nodes r \<noteq> [])
       \<and> (\<forall>code. region_nodes p relays code \<noteq> []
            \<and> (\<forall>other. region_nodes p relays other \<noteq> [] \<longrightarrow>
                 stableRegionID other = stableRegionID code \<longrightarrow> other = code) \<longrightarrow>
            (\<exists>r. map_of (buildDERPMap p order relays) (stableRegionID code) = Some r
                 \<and> dr_RegionCode r = code \<and> dr_Nodes r = region_nodes p relays code))"
proof (intro conjI allI impI)
  fix i r assume "map_of (buildDERPMap p order relays) i = Some r"
  note from_code = derp_map_from [OF assms this]
  then show "i = stableRegionID (dr_RegionCode r)" "dr_RegionID r = i"
    "dr_Nodes r = region_nodes p relays (dr_RegionCode r)" "dr_Nodes r \<noteq> []" by blast+
  show "900 \<le> i" "i < 1000"
    using stableRegionID_range [of "dr_RegionCode r"] from_code(1) by simp_all
next
  fix code
  assume a: "region_nodes p relays code \<noteq> []
            \<and> (\<forall>other. region_nodes p relays other \<noteq> [] \<longrightarrow>
                 stableRegionID other = stableRegionID code \<longrightarrow> other = code)"
  let ?xs = "order (regionsByCode p relays)"
  obtain r where r: "region_spec code (region_nodes p relays code) = Some r"
    "dr_RegionID r = stableRegionID code" "dr_RegionCode r = code" "dr_Nodes r = region_nodes p relays code"
    using a by (simp add: region_spec_def)
  have mem: "(code, r) \<in> set ?xs"
    using r(1) by (simp add: arranges_set [OF assms] regionsByCode_mem)
  have uniq: "v = r" if "(k, v) \<in> set ?xs" "dr_RegionID v = dr_RegionID r" for k v
  proof -
    have "region_spec k (region_nodes p relays k) = Some v"
      using that(1) by (simp add: arranges_set [OF assms] regionsByCode_mem)
    then show ?thesis using a that(2) r by (auto simp: region_spec_def split: if_splits)
  qed
  have "map_of (buildDERPMap p order relays) (dr_RegionID r) = Some r"
    unfolding buildDERPMap_def by (rule update_all_last [OF mem uniq])
  then show "\<exists>r. map_of (buildDERPMap p order relays) (stableRegionID code) = Some r
                 \<and> dr_RegionCode r = code \<and> dr_Nodes r = region_nodes p relays code"
    using r by auto
qed

text \<open>A URL parser for the witnesses: everything is an https URL with its text as the host.\<close>

definition demo_url :: url_parser where "demo_url s = Some (''https'', s)"

definition demo_relay :: "string \<Rightarrow> string \<Rightarrow> relay_node" where
  "demo_relay rid region = empty_relay\<lparr>r_ID := rid, r_Region := region, r_PublicURL := ''relay.example''\<rparr>"

lemma demo_usable: "\<exists>n. usable_node demo_url (demo_relay rid region) = Some n"
proof -
  have "url_host_port ''relay.example'' = (''relay.example'', [])" by code_simp
  then show ?thesis
    by (simp add: usable_node_def demo_relay_def empty_relay_def RelayStatusUnhealthy_def relayToDERPNode_def
        demo_url_def Let_def split: option.splits)
qed

lemma demo_nodes: "region_nodes demo_url [demo_relay ''a'' ''us'', demo_relay ''b'' ''eu-west''] code \<noteq> []
   \<longleftrightarrow> code \<in> {''us'', ''eu-west''}"
proof -
  obtain n m where "usable_node demo_url (demo_relay ''a'' ''us'') = Some n"
    "usable_node demo_url (demo_relay ''b'' ''eu-west'') = Some m" using demo_usable by blast
  then show ?thesis
    by (auto simp: region_nodes_def List.map_filter_def region_code_def demo_relay_def)
qed

theorem derp_map_regions_witness:
  "\<exists>r. map_of (buildDERPMap demo_url (\<lambda>xs. xs) [demo_relay ''a'' ''us'']) (stableRegionID ''us'') = Some r
     \<and> dr_RegionCode r = ''us''"
proof -
  obtain n where n: "usable_node demo_url (demo_relay ''a'' ''us'') = Some n" using demo_usable by blast
  have "region_nodes demo_url [demo_relay ''a'' ''us''] c \<noteq> [] \<longleftrightarrow> c = ''us''" for c
    using n by (auto simp: region_nodes_def List.map_filter_def region_code_def demo_relay_def)
  moreover have "arranges (\<lambda>xs. xs)" by (simp add: arranges_def)
  ultimately show ?thesis
    using derp_map_regions [of "\<lambda>xs. xs" demo_url "[demo_relay ''a'' ''us'']"] by blast
qed

text \<open>
  Two region codes with the same number do not share a region: whatever order Go iterates
  in, all the relays of one of the two codes are missing from the map. The codes \<open>us\<close> and
  \<open>eu-west\<close> are such a pair.
\<close>

theorem derp_map_collision_loses_region:
  assumes "arranges order" and "c1 \<noteq> c2" and "stableRegionID c1 = stableRegionID c2"
  shows "\<exists>lost \<in> {c1, c2}. \<nexists>i r. map_of (buildDERPMap p order relays) i = Some r \<and> dr_RegionCode r = lost"
proof (rule ccontr)
  assume "\<not> ?thesis"
  then have all: "\<exists>i r. map_of (buildDERPMap p order relays) i = Some r \<and> dr_RegionCode r = c"
    if "c \<in> {c1, c2}" for c using that by blast
  obtain i r where 1: "map_of (buildDERPMap p order relays) i = Some r" "dr_RegionCode r = c1" using all by blast
  obtain j s where 2: "map_of (buildDERPMap p order relays) j = Some s" "dr_RegionCode s = c2" using all by blast
  have "i = j" using derp_map_from(1) [OF assms(1) 1(1)] derp_map_from(1) [OF assms(1) 2(1)] 1(2) 2(2) assms(3) by simp
  then show False using 1 2 assms(2) by auto
qed

lemma us_collides: "stableRegionID ''us'' = stableRegionID ''eu-west''"
  by (simp add: stableRegionID_def fnv1a_def fnv1a_byte_def)

theorem derp_map_collision_loses_region_witness:
  "\<exists>lost \<in> {''us'', ''eu-west''}.
     region_nodes demo_url [demo_relay ''a'' ''us'', demo_relay ''b'' ''eu-west''] lost \<noteq> []
     \<and> (\<nexists>i r. map_of (buildDERPMap demo_url rev [demo_relay ''a'' ''us'', demo_relay ''b'' ''eu-west'']) i = Some r
             \<and> dr_RegionCode r = lost)"
  using derp_map_collision_loses_region [of rev "''us''" "''eu-west''" demo_url
      "[demo_relay ''a'' ''us'', demo_relay ''b'' ''eu-west'']"] us_collides
  by (simp add: arranges_def demo_nodes)

end
