(* ===== verification/Config.thy ===== *)
theory Config
  imports Go_Strings "HOL-Library.Word"
begin

text \<open>
  internal/config/config.go: the three configurations read from the environment. The
  environment is a function from names to values, empty for an unset variable, as \<open>os.Getenv\<close>
  reads it. The host name and the user's configuration directory come from the operating system
  and are arguments, as is \<open>filepath.Join\<close>. Durations are nanoseconds in a signed 64-bit
  integer: the product in \<open>getenvDuration\<close> wraps as in Go.
\<close>

section \<open>Records\<close>

record controller_config =
  cc_ListenAddr :: string
  cc_PublicURL :: string
  cc_DatabasePath :: string
  cc_APIKeyPepper :: string
  cc_WebDir :: string
  cc_LogLevel :: string
  cc_HubWireGuardEnabled :: bool
  cc_HubWireGuardIface :: string
  cc_HubWireGuardIP :: string
  cc_HubWireGuardNetwork :: string
  cc_HubWireGuardPort :: int
  cc_HubWireGuardKey :: string
  cc_HubWireGuardEndpoint :: string

record relay_config =
  rc_ControllerURL :: string
  rc_APIKey :: string
  rc_RelayID :: string
  rc_Name :: string
  rc_PublicURL :: string
  rc_Region :: string
  rc_ListenAddr :: string
  rc_Heartbeat :: int

record agent_config =
  ac_ControllerURL :: string
  ac_EnrollmentKey :: string
  ac_DeviceName :: string
  ac_HealthEvery :: int
  ac_RelayEnabled :: bool
  ac_RelayPollEvery :: int
  ac_WireGuardInterface :: string
  ac_WireGuardPrivateKey :: string
  ac_WireGuardPublicKey :: string
  ac_WireGuardDryRun :: bool
  ac_StatePath :: string
  ac_DeviceFingerprint :: string
  ac_Endpoint :: string
  ac_RunOnce :: bool

section \<open>Readers\<close>

type_synonym environment = "string \<Rightarrow> string"

abbreviation duration_second :: int where "duration_second \<equiv> 1000000000"

definition DefaultListenAddr :: string where "DefaultListenAddr = '':8080''"

definition getenv :: "environment \<Rightarrow> string \<Rightarrow> string \<Rightarrow> string" where
  "getenv env key fallback = (let value = env key in if value = '''' then fallback else value)"

definition mul_seconds :: "int \<Rightarrow> int" where
  "mul_seconds seconds = sint (word_of_int seconds * 1000000000 :: 64 word)"

definition getenvDuration :: "environment \<Rightarrow> string \<Rightarrow> int \<Rightarrow> int" where
  "getenvDuration env key fallback =
     (let value = env key in
      if value = '''' then fallback
      else case atoi value of
        None \<Rightarrow> fallback
      | Some seconds \<Rightarrow> if seconds \<le> 0 then fallback else mul_seconds seconds)"

definition getenvInt :: "environment \<Rightarrow> string \<Rightarrow> int \<Rightarrow> int" where
  "getenvInt env key fallback =
     (let value = env key in
      if value = '''' then fallback
      else case atoi value of None \<Rightarrow> fallback | Some parsed \<Rightarrow> parsed)"

definition getenvBool :: "environment \<Rightarrow> string \<Rightarrow> bool \<Rightarrow> bool" where
  "getenvBool env key fallback =
     (let value = env key in
      if value = '''' then fallback
      else case parse_bool value of None \<Rightarrow> fallback | Some parsed \<Rightarrow> parsed)"

definition hostname :: "string option \<Rightarrow> string" where
  "hostname os_name =
     (case os_name of
        None \<Rightarrow> ''linkbit-device''
      | Some name \<Rightarrow> if name = '''' then ''linkbit-device'' else name)"

definition defaultAgentStatePath :: "(string list \<Rightarrow> string) \<Rightarrow> string option \<Rightarrow> string" where
  "defaultAgentStatePath join config_dir =
     (case config_dir of
        Some dir \<Rightarrow> if dir \<noteq> '''' then join [dir, ''linkbit'', ''agent-state.json'']
                    else ''linkbit-agent-state.json''
      | None \<Rightarrow> ''linkbit-agent-state.json'')"

section \<open>Loading\<close>

datatype config_error = PepperRequired

definition LoadController ::
  "environment \<Rightarrow> controller_config \<times> config_error option" where
  "LoadController env =
     (let cfg = \<lparr>cc_ListenAddr = getenv env ''LINKBIT_LISTEN_ADDR'' DefaultListenAddr,
            cc_PublicURL = env ''LINKBIT_PUBLIC_URL'',
            cc_DatabasePath = getenv env ''LINKBIT_DATABASE_PATH'' ''linkbit.db'',
            cc_APIKeyPepper = env ''LINKBIT_API_KEY_PEPPER'',
            cc_WebDir = env ''LINKBIT_WEB_DIR'',
            cc_LogLevel = getenv env ''LINKBIT_LOG_LEVEL'' ''info'',
            cc_HubWireGuardEnabled = getenvBool env ''LINKBIT_HUB_WG_ENABLED'' False,
            cc_HubWireGuardIface = getenv env ''LINKBIT_HUB_WG_INTERFACE'' ''linkbit-hub'',
            cc_HubWireGuardIP = getenv env ''LINKBIT_HUB_WG_IP'' ''10.88.0.1'',
            cc_HubWireGuardNetwork = getenv env ''LINKBIT_HUB_WG_NETWORK'' ''10.88.0.0/16'',
            cc_HubWireGuardPort = getenvInt env ''LINKBIT_HUB_WG_PORT'' 41641,
            cc_HubWireGuardKey = env ''LINKBIT_HUB_WG_PRIVATE_KEY'',
            cc_HubWireGuardEndpoint = env ''LINKBIT_HUB_WG_ENDPOINT''\<rparr>
      in if length (cc_APIKeyPepper cfg) = 0 then (cfg, Some PepperRequired) else (cfg, None))"

definition LoadRelay :: "environment \<Rightarrow> relay_config" where
  "LoadRelay env =
     \<lparr>rc_ControllerURL = env ''LINKBIT_CONTROLLER_URL'',
      rc_APIKey = env ''LINKBIT_API_KEY'',
      rc_RelayID = env ''LINKBIT_RELAY_ID'',
      rc_Name = getenv env ''LINKBIT_RELAY_NAME'' ''linkbit-relay'',
      rc_PublicURL = env ''LINKBIT_RELAY_PUBLIC_URL'',
      rc_Region = getenv env ''LINKBIT_RELAY_REGION'' ''default'',
      rc_ListenAddr = getenv env ''LINKBIT_LISTEN_ADDR'' '':8443'',
      rc_Heartbeat = getenvDuration env ''LINKBIT_HEARTBEAT_SECONDS'' (30 * duration_second)\<rparr>"

definition LoadAgent ::
  "(string list \<Rightarrow> string) \<Rightarrow> string option \<Rightarrow> string option \<Rightarrow> environment \<Rightarrow> agent_config" where
  "LoadAgent join os_name config_dir env =
     \<lparr>ac_ControllerURL = env ''LINKBIT_CONTROLLER_URL'',
      ac_EnrollmentKey = env ''LINKBIT_ENROLLMENT_KEY'',
      ac_DeviceName = getenv env ''LINKBIT_DEVICE_NAME'' (hostname os_name),
      ac_HealthEvery = getenvDuration env ''LINKBIT_HEALTH_SECONDS'' (30 * duration_second),
      ac_RelayEnabled = getenvBool env ''LINKBIT_TCP_RELAY_ENABLED'' True,
      ac_RelayPollEvery = getenvDuration env ''LINKBIT_TCP_RELAY_POLL_SECONDS'' (2 * duration_second),
      ac_WireGuardInterface = getenv env ''LINKBIT_WG_INTERFACE'' ''linkbit0'',
      ac_WireGuardPrivateKey = env ''LINKBIT_WG_PRIVATE_KEY'',
      ac_WireGuardPublicKey = env ''LINKBIT_WG_PUBLIC_KEY'',
      ac_WireGuardDryRun = getenvBool env ''LINKBIT_WG_DRY_RUN'' False,
      ac_StatePath = getenv env ''LINKBIT_STATE_PATH'' (defaultAgentStatePath join config_dir),
      ac_DeviceFingerprint = env ''LINKBIT_DEVICE_FINGERPRINT'',
      ac_Endpoint = env ''LINKBIT_ENDPOINT'',
      ac_RunOnce = getenvBool env ''LINKBIT_RUN_ONCE'' False\<rparr>"

section \<open>Properties\<close>

lemma mul_seconds_eq: "mul_seconds n = (n * 1000000000 + 2 ^ 63) mod 2 ^ 64 - 2 ^ 63"
proof -
  have "mul_seconds n = sint (word_of_int (n * 1000000000) :: 64 word)"
    unfolding mul_seconds_def by simp
  also have "\<dots> = (n * 1000000000 + 2 ^ 63) mod 2 ^ 64 - 2 ^ 63"
    by (subst int_word_sint) simp
  finally show ?thesis .
qed

lemma mul_seconds_exact:
  "0 < n \<Longrightarrow> n \<le> 9223372036 \<Longrightarrow> mul_seconds n = n * duration_second"
  by (simp add: mul_seconds_eq)

lemma getenvDuration_cases:
  "getenvDuration env key fallback =
     (case atoi (env key) of
        None \<Rightarrow> fallback
      | Some seconds \<Rightarrow> if seconds \<le> 0 then fallback else mul_seconds seconds)"
proof (cases "env key = ''''")
  case True
  moreover have "atoi '''' = None" unfolding atoi_def by simp
  ultimately show ?thesis by (simp only: getenvDuration_def Let_def) simp
next
  case False
  then show ?thesis by (simp only: getenvDuration_def Let_def) simp
qed

lemma getenvDuration_overflow:
  assumes "env key = ''9223372037''"
  shows "getenvDuration env key fallback < 0"
proof -
  have "atoi ''9223372037'' = Some 9223372037" unfolding atoi_def by (simp add: digit_of_def)
  moreover have "mul_seconds 9223372037 < 0" by (simp add: mul_seconds_eq)
  ultimately show ?thesis by (simp add: getenvDuration_cases assms)
qed

text \<open>
  A duration variable of the environment gives a usable ticker interval: for a positive
  fallback the result is positive, it is the fallback for an empty, malformed or non-positive
  value, and for every number of seconds up to 9223372036 it is exactly that many seconds.
  The bound is sharp: one second more overflows the 64-bit nanoseconds and gives a negative
  interval, on which \<open>time.NewTicker\<close> panics.
\<close>

theorem getenvDuration_range:
  assumes "0 < fallback" and "\<And>n. atoi (env key) = Some n \<Longrightarrow> n \<le> 9223372036"
  shows "0 < getenvDuration env key fallback
       \<and> getenvDuration env key fallback =
           (case atoi (env key) of
              Some n \<Rightarrow> if 0 < n then n * duration_second else fallback
            | None \<Rightarrow> fallback)
       \<and> getenvDuration (\<lambda>k. ''9223372037'') key fallback < 0"
proof (intro conjI)
  show "getenvDuration (\<lambda>k. ''9223372037'') key fallback < 0"
    by (rule getenvDuration_overflow) (rule refl)
  show eq: "getenvDuration env key fallback =
           (case atoi (env key) of
              Some n \<Rightarrow> if 0 < n then n * duration_second else fallback
            | None \<Rightarrow> fallback)"
    using assms(2) mul_seconds_exact by (auto simp: getenvDuration_cases split: option.split)
  show "0 < getenvDuration env key fallback"
    unfolding eq using assms(1) by (simp split: option.split)
qed

theorem getenvDuration_range_witness:
  "getenvDuration (\<lambda>k. ''15'') ''LINKBIT_HEALTH_SECONDS'' 30000000000 = 15000000000"
proof -
  have "atoi ''15'' = Some 15" unfolding atoi_def by (simp add: digit_of_def)
  then show ?thesis
    using getenvDuration_range [of 30000000000 "\<lambda>k. ''15''" "''LINKBIT_HEALTH_SECONDS''"] by simp
qed

text \<open>
  The controller refuses to start exactly when the pepper of its key digests is missing;
  otherwise its key table and hub get the documented defaults for what is unset.
\<close>

theorem LoadController_requires_pepper:
  "(snd (LoadController env) = Some PepperRequired \<longleftrightarrow> env ''LINKBIT_API_KEY_PEPPER'' = '''')
   \<and> cc_APIKeyPepper (fst (LoadController env)) = env ''LINKBIT_API_KEY_PEPPER''
   \<and> cc_ListenAddr (fst (LoadController env)) \<noteq> ''''
   \<and> cc_HubWireGuardNetwork (fst (LoadController env)) \<noteq> ''''
   \<and> cc_HubWireGuardNetwork (fst (LoadController (\<lambda>k. ''''))) = ''10.88.0.0/16''"
  by (simp add: LoadController_def Let_def getenv_def DefaultListenAddr_def)

end
