(* ===== verification/Command_Trace.thy ===== *)
theory Command_Trace
  imports Linkbit_Prelude
begin

text \<open>
  What the hub and the agent do to the machine they run on. The commands \<open>ip\<close>, \<open>wg\<close>, \<open>sysctl\<close>
  and \<open>ping\<close> are external programs: the effect is a trace, a list of events, and whether a
  command succeeds is decided by a runner, an arbitrary function of the trace so far and the
  command.
\<close>

section \<open>Traces\<close>

datatype event = KeyFile string string | Ran "string list" | Removed string

type_synonym runner = "event list \<Rightarrow> string list \<Rightarrow> bool"

definition runCommand :: "runner \<Rightarrow> string list \<Rightarrow> event list \<Rightarrow> bool \<times> event list" where
  "runCommand run cmd tr = (run tr cmd, tr @ [Ran cmd])"

text \<open>A row of commands that stops at the first failure of one that must succeed.\<close>

fun run_all :: "runner \<Rightarrow> (bool \<times> string list) list \<Rightarrow> event list \<Rightarrow> bool \<times> event list" where
  "run_all run [] tr = (True, tr)"
| "run_all run ((must, cmd) # cmds) tr =
     (case runCommand run cmd tr of
        (ok, tr') \<Rightarrow> if must \<and> \<not> ok then (False, tr') else run_all run cmds tr')"

section \<open>Where a row of commands stops\<close>

text \<open>Whether the command at position \<open>m\<close>, run after those before it, is one that stops the row.\<close>

definition stops_at :: "runner \<Rightarrow> event list \<Rightarrow> (bool \<times> string list) list \<Rightarrow> nat \<Rightarrow> bool" where
  "stops_at run tr cmds m \<longleftrightarrow>
     fst (cmds ! m) \<and> \<not> run (tr @ map Ran (take m (map snd cmds))) (snd (cmds ! m))"

lemma stops_at_Cons [simp]:
  "stops_at run tr (x # cmds) 0 \<longleftrightarrow> fst x \<and> \<not> run tr (snd x)"
  "stops_at run tr (x # cmds) (Suc m) \<longleftrightarrow> stops_at run (tr @ [Ran (snd x)]) cmds m"
  by (simp_all add: stops_at_def)

lemma run_all_trace:
  "run_all run cmds tr = (ok, tr') \<Longrightarrow>
   \<exists>n. tr' = tr @ map Ran (take n (map snd cmds)) \<and> n \<le> length cmds
     \<and> (if ok then n = length cmds \<and> (\<forall>m < n. \<not> stops_at run tr cmds m)
        else 0 < n \<and> stops_at run tr cmds (n - 1) \<and> (\<forall>m < n - 1. \<not> stops_at run tr cmds m))"
proof (induction cmds arbitrary: tr)
  case Nil
  then show ?case by simp
next
  case (Cons x cmds)
  show ?case
  proof (cases "stops_at run tr (x # cmds) 0")
    case True
    with Cons.prems show ?thesis by (cases x) (intro exI [of _ 1], auto simp: runCommand_def)
  next
    case False
    then have "run_all run cmds (tr @ [Ran (snd x)]) = (ok, tr')"
      using Cons.prems by (cases x) (auto simp: runCommand_def split: if_splits)
    from Cons.IH [OF this] obtain n where
      n: "tr' = (tr @ [Ran (snd x)]) @ map Ran (take n (map snd cmds))" "n \<le> length cmds"
      "if ok then n = length cmds \<and> (\<forall>m < n. \<not> stops_at run (tr @ [Ran (snd x)]) cmds m)
       else 0 < n \<and> stops_at run (tr @ [Ran (snd x)]) cmds (n - 1)
         \<and> (\<forall>m < n - 1. \<not> stops_at run (tr @ [Ran (snd x)]) cmds m)"
      by blast
    have "(\<forall>m < Suc k. \<not> stops_at run tr (x # cmds) m)
        \<longleftrightarrow> (\<forall>m < k. \<not> stops_at run (tr @ [Ran (snd x)]) cmds m)" for k
      using False by (auto simp: less_Suc_eq_0_disj)
    moreover have "stops_at run tr (x # cmds) n" if "0 < n" "stops_at run (tr @ [Ran (snd x)]) cmds (n - 1)"
      using that by (cases n) simp_all
    moreover have "(\<forall>m < n. \<not> stops_at run tr (x # cmds) m)"
      if "0 < n" "\<forall>m < n - 1. \<not> stops_at run (tr @ [Ran (snd x)]) cmds m"
      using that False by (cases n) (auto simp: less_Suc_eq_0_disj)
    ultimately show ?thesis
      using n by (intro exI [of _ "Suc n"]) (simp split: if_splits)
  qed
qed

lemma run_all_succeeds [simp]: "run_all (\<lambda>tr c. True) cmds tr = (True, tr @ map Ran (map snd cmds))"
proof (induction cmds arbitrary: tr)
  case (Cons x cmds)
  then show ?case by (cases x) (simp add: runCommand_def)
qed simp

end
