(* ===== verification/Policy.thy ===== *)
theory Policy
  imports Models Go_Net
begin

text \<open>
  The pure decisions of internal/controller/server.go: which peers a device may see under the
  stored policies (\<open>allowedPeers\<close>, \<open>policyAllows\<close>), whether an endpoint is well formed
  (\<open>validWireGuardEndpoint\<close>), which scope an API key needs (\<open>scopeAllowed\<close>) and the virtual
  address of a new device (\<open>virtualIPFromUUID\<close>). A declarative reading of the policies
  (\<open>may_reach\<close>) is the specification that \<open>allowedPeers\<close> is compared with.
\<close>

section \<open>Policies\<close>

definition policyAllows :: "string \<Rightarrow> device \<Rightarrow> bool" where
  "policyAllows selector d = (selector = ''*'' \<or> selector = d_ID d \<or> selector = d_GroupID d)"

text \<open>The map \<open>allowed\<close> after the first loop, as the list of its keys.\<close>

fun allowed_targets :: "device \<Rightarrow> network_policy list \<Rightarrow> string list" where
  "allowed_targets d [] = []"
| "allowed_targets d (p # ps) =
     (if \<not> p_Enabled p then allowed_targets d ps
      else if policyAllows (p_SourceID p) d then p_TargetID p # allowed_targets d ps
      else allowed_targets d ps)"

definition peer_of :: "device \<Rightarrow> network_peer" where
  "peer_of c = \<lparr>np_ID = d_ID c, np_Name = d_Name c, np_VirtualIP = d_VirtualIP c,
     np_PublicKey = d_PublicKey c, np_Endpoint = d_Endpoint c, np_AllowedIPs = []\<rparr>"

fun collect_peers :: "device \<Rightarrow> string list \<Rightarrow> device list \<Rightarrow> network_peer list" where
  "collect_peers d allowed [] = []"
| "collect_peers d allowed (c # cs) =
     (if d_ID c = d_ID d then collect_peers d allowed cs
      else if d_ID c \<in> set allowed \<or> d_GroupID c \<in> set allowed \<or> ''*'' \<in> set allowed
      then peer_of c # collect_peers d allowed cs
      else collect_peers d allowed cs)"

definition allowedPeers :: "device \<Rightarrow> device list \<Rightarrow> network_policy list \<Rightarrow> network_peer list" where
  "allowedPeers d devices policies = collect_peers d (allowed_targets d policies) devices"

text \<open>The specification: an enabled policy whose source selects one device and target the other.\<close>

definition may_reach :: "network_policy list \<Rightarrow> device \<Rightarrow> device \<Rightarrow> bool" where
  "may_reach policies d c \<longleftrightarrow>
     d_ID c \<noteq> d_ID d
     \<and> (\<exists>p \<in> set policies. p_Enabled p \<and> policyAllows (p_SourceID p) d \<and> policyAllows (p_TargetID p) c)"

lemma set_allowed_targets:
  "set (allowed_targets d ps) = p_TargetID ` {p \<in> set ps. p_Enabled p \<and> policyAllows (p_SourceID p) d}"
  by (induction ps) auto

lemma collect_peers_filter:
  "collect_peers d al cs =
     map peer_of (filter (\<lambda>c. d_ID c \<noteq> d_ID d
       \<and> (d_ID c \<in> set al \<or> d_GroupID c \<in> set al \<or> ''*'' \<in> set al)) cs)"
  by (induction cs) auto

lemma allowed_targets_reach:
  "d_ID c \<noteq> d_ID d
     \<and> (d_ID c \<in> set (allowed_targets d ps) \<or> d_GroupID c \<in> set (allowed_targets d ps)
        \<or> ''*'' \<in> set (allowed_targets d ps))
   \<longleftrightarrow> may_reach ps d c"
  by (auto simp: set_allowed_targets may_reach_def policyAllows_def image_iff)

lemma allowedPeers_eq: "allowedPeers d cs ps = map peer_of (filter (may_reach ps d) cs)"
  by (simp add: allowedPeers_def collect_peers_filter allowed_targets_reach)

lemma np_ID_peer_of [simp]: "np_ID (peer_of c) = d_ID c"
  by (simp add: peer_of_def)

lemma allowedPeers_IDs: "np_ID ` set (allowedPeers d cs ps) = d_ID ` {c \<in> set cs. may_reach ps d c}"
  by (simp add: allowedPeers_eq image_image)

lemma may_reach_mono: "set ps \<subseteq> set qs \<Longrightarrow> may_reach ps d c \<Longrightarrow> may_reach qs d c"
  by (auto simp: may_reach_def)

section \<open>Scopes\<close>

fun scopeAllowed :: "string \<Rightarrow> string list \<Rightarrow> bool" where
  "scopeAllowed actual [] = False"
| "scopeAllowed actual (scope # allowed) = (if actual = scope then True else scopeAllowed actual allowed)"

lemma scopeAllowed_iff [simp]: "scopeAllowed a xs \<longleftrightarrow> a \<in> set xs"
  by (induction xs) auto

section \<open>Endpoints\<close>

definition endpoint_blanks :: string where
  "endpoint_blanks = [CHR 0x20, CHR 0x09, CHR 0x0D, CHR 0x0A]"

definition validWireGuardEndpoint :: "string \<Rightarrow> bool" where
  "validWireGuardEndpoint endpoint =
     (if endpoint = '''' then True
      else if contains_any endpoint endpoint_blanks then False
      else
        (case split_host_port endpoint of
           Inl _ \<Rightarrow> False
         | Inr (host, portValue) \<Rightarrow>
             if host = '''' \<or> portValue = '''' then False
             else (case atoi portValue of
                     None \<Rightarrow> False
                   | Some port \<Rightarrow> \<not> (port < 1 \<or> port > 65535))))"

lemma contains_any_iff: "contains_any s cs \<longleftrightarrow> (\<exists>c \<in> set s. c \<in> set cs)"
  by (simp add: contains_any_def list_ex_iff)

text \<open>What an accepted endpoint looks like: \<open>host:port\<close> or \<open>[host]:port\<close> with a port in range.\<close>

lemma validWireGuardEndpointD:
  assumes "validWireGuardEndpoint e" and "e \<noteq> ''''"
  shows "\<exists>host port n. (e = host @ CHR '':'' # port \<and> CHR '':'' \<notin> set host
                        \<or> e = CHR ''['' # host @ '']:'' @ port)
           \<and> host \<noteq> '''' \<and> atoi port = Some n \<and> 1 \<le> n \<and> n \<le> 65535
           \<and> set e \<inter> set endpoint_blanks = {}"
proof -
  obtain host port n where s: "split_host_port e = Inr (host, port)" and h: "host \<noteq> ''''"
    and n: "atoi port = Some n" "1 \<le> n" "n \<le> 65535" and b: "\<not> contains_any e endpoint_blanks"
    using assms
    by (auto simp: validWireGuardEndpoint_def split: if_splits sum.splits prod.splits option.splits)
  from split_host_port_InrD [OF s] have
    "e = host @ CHR '':'' # port \<and> CHR '':'' \<notin> set host \<or> e = CHR ''['' # host @ '']:'' @ port"
    by blast
  moreover have "set e \<inter> set endpoint_blanks = {}"
    using b by (auto simp: contains_any_iff)
  ultimately show ?thesis using h n by blast
qed

lemma dec_string_blank_free: "set (dec_string n) \<inter> set endpoint_blanks = {}"
  by (auto dest!: dec_string_digits simp: endpoint_blanks_def)

lemma join_host_port_valid:
  assumes "host \<noteq> ''''" and "CHR ''['' \<notin> set host" and "CHR '']'' \<notin> set host"
    and "set host \<inter> set endpoint_blanks = {}" and "1 \<le> n" and "n \<le> 65535"
  shows "validWireGuardEndpoint (join_host_port host (itoa n))"
proof -
  let ?p = "itoa n"
  have p: "?p = dec_string (nat n)" using assms(5) by (simp add: itoa_def)
  have s: "split_host_port (join_host_port host ?p) = Inr (host, ?p)"
    using assms(2,3) by (intro split_join_host_port) (simp_all add: p)
  have "set (join_host_port host ?p) \<inter> set endpoint_blanks = {}"
    using assms(4) dec_string_blank_free [of "nat n"]
    by (auto simp: join_host_port_def p) (auto simp: endpoint_blanks_def)
  then have b: "\<not> contains_any (join_host_port host ?p) endpoint_blanks"
    by (auto simp: contains_any_iff)
  have a: "atoi ?p = Some n" using assms(5,6) by (intro atoi_itoa) auto
  have "?p \<noteq> ''''" by (simp add: p)
  with s b a assms(1,5,6) show ?thesis
    by (simp add: validWireGuardEndpoint_def)
qed

section \<open>Virtual addresses\<close>

text \<open>The first two bytes of a random UUID.\<close>

definition virtualIPFromUUID :: "8 word \<times> 8 word \<Rightarrow> string" where
  "virtualIPFromUUID bytes =
     ''10.88.'' @ dec_string (unat (fst bytes)) @ ''.'' @ dec_string (unat (snd bytes))"

lemma append_dot_eqD:
  assumes "a @ CHR ''.'' # b = a' @ CHR ''.'' # b'" "CHR ''.'' \<notin> set a" "CHR ''.'' \<notin> set a'"
  shows "a = a' \<and> b = b'"
proof -
  have t: "takeWhile (\<lambda>c. c \<noteq> CHR ''.'') (x @ CHR ''.'' # y) = x" if "CHR ''.'' \<notin> set x" for x y
    using that by (induction x) auto
  have "a = a'" using arg_cong [OF assms(1), of "takeWhile (\<lambda>c. c \<noteq> CHR ''.'')"] assms(2,3)
    by (simp add: t)
  with assms(1) show ?thesis by simp
qed

lemma virtualIP_inj: "virtualIPFromUUID x = virtualIPFromUUID y \<Longrightarrow> x = y"
proof -
  assume "virtualIPFromUUID x = virtualIPFromUUID y"
  then have "dec_string (unat (fst x)) @ CHR ''.'' # dec_string (unat (snd x))
      = dec_string (unat (fst y)) @ CHR ''.'' # dec_string (unat (snd y))"
    by (simp add: virtualIPFromUUID_def)
  then have "dec_string (unat (fst x)) = dec_string (unat (fst y))
      \<and> dec_string (unat (snd x)) = dec_string (unat (snd y))"
    by (rule append_dot_eqD) simp_all
  then show "x = y"
    by (auto dest!: dec_string_inj simp: prod_eq_iff word_unat_eq_iff)
qed

end
