(* ===== verification/Wireguard_Hub.thy ===== *)
theory Wireguard_Hub
  imports Command_Trace Policy Go_IP Config Derp_Map
begin

text \<open>
  internal/controller/wireguard_hub.go: the controller's own WireGuard interface, as the trace of
  the commands it runs. \<open>wg pubkey\<close> and the creation of the temporary key file are arguments
  (None when they fail).
\<close>

section \<open>The hub\<close>

record hub =
  h_cfg :: controller_config
  h_publicKey :: string
  h_endpoint :: string

datatype hub_error = KeyRequired | PortOutOfRange | BadEndpoint | PublicKeyFailed

definition defaultHubEndpoint :: "url_parser \<Rightarrow> string \<Rightarrow> int \<Rightarrow> string" where
  "defaultHubEndpoint url_parse publicURL port =
     (let host = trim_space publicURL;
          host1 = (case url_parse publicURL of
              Some (scheme, hostfield) \<Rightarrow>
                if fst (url_host_port hostfield) \<noteq> '''' then fst (url_host_port hostfield) else host
            | None \<Rightarrow> host);
          host2 = (if ParseIP host1 \<noteq> None \<and> CHR '':'' \<in> set host1
                   then CHR ''['' # host1 @ '']'' else host1)
      in if host2 = '''' then '''' else join_host_port host2 (itoa port))"

text \<open>\<open>wg pubkey\<close> reads the private key as a line of its input; None when it fails.\<close>

definition wireGuardPublicKey :: "(string \<Rightarrow> string option) \<Rightarrow> string \<Rightarrow> string option" where
  "wireGuardPublicKey wg_pubkey privateKey =
     (case wg_pubkey (trim_space privateKey @ [CHR 0x0A]) of
        None \<Rightarrow> None
      | Some stdout \<Rightarrow> Some (trim_space stdout))"

definition NewWireGuardHub ::
  "url_parser \<Rightarrow> (string \<Rightarrow> string option) \<Rightarrow> controller_config \<Rightarrow> hub_error + hub option" where
  "NewWireGuardHub url_parse wg_pubkey cfg =
     (if \<not> cc_HubWireGuardEnabled cfg then Inr None
      else if trim_space (cc_HubWireGuardKey cfg) = '''' then Inl KeyRequired
      else if cc_HubWireGuardPort cfg < 1 \<or> cc_HubWireGuardPort cfg > 65535 then Inl PortOutOfRange
      else
        (let endpoint0 = trim_space (cc_HubWireGuardEndpoint cfg);
             endpoint = (if endpoint0 = ''''
               then defaultHubEndpoint url_parse (cc_PublicURL cfg) (cc_HubWireGuardPort cfg)
               else endpoint0)
         in if \<not> validWireGuardEndpoint endpoint then Inl BadEndpoint
            else (case wireGuardPublicKey wg_pubkey (cc_HubWireGuardKey cfg) of
                    None \<Rightarrow> Inl PublicKeyFailed
                  | Some publicKey \<Rightarrow>
                      Inr (Some \<lparr>h_cfg = cfg, h_publicKey = publicKey, h_endpoint = endpoint\<rparr>))))"

definition NetworkPeer :: "hub option \<Rightarrow> network_peer" where
  "NetworkPeer h =
     (case h of
        None \<Rightarrow> \<lparr>np_ID = '''', np_Name = '''', np_VirtualIP = '''', np_PublicKey = '''',
                 np_Endpoint = '''', np_AllowedIPs = []\<rparr>
      | Some h \<Rightarrow> \<lparr>np_ID = ''linkbit-hub'', np_Name = ''Linkbit Hub'',
                   np_VirtualIP = cc_HubWireGuardIP (h_cfg h), np_PublicKey = h_publicKey h,
                   np_Endpoint = h_endpoint h, np_AllowedIPs = [cc_HubWireGuardNetwork (h_cfg h)]\<rparr>)"

definition deviceInHubNetwork :: "hub \<Rightarrow> string \<Rightarrow> bool" where
  "deviceInHubNetwork h virtualIP =
     (case ParseIP (trim_space virtualIP) of
        None \<Rightarrow> False
      | Some ip \<Rightarrow>
          (case ParseCIDR (cc_HubWireGuardNetwork (h_cfg h)) of
             None \<Rightarrow> False
           | Some network \<Rightarrow> net_contains network ip))"

section \<open>Synchronising the interface\<close>

definition setup_commands :: "hub \<Rightarrow> string \<Rightarrow> (bool \<times> string list) list" where
  "setup_commands h keyFile =
     (let iface = cc_HubWireGuardIface (h_cfg h)
      in [(False, [''ip'', ''link'', ''del'', iface]),
          (True, [''ip'', ''link'', ''add'', ''dev'', iface, ''type'', ''wireguard'']),
          (True, [''wg'', ''set'', iface, ''private-key'', keyFile,
                  ''listen-port'', itoa (cc_HubWireGuardPort (h_cfg h))]),
          (True, [''ip'', ''address'', ''replace'', cc_HubWireGuardIP (h_cfg h) @ ''/16'', ''dev'', iface]),
          (True, [''ip'', ''link'', ''set'', ''dev'', iface, ''mtu'', ''1180'']),
          (True, [''ip'', ''link'', ''set'', ''up'', ''dev'', iface]),
          (False, [''sysctl'', ''-w'', ''net.ipv4.ip_forward=1''])])"

definition peer_command :: "hub \<Rightarrow> device \<Rightarrow> string list" where
  "peer_command h d = [''wg'', ''set'', cc_HubWireGuardIface (h_cfg h), ''peer'', d_PublicKey d,
     ''allowed-ips'', d_VirtualIP d @ ''/32'']"

fun sync_peers :: "runner \<Rightarrow> hub \<Rightarrow> device list \<Rightarrow> event list \<Rightarrow> event list" where
  "sync_peers run h [] tr = tr"
| "sync_peers run h (d # ds) tr =
     (if d_PublicKey d = '''' \<or> d_VirtualIP d = '''' then sync_peers run h ds tr
      else if \<not> deviceInHubNetwork h (d_VirtualIP d) then sync_peers run h ds tr
      else (case runCommand run (peer_command h d) tr of
              (ok, tr') \<Rightarrow> if \<not> ok then sync_peers run h ds tr' else sync_peers run h ds tr'))"

text \<open>
  The result says whether \<open>Sync\<close> returned nil. The deferred removal of the key file runs on
  every path that created it.
\<close>

definition Sync ::
  "runner \<Rightarrow> string option \<Rightarrow> hub option \<Rightarrow> device list \<Rightarrow> event list \<Rightarrow> bool \<times> event list" where
  "Sync run tempfile ho devices tr =
     (case ho of
        None \<Rightarrow> (True, tr)
      | Some h \<Rightarrow>
          (case tempfile of
             None \<Rightarrow> (False, tr)
           | Some keyFile \<Rightarrow>
               (let tr0 = tr @ [KeyFile keyFile (trim_space (cc_HubWireGuardKey (h_cfg h)) @ [CHR 0x0A])]
                in case run_all run (setup_commands h keyFile) tr0 of
                     (False, tr1) \<Rightarrow> (False, tr1 @ [Removed keyFile])
                   | (True, tr1) \<Rightarrow> (True, sync_peers run h devices tr1 @ [Removed keyFile]))))"

text \<open>\<open>SyncFromStore\<close> with the outcome of \<open>listDevices\<close>, None for an error; failures are only logged.\<close>

definition SyncFromStore ::
  "runner \<Rightarrow> string option \<Rightarrow> hub option \<Rightarrow> device list option \<Rightarrow> event list \<Rightarrow> event list" where
  "SyncFromStore run tempfile ho listed tr =
     (case ho of
        None \<Rightarrow> tr
      | Some h \<Rightarrow>
          (case listed of
             None \<Rightarrow> tr
           | Some devices \<Rightarrow> snd (Sync run tempfile ho devices tr)))"

section \<open>Properties of the trace\<close>

definition hub_peers :: "hub \<Rightarrow> device list \<Rightarrow> device list" where
  "hub_peers h devices = filter (\<lambda>d. d_PublicKey d \<noteq> '''' \<and> d_VirtualIP d \<noteq> ''''
     \<and> deviceInHubNetwork h (d_VirtualIP d)) devices"

lemma sync_peers_trace:
  "sync_peers run h devices tr = tr @ map (\<lambda>d. Ran (peer_command h d)) (hub_peers h devices)"
  by (induction devices arbitrary: tr) (auto simp: hub_peers_def runCommand_def)

text \<open>
  C13: A synchronisation leaves a definite trace: the key file is written first and removed last
  on every path. In between come the setup commands: all of them if each one that must succeed
  did, else those up to and including the first one that failed, and then nothing else. After
  a full setup there is one peer command per device with a key and an address in the hub's
  network, in the order of the devices, whether or not those commands succeed.
\<close>

theorem hub_sync_trace:
  assumes "Sync run (Some keyFile) (Some h) devices [] = (ok, tr)"
    and "start = KeyFile keyFile (trim_space (cc_HubWireGuardKey (h_cfg h)) @ [CHR 0x0A])"
    and "setup = setup_commands h keyFile"
  shows "\<exists>n \<le> length setup.
           tr = start # map Ran (take n (map snd setup))
               @ (if ok then map (\<lambda>d. Ran (peer_command h d)) (hub_peers h devices) else [])
               @ [Removed keyFile]
           \<and> (if ok then n = length setup \<and> (\<forall>m < n. \<not> stops_at run [start] setup m)
              else 0 < n \<and> stops_at run [start] setup (n - 1) \<and> (\<forall>m < n - 1. \<not> stops_at run [start] setup m))"
proof -
  obtain b tr1 where r: "run_all run setup [start] = (b, tr1)" by fastforce
  have ok: "ok = b" and tr: "tr = (if b then sync_peers run h devices tr1 else tr1) @ [Removed keyFile]"
    using assms r by (auto simp: Sync_def split: bool.splits)
  from run_all_trace [OF r] obtain n where n: "tr1 = [start] @ map Ran (take n (map snd setup))" "n \<le> length setup"
    "if b then n = length setup \<and> (\<forall>m < n. \<not> stops_at run [start] setup m)
     else 0 < n \<and> stops_at run [start] setup (n - 1) \<and> (\<forall>m < n - 1. \<not> stops_at run [start] setup m)" by blast
  show ?thesis
    by (rule exI [of _ n], intro conjI n(2)) (use n(1,3) in \<open>simp_all add: tr ok sync_peers_trace\<close>)
qed

definition demo_config :: controller_config where
  "demo_config = (fst (LoadController (\<lambda>k. '''')))\<lparr>cc_HubWireGuardKey := ''key''\<rparr>"

definition demo_hub :: hub where
  "demo_hub = \<lparr>h_cfg = demo_config, h_publicKey = ''pub'', h_endpoint = ''hub.example:41641''\<rparr>"

lemma demo_default:
  "cc_HubWireGuardNetwork (fst (LoadController (\<lambda>k. ''''))) = ''10.88.0.0/16''"
  "cc_HubWireGuardPort (fst (LoadController (\<lambda>k. ''''))) = 41641"
  "cc_HubWireGuardEndpoint (fst (LoadController (\<lambda>k. ''''))) = ''''"
  "cc_HubWireGuardIP (fst (LoadController (\<lambda>k. ''''))) = ''10.88.0.1''"
  by (simp_all add: LoadController_def Let_def getenv_def getenvInt_def)

theorem hub_sync_trace_witness:
  "last (snd (Sync (\<lambda>tr c. hd c = ''ip'') (Some ''/tmp/k'') (Some demo_hub) [] [])) = Removed ''/tmp/k''"
proof -
  obtain ok tr where s: "Sync (\<lambda>tr c. hd c = ''ip'') (Some ''/tmp/k'') (Some demo_hub) [] [] = (ok, tr)"
    by fastforce
  from hub_sync_trace [OF s refl refl] show ?thesis by (auto simp: s)
qed

section \<open>Addresses and endpoints\<close>

lemma mask16: "x \<le> 255 \<Longrightarrow> y \<le> 255 \<Longrightarrow> mask_bits 16 [10, 88, x, y] = [10, 88, 0, 0]"
  by simp

lemma dec_ten: "dec_string 10 = ''10''" "dec_string 88 = ''88''" "dec_string 0 = ''0''"
  by code_simp+

lemma demo_network: "ParseCIDR ''10.88.0.0/16'' = Some ([10, 88, 0, 0], 16)"
proof -
  have i: "index_byte ''10.88.0.0/16'' (CHR ''/'') = Some 9" by simp
  have t: "take 9 ''10.88.0.0/16'' = dotted 10 88 0 0"
    by (simp add: dotted_def dec_ten)
  have "parse_addr ''10.88.0.0'' = Some [10, 88, 0, 0]"
    using parse_addr_dotted [of 10 88 0 0] t by simp
  moreover have "digits_value 0 ''16'' = Some 16" by (simp add: digit_of_def)
  ultimately show ?thesis by (simp add: ParseCIDR_def i Let_def)
qed

lemma virtualIP_dotted:
  "virtualIPFromUUID b = dotted 10 88 (unat (fst b)) (unat (snd b))"
  by (simp add: virtualIPFromUUID_def dotted_def dec_ten)

lemma dotted_space_free: "space_free (dotted a b c d)"
proof -
  have "set (dotted a b c d) \<subseteq> set ''0123456789.''"
    by (auto simp: dotted_def dest!: dec_string_digits)
  moreover have "set ''0123456789.'' \<inter> set (concat space_encodings) = {}"
    by (simp add: space_encodings_def)
  ultimately show ?thesis by (auto simp: space_free_def)
qed

text \<open>
  Every address the controller assigns lies in the hub's default network, so a device with
  a key is never left out of the hub's peers for its address: it gets its peer command on every
  synchronisation that sets the interface up.
\<close>

theorem assigned_addresses_are_hub_peers:
  assumes "cc_HubWireGuardNetwork (h_cfg h) = ''10.88.0.0/16''"
    and "d \<in> set devices" and "d_VirtualIP d = virtualIPFromUUID bytes" and "d_PublicKey d \<noteq> ''''"
    and "Sync run (Some keyFile) (Some h) devices [] = (True, tr)"
  shows "deviceInHubNetwork h (virtualIPFromUUID bytes) \<and> Ran (peer_command h d) \<in> set tr"
proof -
  let ?x = "unat (fst bytes)" and ?y = "unat (snd bytes)"
  have b: "?x \<le> 255" "?y \<le> 255"
    using unsigned_less [of "fst bytes", where 'a = nat] unsigned_less [of "snd bytes", where 'a = nat] by simp_all
  have ip: "ParseIP (trim_space (virtualIPFromUUID bytes)) = Some (v4_prefix @ [10, 88, ?x, ?y])"
    using b by (simp add: virtualIP_dotted trim_space_id dotted_space_free ParseIP_dotted)
  have "net_contains ([10, 88, 0, 0], 16) (v4_prefix @ [10, 88, ?x, ?y])"
    using b by (simp add: net_contains_def To4_def v4_prefix_def)
  then have net: "deviceInHubNetwork h (virtualIPFromUUID bytes)"
    using ip by (simp add: deviceInHubNetwork_def assms(1) demo_network)
  moreover have "d_VirtualIP d \<noteq> ''''" by (simp add: assms(3) virtualIPFromUUID_def)
  ultimately have "d \<in> set (hub_peers h devices)"
    using assms(2,3,4) by (simp add: hub_peers_def)
  moreover obtain tr1 where "tr = sync_peers run h devices tr1 @ [Removed keyFile]"
    using assms(5) by (auto simp: Sync_def split: prod.splits bool.splits)
  ultimately show ?thesis using net by (auto simp: sync_peers_trace)
qed

theorem assigned_addresses_are_hub_peers_witness:
  "Ran (peer_command demo_hub (empty_device\<lparr>d_PublicKey := ''k'', d_VirtualIP := virtualIPFromUUID (3, 4)\<rparr>))
     \<in> set (snd (Sync (\<lambda>tr c. True) (Some ''/tmp/k'') (Some demo_hub)
         [empty_device\<lparr>d_PublicKey := ''k'', d_VirtualIP := virtualIPFromUUID (3, 4)\<rparr>] []))"
proof -
  let ?d = "empty_device\<lparr>d_PublicKey := ''k'', d_VirtualIP := virtualIPFromUUID (3, 4)\<rparr>"
  have net: "cc_HubWireGuardNetwork (h_cfg demo_hub) = ''10.88.0.0/16''"
    by (simp add: demo_hub_def demo_config_def demo_default)
  obtain ok tr where s: "Sync (\<lambda>tr c. True) (Some ''/tmp/k'') (Some demo_hub) [?d] [] = (ok, tr)" by fastforce
  then have "ok" by (auto simp: Sync_def setup_commands_def runCommand_def Let_def)
  with s have "Sync (\<lambda>tr c. True) (Some ''/tmp/k'') (Some demo_hub) [?d] [] = (True, tr)" by simp
  from assigned_addresses_are_hub_peers [OF net _ _ _ this, of ?d "(3, 4)"] show ?thesis by (simp add: s)
qed

text \<open>
  The hub's default endpoint is usable for a public URL with a clean host name or IPv4
  address and a port in range. For a URL whose host is an IPv6 address it never is: the address
  is bracketed twice, so with no explicit endpoint the hub refuses to start.
\<close>

theorem default_endpoint:
  assumes "url_parse (cc_PublicURL cfg) = Some (scheme, hostfield)"
    and "fst (url_host_port hostfield) = host" and "host \<noteq> ''''"
    and "CHR ''['' \<notin> set host" and "CHR '']'' \<notin> set host" and "set host \<inter> set endpoint_blanks = {}"
    and "cc_HubWireGuardEnabled cfg" and "trim_space (cc_HubWireGuardKey cfg) \<noteq> ''''"
    and "1 \<le> cc_HubWireGuardPort cfg" and "cc_HubWireGuardPort cfg \<le> 65535"
    and "trim_space (cc_HubWireGuardEndpoint cfg) = ''''"
  shows "(CHR '':'' \<notin> set host \<longrightarrow>
            validWireGuardEndpoint (defaultHubEndpoint url_parse (cc_PublicURL cfg) (cc_HubWireGuardPort cfg)))
       \<and> (CHR '':'' \<in> set host \<and> ParseIP host \<noteq> None \<longrightarrow>
            NewWireGuardHub url_parse wg_pubkey cfg = Inl BadEndpoint)"
proof (intro conjI impI)
  assume "CHR '':'' \<notin> set host"
  then have "defaultHubEndpoint url_parse (cc_PublicURL cfg) (cc_HubWireGuardPort cfg)
      = join_host_port host (itoa (cc_HubWireGuardPort cfg))"
    using assms(1-3) by (simp add: defaultHubEndpoint_def Let_def)
  then show "validWireGuardEndpoint (defaultHubEndpoint url_parse (cc_PublicURL cfg) (cc_HubWireGuardPort cfg))"
    using join_host_port_valid assms by simp
next
  assume v6: "CHR '':'' \<in> set host \<and> ParseIP host \<noteq> None"
  let ?e = "join_host_port (CHR ''['' # host @ '']'') (itoa (cc_HubWireGuardPort cfg))"
  have e: "defaultHubEndpoint url_parse (cc_PublicURL cfg) (cc_HubWireGuardPort cfg) = ?e"
    using assms(1-3) v6 by (auto simp: defaultHubEndpoint_def Let_def)
  obtain err where "split_host_port ?e = Inl err" using split_join_bracketed v6 by blast
  moreover have "?e \<noteq> ''''" by (simp add: join_host_port_def)
  ultimately have "\<not> validWireGuardEndpoint ?e" by (simp add: validWireGuardEndpoint_def)
  then show "NewWireGuardHub url_parse wg_pubkey cfg = Inl BadEndpoint"
    using assms(7-11) by (simp add: NewWireGuardHub_def e)
qed

theorem default_endpoint_witness:
  "NewWireGuardHub (\<lambda>s. Some (''https'', ''[::1]'')) (\<lambda>k. Some ''pub'')
     (demo_config\<lparr>cc_HubWireGuardEnabled := True\<rparr>) = Inl BadEndpoint"
proof -
  have h: "fst (url_host_port ''[::1]'') = ''::1''" by code_simp
  have ip: "ParseIP ''::1'' \<noteq> None" by code_simp
  have k: "trim_space ''key'' = ''key''" by (rule trim_space_id) (simp add: space_free_def space_encodings_def)
  show ?thesis
    using default_endpoint [of "\<lambda>s. Some (''https'', ''[::1]'')" "demo_config\<lparr>cc_HubWireGuardEnabled := True\<rparr>"
        "''https''" "''[::1]''" "''::1''" "\<lambda>k. Some ''pub''"] h ip
    by (simp add: demo_config_def demo_default k endpoint_blanks_def)
qed

end
