(* ===== verification/Sqlite_Store.thy ===== *)
theory Sqlite_Store
  imports Models "HOL-Library.List_Lexorder" "HOL-Library.Product_Lexorder" "HOL-Library.Char_ord"
begin

text \<open>
  The store of internal/store (the Store interface and its error test) and its SQLite
  implementation in internal/store/sqlite/store.go. The database is a record of tables, each
  the list of its rows in row order; every method is one definition that runs the same SQL
  statements on it. The connection pool holds one connection (\<open>SetMaxOpenConns(1)\<close>), so a
  statement is atomic. A statement can fail for reasons outside the program (disk, cancelled
  request): \<open>db_faults\<close> scripts, statement by statement, whether that happens, and a failed
  statement changes no row.

  A TEXT time column is modelled by the time itself: \<open>Go_Time\<close> proves that \<open>parseTime\<close> undoes
  \<open>formatTime\<close> for the years 1 to 9999, the zero time being the empty text. Only ORDER BY looks at the
  text. SQL leaves the order of rows with equal sort keys open; here they stay in row order,
  and no theorem depends on that choice.
\<close>

section \<open>Errors and the database\<close>

datatype store_err = ErrNoRows | ErrConstraint | ErrIO

definition IsNotFound :: "store_err \<Rightarrow> bool" where
  "IsNotFound err = (err = ErrNoRows)"

record db =
  db_users :: "user list"
  db_groups :: "device_group list"
  db_relays :: "relay_node list"
  db_invitations :: "invitation list"
  db_api_keys :: "api_key list"
  db_devices :: "device list"
  db_policies :: "network_policy list"
  db_faults :: "bool list"

type_synonym 'a stmt = "db \<Rightarrow> (store_err + 'a) \<times> db"

definition empty_db :: db where
  "empty_db = \<lparr>db_users = [], db_groups = [], db_relays = [], db_invitations = [],
     db_api_keys = [], db_devices = [], db_policies = [], db_faults = []\<rparr>"

text \<open>One SQL statement: the next entry of the fault script, if any, decides whether it runs.\<close>

definition exec_stmt :: "'a stmt \<Rightarrow> 'a stmt" where
  "exec_stmt f s =
     (case db_faults s of
        [] \<Rightarrow> f s
      | fault # rest \<Rightarrow>
          if fault then (Inl ErrIO, s\<lparr>db_faults := rest\<rparr>) else f (s\<lparr>db_faults := rest\<rparr>))"

definition then_stmt :: "'a stmt \<Rightarrow> ('a \<Rightarrow> 'b stmt) \<Rightarrow> 'b stmt" where
  "then_stmt f g s = (case f s of (Inl e, s') \<Rightarrow> (Inl e, s') | (Inr a, s') \<Rightarrow> g a s')"

definition insert_into ::
  "('r \<Rightarrow> 'r \<Rightarrow> bool) \<Rightarrow> (db \<Rightarrow> 'r list) \<Rightarrow> ('r list \<Rightarrow> db \<Rightarrow> db) \<Rightarrow> 'r \<Rightarrow> unit stmt" where
  "insert_into conflict get put r =
     exec_stmt (\<lambda>s. case tbl_insert conflict r (get s) of
                      None \<Rightarrow> (Inl ErrConstraint, s)
                    | Some rows \<Rightarrow> (Inr (), put rows s))"

definition query_row :: "(db \<Rightarrow> 'r list) \<Rightarrow> ('r \<Rightarrow> bool) \<Rightarrow> 'r stmt" where
  "query_row get p =
     exec_stmt (\<lambda>s. (case find p (get s) of None \<Rightarrow> Inl ErrNoRows | Some r \<Rightarrow> Inr r, s))"

definition query_all :: "(db \<Rightarrow> 'a) \<Rightarrow> 'a stmt" where
  "query_all get = exec_stmt (\<lambda>s. (Inr (get s), s))"

text \<open>UPDATE and DELETE report the number of rows they touched; none is \<open>sql.ErrNoRows\<close>.\<close>

definition exec_rows :: "(db \<Rightarrow> nat) \<Rightarrow> (db \<Rightarrow> db) \<Rightarrow> unit stmt" where
  "exec_rows affected change =
     exec_stmt (\<lambda>s. (if affected s = 0 then Inl ErrNoRows else Inr (), change s))"

definition exec_quiet :: "(db \<Rightarrow> db) \<Rightarrow> unit stmt" where
  "exec_quiet change = exec_stmt (\<lambda>s. (Inr (), change s))"

text \<open>\<open>ORDER BY key DESC\<close> on a text column, and \<open>ORDER BY region, name\<close>.\<close>

definition order_desc :: "('r \<Rightarrow> string) \<Rightarrow> 'r list \<Rightarrow> 'r list" where
  "order_desc key rows = rev (sort_key key (rev rows))"

section \<open>Users and groups\<close>

definition CreateUser :: "user \<Rightarrow> unit stmt" where
  "CreateUser = insert_into (\<lambda>a b. u_ID a = u_ID b) db_users (\<lambda>rows s. s\<lparr>db_users := rows\<rparr>)"

definition ListUsers :: "user list stmt" where
  "ListUsers = query_all (\<lambda>s. order_desc (\<lambda>u. formatTime (u_CreatedAt u)) (db_users s))"

definition GetUser :: "string \<Rightarrow> user stmt" where
  "GetUser uid = query_row db_users (\<lambda>u. u_ID u = uid)"

definition CreateGroup :: "device_group \<Rightarrow> unit stmt" where
  "CreateGroup = insert_into (\<lambda>a b. g_ID a = g_ID b) db_groups (\<lambda>rows s. s\<lparr>db_groups := rows\<rparr>)"

definition ListGroups :: "device_group list stmt" where
  "ListGroups = query_all (\<lambda>s. order_desc (\<lambda>g. formatTime (g_CreatedAt g)) (db_groups s))"

definition GetGroup :: "string \<Rightarrow> device_group stmt" where
  "GetGroup gid = query_row db_groups (\<lambda>g. g_ID g = gid)"

section \<open>API keys\<close>

definition CreateAPIKey :: "api_key \<Rightarrow> unit stmt" where
  "CreateAPIKey k =
     insert_into (\<lambda>a b. k_ID a = k_ID b \<or> k_Digest a = k_Digest b) db_api_keys
       (\<lambda>rows s. s\<lparr>db_api_keys := rows\<rparr>) (k\<lparr>k_PlaintextKey := ''''\<rparr>)"

definition GetAPIKeyByDigest :: "string \<Rightarrow> api_key stmt" where
  "GetAPIKeyByDigest digest =
     query_row db_api_keys (\<lambda>k. k_Digest k = digest \<and> is_zero (k_RevokedAt k))"

definition TouchAPIKey :: "gotime \<Rightarrow> string \<Rightarrow> unit stmt" where
  "TouchAPIKey now kid =
     exec_quiet (\<lambda>s. s\<lparr>db_api_keys :=
       tbl_update (\<lambda>k. k_ID k = kid) (\<lambda>k. k\<lparr>k_LastUsedAt := now\<rparr>) (db_api_keys s)\<rparr>)"

definition RevokeAPIKey :: "gotime \<Rightarrow> string \<Rightarrow> unit stmt" where
  "RevokeAPIKey now kid =
     (let sel = (\<lambda>k. k_ID k = kid \<and> is_zero (k_RevokedAt k))
      in exec_rows (\<lambda>s. tbl_count sel (db_api_keys s))
           (\<lambda>s. s\<lparr>db_api_keys := tbl_update sel (\<lambda>k. k\<lparr>k_RevokedAt := now\<rparr>) (db_api_keys s)\<rparr>))"

definition ListAPIKeys :: "api_key list stmt" where
  "ListAPIKeys = query_all (\<lambda>s. order_desc (\<lambda>k. formatTime (k_CreatedAt k)) (db_api_keys s))"

section \<open>Relays\<close>

text \<open>INSERT ... ON CONFLICT(id) DO UPDATE: every column but \<open>registered\<close> is overwritten.\<close>

definition upsert_row :: "relay_node \<Rightarrow> relay_node \<Rightarrow> relay_node" where
  "upsert_row new old = new\<lparr>r_Registered := r_Registered old\<rparr>"

definition UpsertRelay :: "relay_node \<Rightarrow> unit stmt" where
  "UpsertRelay relay =
     exec_quiet (\<lambda>s. s\<lparr>db_relays :=
       (if list_ex (\<lambda>r. r_ID r = r_ID relay) (db_relays s)
        then tbl_update (\<lambda>r. r_ID r = r_ID relay) (upsert_row relay) (db_relays s)
        else db_relays s @ [relay])\<rparr>)"

definition DeleteRelay :: "string \<Rightarrow> unit stmt" where
  "DeleteRelay rid =
     exec_quiet (\<lambda>s. s\<lparr>db_relays := tbl_delete (\<lambda>r. r_ID r = rid) (db_relays s)\<rparr>)"

definition getRelay :: "string \<Rightarrow> relay_node stmt" where
  "getRelay rid = query_row db_relays (\<lambda>r. r_ID r = rid)"

definition HeartbeatRelay :: "gotime \<Rightarrow> string \<Rightarrow> rat \<Rightarrow> relay_node stmt" where
  "HeartbeatRelay now rid load =
     then_stmt
       (exec_rows (\<lambda>s. tbl_count (\<lambda>r. r_ID r = rid) (db_relays s))
         (\<lambda>s. s\<lparr>db_relays := tbl_update (\<lambda>r. r_ID r = rid)
            (\<lambda>r. r\<lparr>r_Status := RelayStatusHealthy, r_Load := load, r_LastSeenAt := now\<rparr>)
            (db_relays s)\<rparr>))
       (\<lambda>_. getRelay rid)"

definition ListRelays :: "relay_node list stmt" where
  "ListRelays = query_all (\<lambda>s. sort_key (\<lambda>r. (r_Region r, r_Name r)) (db_relays s))"

section \<open>Invitations\<close>

definition CreateInvitation :: "invitation \<Rightarrow> unit stmt" where
  "CreateInvitation i =
     insert_into (\<lambda>a b. i_ID a = i_ID b \<or> i_TokenHash a = i_TokenHash b) db_invitations
       (\<lambda>rows s. s\<lparr>db_invitations := rows\<rparr>) (i\<lparr>i_PlaintextToken := ''''\<rparr>)"

definition GetInvitationByTokenHash :: "string \<Rightarrow> invitation stmt" where
  "GetInvitationByTokenHash th = query_row db_invitations (\<lambda>i. i_TokenHash i = th)"

definition MarkInvitationUsed :: "gotime \<Rightarrow> string \<Rightarrow> unit stmt" where
  "MarkInvitationUsed now iid =
     exec_quiet (\<lambda>s. s\<lparr>db_invitations :=
       tbl_update (\<lambda>i. i_ID i = iid) (\<lambda>i. i\<lparr>i_UsedAt := now\<rparr>) (db_invitations s)\<rparr>)"

section \<open>Devices\<close>

definition CreateDevice :: "device \<Rightarrow> unit stmt" where
  "CreateDevice d =
     insert_into (\<lambda>a b. d_ID a = d_ID b \<or> d_VirtualIP a = d_VirtualIP b) db_devices
       (\<lambda>rows s. s\<lparr>db_devices := rows\<rparr>) (d\<lparr>d_DeviceToken := ''''\<rparr>)"

definition DeleteDevice :: "string \<Rightarrow> unit stmt" where
  "DeleteDevice did =
     exec_rows (\<lambda>s. tbl_count (\<lambda>d. d_ID d = did) (db_devices s))
       (\<lambda>s. s\<lparr>db_devices := tbl_delete (\<lambda>d. d_ID d = did) (db_devices s)\<rparr>)"

definition GetDeviceByIDAndTokenHash :: "string \<Rightarrow> string \<Rightarrow> device stmt" where
  "GetDeviceByIDAndTokenHash did th =
     query_row db_devices (\<lambda>d. d_ID d = did \<and> d_TokenHash d = th)"

definition getDevice :: "string \<Rightarrow> device stmt" where
  "getDevice did = query_row db_devices (\<lambda>d. d_ID d = did)"

definition health_row :: "gotime \<Rightarrow> device_health_report \<Rightarrow> device \<Rightarrow> device" where
  "health_row now report d =
     d\<lparr>d_Status := (if dhr_Status report = '''' then DeviceStatusOnline else dhr_Status report),
       d_Endpoint := (if dhr_Endpoint report = '''' then d_Endpoint d else dhr_Endpoint report),
       d_LastSeenAt := now\<rparr>"

definition UpdateDeviceHealth ::
  "gotime \<Rightarrow> string \<Rightarrow> string \<Rightarrow> device_health_report \<Rightarrow> device stmt" where
  "UpdateDeviceHealth now did th report =
     (let sel = (\<lambda>d. d_ID d = did \<and> d_TokenHash d = th)
      in then_stmt
           (exec_rows (\<lambda>s. tbl_count sel (db_devices s))
             (\<lambda>s. s\<lparr>db_devices := tbl_update sel (health_row now report) (db_devices s)\<rparr>))
           (\<lambda>_. getDevice did))"

definition ListDevices :: "device list stmt" where
  "ListDevices = query_all (\<lambda>s. order_desc (\<lambda>d. formatTime (d_CreatedAt d)) (db_devices s))"

section \<open>Policies\<close>

definition CreatePolicy :: "network_policy \<Rightarrow> unit stmt" where
  "CreatePolicy =
     insert_into (\<lambda>a b. p_ID a = p_ID b) db_policies (\<lambda>rows s. s\<lparr>db_policies := rows\<rparr>)"

definition DeletePolicy :: "string \<Rightarrow> unit stmt" where
  "DeletePolicy pid =
     exec_rows (\<lambda>s. tbl_count (\<lambda>p. p_ID p = pid) (db_policies s))
       (\<lambda>s. s\<lparr>db_policies := tbl_delete (\<lambda>p. p_ID p = pid) (db_policies s)\<rparr>)"

definition ListPolicies :: "network_policy list stmt" where
  "ListPolicies = query_all (\<lambda>s. order_desc (\<lambda>p. formatTime (p_CreatedAt p)) (db_policies s))"

section \<open>Overview and migration\<close>

definition network_health :: "nat \<Rightarrow> nat \<Rightarrow> string" where
  "network_health n healthy =
     (if n > 0 \<and> healthy = n then ''healthy''
      else if healthy > 0 then ''degraded'' else ''unknown'')"

definition average_load :: "relay_node list \<Rightarrow> rat" where
  "average_load rs = (if rs = [] then 0 else sum_list (map r_Load rs) / of_nat (length rs))"

definition Overview :: "overview stmt" where
  "Overview =
     then_stmt (query_all (\<lambda>s. length (db_devices s))) (\<lambda>total.
     then_stmt (query_all (\<lambda>s. tbl_count (\<lambda>d. d_Status d = DeviceStatusOnline) (db_devices s))) (\<lambda>online.
     then_stmt (query_all (\<lambda>s. length (db_relays s))) (\<lambda>relays.
     then_stmt (query_all (\<lambda>s. tbl_count (\<lambda>r. r_Status r = RelayStatusHealthy) (db_relays s))) (\<lambda>healthy.
     then_stmt (query_all (\<lambda>s. length (db_policies s))) (\<lambda>policies.
     then_stmt (query_all (\<lambda>s. average_load (db_relays s))) (\<lambda>load s.
       (Inr \<lparr>ov_OnlineDevices = online, ov_TotalDevices = total, ov_RelayNodes = relays,
             ov_HealthyRelays = healthy, ov_PolicyCount = policies,
             ov_NetworkHealth = network_health relays healthy, ov_AverageLoad = load\<rparr>, s)))))))"

text \<open>
  Migrate: CREATE TABLE IF NOT EXISTS and the two ALTER TABLE statements leave the rows alone
  (a duplicate column is not an error); then the default user and the default group are
  inserted unless their ids are taken.
\<close>

definition default_user :: "gotime \<Rightarrow> user" where
  "default_user now = \<lparr>u_ID = ''default-user'', u_Name = ''Default User'', u_Email = '''',
     u_Role = ''admin'', u_CreatedAt = now\<rparr>"

definition default_group :: "gotime \<Rightarrow> device_group" where
  "default_group now = \<lparr>g_ID = ''default'', g_Name = ''Default'',
     g_Description = ''Default Linkbit device group'', g_CreatedAt = now\<rparr>"

definition insert_or_ignore :: "('r \<Rightarrow> 'r \<Rightarrow> bool) \<Rightarrow> 'r \<Rightarrow> 'r list \<Rightarrow> 'r list" where
  "insert_or_ignore conflict r rows =
     (case tbl_insert conflict r rows of None \<Rightarrow> rows | Some rows' \<Rightarrow> rows')"

definition Migrate :: "gotime \<Rightarrow> unit stmt" where
  "Migrate now =
     then_stmt (exec_quiet (\<lambda>s. s)) (\<lambda>_.
     then_stmt (exec_quiet (\<lambda>s. s)) (\<lambda>_.
     then_stmt (exec_quiet (\<lambda>s. s)) (\<lambda>_.
     then_stmt (exec_quiet (\<lambda>s. s\<lparr>db_users :=
        insert_or_ignore (\<lambda>a b. u_ID a = u_ID b) (default_user now) (db_users s)\<rparr>)) (\<lambda>_.
     exec_quiet (\<lambda>s. s\<lparr>db_groups :=
        insert_or_ignore (\<lambda>a b. g_ID a = g_ID b) (default_group now) (db_groups s)\<rparr>)))))"

lemmas stmt_combinators [stmt_defs] =
  exec_stmt_def then_stmt_def insert_into_def query_row_def query_all_def exec_rows_def exec_quiet_def

lemmas stmt_methods [stmt_defs] =
  CreateUser_def ListUsers_def GetUser_def CreateGroup_def ListGroups_def GetGroup_def
  CreateAPIKey_def GetAPIKeyByDigest_def TouchAPIKey_def RevokeAPIKey_def ListAPIKeys_def
  UpsertRelay_def DeleteRelay_def getRelay_def HeartbeatRelay_def ListRelays_def
  CreateInvitation_def GetInvitationByTokenHash_def MarkInvitationUsed_def
  CreateDevice_def DeleteDevice_def GetDeviceByIDAndTokenHash_def getDevice_def
  UpdateDeviceHealth_def ListDevices_def CreatePolicy_def DeletePolicy_def ListPolicies_def
  Overview_def Migrate_def

end
