(* ===== verification/Store_Laws.thy ===== *)
theory Store_Laws
  imports Sqlite_Store
begin

text \<open>
  The laws of the store: the interface a keyed table offers its callers (a locale, with a
  second one for tables whose rows can be deleted) and its interpretation on six tables, the
  statement relation \<open>db_step\<close> that every method refines, and the integrity invariant \<open>db_ok\<close>
  that every statement keeps.
\<close>

section \<open>Keyed tables as an interface\<close>

locale registry =
  fixes rows :: "db \<Rightarrow> 'r list" and key :: "'r \<Rightarrow> string" and stored :: "'r \<Rightarrow> 'r"
    and ins :: "'r \<Rightarrow> unit stmt"
  assumes ins_ok: "ins r s = (Inr u, s') \<Longrightarrow> rows s' = rows s @ [stored r]"
    and ins_fresh: "ins r s = (Inr u, s') \<Longrightarrow> key (stored r) \<notin> key ` set (rows s)"
    and ins_fail: "ins r s = (Inl e, s') \<Longrightarrow> rows s' = rows s"
begin

lemma ins_keeps: "ins r s = (x, s') \<Longrightarrow> set (rows s) \<subseteq> set (rows s')"
  by (cases x) (auto dest: ins_ok ins_fail)

lemma ins_unique:
  assumes "ins r s = (x, s')" and "unique_on key (rows s)"
  shows "unique_on key (rows s')"
proof (cases x)
  case (Inl e)
  with assms show ?thesis using ins_fail by simp
next
  case (Inr u)
  with assms ins_ok [of r s u s'] ins_fresh [of r s u s'] show ?thesis
    by (simp add: unique_on_def)
qed

text \<open>Read your write: the inserted row is what a query by its key returns.\<close>

lemma ins_lookup:
  assumes "ins r s = (Inr u, s')"
  shows "find (\<lambda>x. key x = key (stored r)) (rows s') = Some (stored r)"
proof -
  have "find (\<lambda>x. key x = key (stored r)) (rows s) = None"
    using ins_fresh [OF assms] by (auto simp: find_None_iff image_iff)
  then show ?thesis
    using ins_ok [OF assms] by (simp add: find_append)
qed

lemma ins_other:
  assumes "ins r s = (x, s')" and "find p (rows s) = Some y"
  shows "find p (rows s') = Some y"
  using assms ins_ok ins_fail by (cases x) (auto simp: find_append)

end

locale deletable_registry = registry +
  fixes del :: "string \<Rightarrow> unit stmt"
  assumes del_ok: "del k s = (Inr u, s') \<Longrightarrow> rows s' = tbl_delete (\<lambda>r. key r = k) (rows s)"
    and del_present: "del k s = (Inr u, s') \<Longrightarrow> k \<in> key ` set (rows s)"
    and del_fail: "del k s = (Inl e, s') \<Longrightarrow> rows s' = rows s"
begin

lemma del_gone: "del k s = (Inr u, s') \<Longrightarrow> k \<notin> key ` set (rows s')"
  by (auto dest!: del_ok simp: set_tbl_delete)

lemma del_shrinks: "del k s = (x, s') \<Longrightarrow> set (rows s') \<subseteq> set (rows s)"
  by (cases x) (auto dest!: del_ok del_fail simp: set_tbl_delete)

lemma del_unique: "del k s = (x, s') \<Longrightarrow> unique_on key (rows s) \<Longrightarrow> unique_on key (rows s')"
  by (cases x) (auto dest!: del_ok del_fail intro: unique_on_delete)

text \<open>Deleting the same key again reports that there was no such row.\<close>

lemma del_twice: "del k s = (Inr u, s') \<Longrightarrow> \<exists>e. fst (del k s') = Inl e"
proof -
  assume d: "del k s = (Inr u, s')"
  show ?thesis
  proof (cases "del k s'")
    case (Pair x t)
    then show ?thesis
      using del_gone [OF d] del_present [of k s' _ t] by (cases x) auto
  qed
qed

end

lemma insert_into_cases:
  assumes "insert_into c get put r s = (x, s')"
  shows "(\<exists>e. x = Inl e \<and> (s' = s \<or> s' = s\<lparr>db_faults := tl (db_faults s)\<rparr>))
    \<or> (x = Inr () \<and> (\<exists>s0 rs. (s0 = s \<or> s0 = s\<lparr>db_faults := tl (db_faults s)\<rparr>)
         \<and> tbl_insert c r (get s0) = Some rs \<and> s' = put rs s0))"
  using assms
  by (auto simp: insert_into_def exec_stmt_def split: list.splits if_splits option.splits)

interpretation users: registry db_users u_ID "\<lambda>u. u" CreateUser
  by unfold_locales
    (auto simp: CreateUser_def dest!: insert_into_cases tbl_insert_SomeD)

interpretation groups: registry db_groups g_ID "\<lambda>g. g" CreateGroup
  by unfold_locales
    (auto simp: CreateGroup_def dest!: insert_into_cases tbl_insert_SomeD)

interpretation invitations: registry db_invitations i_ID "\<lambda>i. i\<lparr>i_PlaintextToken := ''''\<rparr>" CreateInvitation
  by unfold_locales
    (auto simp: CreateInvitation_def dest!: insert_into_cases tbl_insert_SomeD)

interpretation invitation_tokens: registry db_invitations i_TokenHash "\<lambda>i. i\<lparr>i_PlaintextToken := ''''\<rparr>" CreateInvitation
  by unfold_locales
    (auto simp: CreateInvitation_def dest!: insert_into_cases tbl_insert_SomeD)

interpretation api_keys: registry db_api_keys k_ID "\<lambda>k. k\<lparr>k_PlaintextKey := ''''\<rparr>" CreateAPIKey
  by unfold_locales
    (auto simp: CreateAPIKey_def dest!: insert_into_cases tbl_insert_SomeD)

interpretation api_digests: registry db_api_keys k_Digest "\<lambda>k. k\<lparr>k_PlaintextKey := ''''\<rparr>" CreateAPIKey
  by unfold_locales
    (auto simp: CreateAPIKey_def dest!: insert_into_cases tbl_insert_SomeD)

lemma exec_rows_cases:
  assumes "exec_rows n f s = (x, s')"
  shows "(\<exists>e. x = Inl e \<and> (\<exists>s0. (s0 = s \<or> s0 = s\<lparr>db_faults := tl (db_faults s)\<rparr>)
           \<and> (s' = s0 \<or> n s0 = 0 \<and> s' = f s0)))
    \<or> (x = Inr () \<and> (\<exists>s0. (s0 = s \<or> s0 = s\<lparr>db_faults := tl (db_faults s)\<rparr>)
           \<and> n s0 \<noteq> 0 \<and> s' = f s0))"
  using assms by (auto simp: exec_rows_def exec_stmt_def split: list.splits if_splits)

lemma tbl_count_pos: "0 < tbl_count p rs \<Longrightarrow> \<exists>r \<in> set rs. p r"
  by (metis tbl_count_0_iff less_numeral_extra(3))

interpretation devices: deletable_registry db_devices d_ID "\<lambda>d. d\<lparr>d_DeviceToken := ''''\<rparr>" CreateDevice DeleteDevice
proof (unfold_locales, goal_cases)
  case (4 k s u s')
  then show ?case by (auto simp: DeleteDevice_def dest!: exec_rows_cases)
next
  case (5 k s u s')
  then show ?case by (auto simp: DeleteDevice_def dest!: exec_rows_cases tbl_count_pos)
next
  case (6 k s e s')
  then show ?case by (auto simp: DeleteDevice_def tbl_delete_noop dest!: exec_rows_cases)
qed (auto simp: CreateDevice_def dest!: insert_into_cases tbl_insert_SomeD)

interpretation device_ips: registry db_devices d_VirtualIP "\<lambda>d. d\<lparr>d_DeviceToken := ''''\<rparr>" CreateDevice
  by unfold_locales
    (auto simp: CreateDevice_def dest!: insert_into_cases tbl_insert_SomeD)

interpretation policies: deletable_registry db_policies p_ID "\<lambda>p. p" CreatePolicy DeletePolicy
proof (unfold_locales, goal_cases)
  case (4 k s u s')
  then show ?case by (auto simp: DeletePolicy_def dest!: exec_rows_cases)
next
  case (5 k s u s')
  then show ?case by (auto simp: DeletePolicy_def dest!: exec_rows_cases tbl_count_pos)
next
  case (6 k s e s')
  then show ?case by (auto simp: DeletePolicy_def tbl_delete_noop dest!: exec_rows_cases)
qed (auto simp: CreatePolicy_def dest!: insert_into_cases tbl_insert_SomeD)

section \<open>Row changes\<close>

text \<open>
  What the program can do to the database, one row change at a time: each method of the store
  is a sequence of these steps. The premises are what the callers establish before they call
  (an invitation names a stored user and group, a device comes from a stored invitation, a
  relay is written as healthy, a time stamp is never the zero time).
\<close>

abbreviation has_user :: "db \<Rightarrow> string \<Rightarrow> bool" where
  "has_user s uid \<equiv> uid \<in> u_ID ` set (db_users s)"

abbreviation has_group :: "db \<Rightarrow> string \<Rightarrow> bool" where
  "has_group s gid \<equiv> gid \<in> g_ID ` set (db_groups s)"

inductive db_step :: "db \<Rightarrow> db \<Rightarrow> bool" where
  fault: "db_step s (s\<lparr>db_faults := fs\<rparr>)"
| add_user: "tbl_insert (\<lambda>a b. u_ID a = u_ID b) u (db_users s) = Some us \<Longrightarrow>
    db_step s (s\<lparr>db_users := us\<rparr>)"
| add_group: "tbl_insert (\<lambda>a b. g_ID a = g_ID b) g (db_groups s) = Some gs \<Longrightarrow>
    db_step s (s\<lparr>db_groups := gs\<rparr>)"
| add_key: "tbl_insert (\<lambda>a b. k_ID a = k_ID b \<or> k_Digest a = k_Digest b) k (db_api_keys s) = Some ks \<Longrightarrow>
    k_PlaintextKey k = '''' \<Longrightarrow> db_step s (s\<lparr>db_api_keys := ks\<rparr>)"
| touch_key: "db_step s (s\<lparr>db_api_keys :=
    tbl_update (\<lambda>k. k_ID k = kid) (\<lambda>k. k\<lparr>k_LastUsedAt := now\<rparr>) (db_api_keys s)\<rparr>)"
| revoke_key: "now \<noteq> zero_time \<Longrightarrow> db_step s (s\<lparr>db_api_keys :=
    tbl_update (\<lambda>k. k_ID k = kid \<and> is_zero (k_RevokedAt k)) (\<lambda>k. k\<lparr>k_RevokedAt := now\<rparr>) (db_api_keys s)\<rparr>)"
| add_relay: "\<forall>r \<in> set (db_relays s). r_ID r \<noteq> r_ID relay \<Longrightarrow> r_Status relay = RelayStatusHealthy \<Longrightarrow>
    db_step s (s\<lparr>db_relays := db_relays s @ [relay]\<rparr>)"
| put_relay: "r_Status relay = RelayStatusHealthy \<Longrightarrow> db_step s (s\<lparr>db_relays :=
    tbl_update (\<lambda>r. r_ID r = r_ID relay) (upsert_row relay) (db_relays s)\<rparr>)"
| beat_relay: "db_step s (s\<lparr>db_relays := tbl_update (\<lambda>r. r_ID r = rid)
    (\<lambda>r. r\<lparr>r_Status := RelayStatusHealthy, r_Load := load, r_LastSeenAt := now\<rparr>) (db_relays s)\<rparr>)"
| del_relay: "db_step s (s\<lparr>db_relays := tbl_delete (\<lambda>r. r_ID r = rid) (db_relays s)\<rparr>)"
| add_invitation: "tbl_insert (\<lambda>a b. i_ID a = i_ID b \<or> i_TokenHash a = i_TokenHash b) i (db_invitations s) = Some is' \<Longrightarrow>
    i_PlaintextToken i = '''' \<Longrightarrow> has_user s (i_UserID i) \<Longrightarrow> has_group s (i_GroupID i) \<Longrightarrow>
    db_step s (s\<lparr>db_invitations := is'\<rparr>)"
| use_invitation: "now \<noteq> zero_time \<Longrightarrow> db_step s (s\<lparr>db_invitations :=
    tbl_update (\<lambda>i. i_ID i = iid) (\<lambda>i. i\<lparr>i_UsedAt := now\<rparr>) (db_invitations s)\<rparr>)"
| add_device: "tbl_insert (\<lambda>a b. d_ID a = d_ID b \<or> d_VirtualIP a = d_VirtualIP b) d (db_devices s) = Some ds \<Longrightarrow>
    d_DeviceToken d = '''' \<Longrightarrow> has_user s (d_UserID d) \<Longrightarrow> has_group s (d_GroupID d) \<Longrightarrow>
    db_step s (s\<lparr>db_devices := ds\<rparr>)"
| del_device: "db_step s (s\<lparr>db_devices := tbl_delete (\<lambda>d. d_ID d = did) (db_devices s)\<rparr>)"
| device_health: "db_step s (s\<lparr>db_devices :=
    tbl_update (\<lambda>d. d_ID d = did \<and> d_TokenHash d = th) (health_row now report) (db_devices s)\<rparr>)"
| add_policy: "tbl_insert (\<lambda>a b. p_ID a = p_ID b) p (db_policies s) = Some ps \<Longrightarrow>
    db_step s (s\<lparr>db_policies := ps\<rparr>)"
| del_policy: "db_step s (s\<lparr>db_policies := tbl_delete (\<lambda>p. p_ID p = pid) (db_policies s)\<rparr>)"

abbreviation db_steps :: "db \<Rightarrow> db \<Rightarrow> bool" where "db_steps \<equiv> db_step\<^sup>*\<^sup>*"

section \<open>Integrity\<close>

text \<open>
  Keys and unique columns are unique; every relay row says healthy; every invitation and every
  device names a stored user and group; no secret is stored in plain text; the default user
  and group exist.
\<close>

definition db_ok :: "db \<Rightarrow> bool" where
  "db_ok s \<longleftrightarrow>
     unique_on u_ID (db_users s) \<and> unique_on g_ID (db_groups s) \<and> unique_on r_ID (db_relays s)
     \<and> unique_on i_ID (db_invitations s) \<and> unique_on i_TokenHash (db_invitations s)
     \<and> unique_on k_ID (db_api_keys s) \<and> unique_on k_Digest (db_api_keys s)
     \<and> unique_on d_ID (db_devices s) \<and> unique_on d_VirtualIP (db_devices s)
     \<and> unique_on p_ID (db_policies s)
     \<and> (\<forall>r \<in> set (db_relays s). r_Status r = RelayStatusHealthy)
     \<and> (\<forall>i \<in> set (db_invitations s). has_user s (i_UserID i) \<and> has_group s (i_GroupID i)
          \<and> i_PlaintextToken i = '''')
     \<and> (\<forall>d \<in> set (db_devices s). has_user s (d_UserID d) \<and> has_group s (d_GroupID d)
          \<and> d_DeviceToken d = '''')
     \<and> (\<forall>k \<in> set (db_api_keys s). k_PlaintextKey k = '''')
     \<and> has_user s ''default-user'' \<and> has_group s ''default''"

lemma health_row_simps [simp]:
  "d_ID (health_row now rep d) = d_ID d" "d_VirtualIP (health_row now rep d) = d_VirtualIP d"
  "d_UserID (health_row now rep d) = d_UserID d" "d_GroupID (health_row now rep d) = d_GroupID d"
  "d_DeviceToken (health_row now rep d) = d_DeviceToken d"
  "d_TokenHash (health_row now rep d) = d_TokenHash d"
  by (simp_all add: health_row_def)

lemma upsert_row_simps [simp]:
  "r_ID (upsert_row n old) = r_ID n" "r_Status (upsert_row n old) = r_Status n"
  "r_Registered (upsert_row n old) = r_Registered old"
  by (simp_all add: upsert_row_def)

lemma unique_on_put:
  "(\<And>r. p r \<Longrightarrow> key (f r) = key r) \<Longrightarrow> unique_on key (tbl_update p f rs) = unique_on key rs"
proof -
  assume "\<And>r. p r \<Longrightarrow> key (f r) = key r"
  then have "map key (tbl_update p f rs) = map key rs" by (simp add: tbl_update_def)
  then show ?thesis by (simp add: unique_on_def)
qed

lemma unique_on_snoc:
  "unique_on key (rs @ [r]) \<longleftrightarrow> unique_on key rs \<and> key r \<notin> key ` set rs"
  by (auto simp: unique_on_def)

lemma db_step_ok: "db_step s s' \<Longrightarrow> db_ok s \<Longrightarrow> db_ok s'"
proof (induction rule: db_step.induct)
  case (add_user u s us)
  then show ?case
    by (auto simp: db_ok_def unique_on_snoc dest!: tbl_insert_SomeD)
next
  case (add_group g s gs)
  then show ?case by (auto simp: db_ok_def unique_on_snoc dest!: tbl_insert_SomeD)
next
  case (add_key k s ks)
  then show ?case by (auto simp: db_ok_def unique_on_snoc dest!: tbl_insert_SomeD)
next
  case (add_relay s relay)
  then show ?case by (auto simp: db_ok_def unique_on_snoc)
next
  case (add_invitation i s is')
  then show ?case by (auto simp: db_ok_def unique_on_snoc dest!: tbl_insert_SomeD)
next
  case (add_device d s ds)
  then show ?case by (auto simp: db_ok_def unique_on_snoc dest!: tbl_insert_SomeD)
next
  case (add_policy p s ps)
  then show ?case by (auto simp: db_ok_def unique_on_snoc dest!: tbl_insert_SomeD)
qed (auto simp: db_ok_def unique_on_put unique_on_delete set_tbl_update set_tbl_delete)

lemma db_steps_ok: "db_steps s s' \<Longrightarrow> db_ok s \<Longrightarrow> db_ok s'"
  by (induction rule: rtranclp_induct) (auto intro: db_step_ok)

section \<open>What lasts\<close>

text \<open>
  Users and groups are never removed or changed; an invitation keeps its identity, token and
  owner, and once used stays used; an API key keeps its digest and scope, and once revoked
  stays revoked; an invitation or key never vanishes.
\<close>

definition same_invitation :: "invitation \<Rightarrow> invitation \<Rightarrow> bool" where
  "same_invitation i j \<longleftrightarrow>
     i_ID j = i_ID i \<and> i_TokenHash j = i_TokenHash i \<and> i_UserID j = i_UserID i
     \<and> i_GroupID j = i_GroupID i \<and> i_Reusable j = i_Reusable i \<and> i_ExpiresAt j = i_ExpiresAt i
     \<and> (\<not> is_zero (i_UsedAt i) \<longrightarrow> \<not> is_zero (i_UsedAt j))"

definition same_key :: "api_key \<Rightarrow> api_key \<Rightarrow> bool" where
  "same_key k j \<longleftrightarrow>
     k_ID j = k_ID k \<and> k_Digest j = k_Digest k \<and> k_Scope j = k_Scope k
     \<and> (\<not> is_zero (k_RevokedAt k) \<longrightarrow> \<not> is_zero (k_RevokedAt j))"

definition db_lasts :: "db \<Rightarrow> db \<Rightarrow> bool" where
  "db_lasts s s' \<longleftrightarrow>
     set (db_users s) \<subseteq> set (db_users s') \<and> set (db_groups s) \<subseteq> set (db_groups s')
     \<and> (\<forall>i \<in> set (db_invitations s). \<exists>j \<in> set (db_invitations s'). same_invitation i j)
     \<and> (\<forall>k \<in> set (db_api_keys s). \<exists>j \<in> set (db_api_keys s'). same_key k j)"

lemma same_invitation_refl [simp]: "same_invitation i i"
  by (simp add: same_invitation_def)

lemma same_key_refl [simp]: "same_key k k"
  by (simp add: same_key_def)

lemma same_invitation_trans: "same_invitation i j \<Longrightarrow> same_invitation j l \<Longrightarrow> same_invitation i l"
  by (auto simp: same_invitation_def)

lemma same_key_trans: "same_key i j \<Longrightarrow> same_key j l \<Longrightarrow> same_key i l"
  by (auto simp: same_key_def)

lemma related_member:
  "i \<in> I \<Longrightarrow> \<exists>x \<in> I. same_invitation i x"
  "k \<in> K \<Longrightarrow> \<exists>x \<in> K. same_key k x"
  using same_invitation_refl same_key_refl by blast+

lemma db_lasts_refl [simp]: "db_lasts s s"
  by (auto simp: db_lasts_def intro: related_member)

lemma db_lasts_trans: "db_lasts s t \<Longrightarrow> db_lasts t u \<Longrightarrow> db_lasts s u"
  unfolding db_lasts_def by (meson same_invitation_trans same_key_trans subset_trans)

lemma tbl_update_related:
  assumes "r \<in> set rs" and "\<And>x. R x x" and "\<And>x. p x \<Longrightarrow> R x (f x)"
  shows "\<exists>x \<in> set (tbl_update p f rs). R r x"
proof -
  have "(if p r then f r else r) \<in> set (tbl_update p f rs)"
    using assms(1) by (auto simp: set_tbl_update)
  moreover have "R r (if p r then f r else r)" using assms(2,3) by simp
  ultimately show ?thesis by blast
qed

lemma tbl_insert_related:
  assumes "r \<in> set rs" and "tbl_insert c n rs = Some rs'" and "\<And>x. R x x"
  shows "\<exists>x \<in> set rs'. R r x"
proof (rule bexI)
  show "R r r" by (rule assms(3))
  show "r \<in> set rs'" using tbl_insert_SomeD [OF assms(2)] assms(1) by simp
qed

lemma is_zero_iff [simp]: "is_zero t \<longleftrightarrow> t = zero_time"
  by (simp add: is_zero_def)

lemma db_step_lasts: "db_step s s' \<Longrightarrow> db_lasts s s'"
proof (induction rule: db_step.induct)
  case (add_key k s ks)
  then show ?case by (auto simp: db_lasts_def intro: tbl_insert_related related_member)
next
  case (touch_key s kid now)
  show ?case
    by (auto simp: db_lasts_def intro!: tbl_update_related intro: related_member) (auto simp: same_key_def)
next
  case (revoke_key now s kid)
  then show ?case
    by (auto simp: db_lasts_def intro!: tbl_update_related intro: related_member) (auto simp: same_key_def)
next
  case (add_invitation i s is')
  then show ?case by (auto simp: db_lasts_def intro: tbl_insert_related related_member)
next
  case (use_invitation now s iid)
  then show ?case
    by (auto simp: db_lasts_def intro!: tbl_update_related intro: related_member) (auto simp: same_invitation_def)
next
  case (add_user u s us)
  then show ?case by (auto simp: db_lasts_def intro: related_member dest: tbl_insert_SomeD)
next
  case (add_group g s gs)
  then show ?case by (auto simp: db_lasts_def intro: related_member dest: tbl_insert_SomeD)
qed (auto simp: db_lasts_def intro: related_member)

lemma db_steps_lasts: "db_steps s s' \<Longrightarrow> db_lasts s s'"
  by (induction rule: rtranclp_induct) (auto intro: db_lasts_trans db_step_lasts)

section \<open>Methods as row changes\<close>

text \<open>Equal but for the fault script: what a query, or a failed statement, leaves behind.\<close>

definition same_tables :: "db \<Rightarrow> db \<Rightarrow> bool" where
  "same_tables s s' \<longleftrightarrow> (\<exists>fs. s' = s\<lparr>db_faults := fs\<rparr>)"

lemma same_tables_refl [simp]: "same_tables s s"
proof -
  have "s = s\<lparr>db_faults := db_faults s\<rparr>" by simp
  then show ?thesis unfolding same_tables_def by blast
qed

lemma same_tables_fault [simp]: "same_tables s (s\<lparr>db_faults := fs\<rparr>)"
  by (auto simp: same_tables_def)

lemma same_tables_trans: "same_tables s t \<Longrightarrow> same_tables t u \<Longrightarrow> same_tables s u"
  by (auto simp: same_tables_def)

lemma same_tables_steps: "same_tables s s' \<Longrightarrow> db_steps s s'"
  by (auto simp: same_tables_def intro: db_step.fault)

lemma same_tablesD:
  assumes "same_tables s s'"
  shows "db_users s' = db_users s" "db_groups s' = db_groups s" "db_relays s' = db_relays s"
    "db_invitations s' = db_invitations s" "db_api_keys s' = db_api_keys s"
    "db_devices s' = db_devices s" "db_policies s' = db_policies s"
  using assms by (auto simp: same_tables_def)

text \<open>A statement runs on the database with one fault entry gone, or not at all.\<close>

lemma exec_stmt_cases:
  assumes "exec_stmt f s = (x, s')"
  obtains "x = Inl ErrIO" "same_tables s s'"
    | s0 where "same_tables s s0" "f s0 = (x, s')"
proof (cases "db_faults s")
  case Nil
  with assms have "f s = (x, s')" by (simp add: exec_stmt_def)
  with that(2) [of s] show ?thesis by simp
next
  case (Cons fault rest)
  let ?s0 = "s\<lparr>db_faults := rest\<rparr>"
  show ?thesis
  proof (cases fault)
    case True
    with Cons assms have "x = Inl ErrIO" "s' = ?s0" by (auto simp: exec_stmt_def)
    with that(1) show ?thesis by simp
  next
    case False
    with Cons assms have "f ?s0 = (x, s')" by (simp add: exec_stmt_def)
    with that(2) [of ?s0] show ?thesis by simp
  qed
qed

lemma step_from: "same_tables s s0 \<Longrightarrow> db_step s0 s' \<Longrightarrow> db_steps s s'"
  by (meson rtranclp.rtrancl_into_rtrancl same_tables_steps)

lemma query_all_same: "query_all get s = (x, s') \<Longrightarrow> same_tables s s'"
  by (auto simp: query_all_def elim!: exec_stmt_cases)

lemma query_all_result:
  "query_all get s = (Inr v, s') \<Longrightarrow> (\<And>s fs. get (s\<lparr>db_faults := fs\<rparr>) = get s) \<Longrightarrow> v = get s"
  by (auto simp: query_all_def same_tables_def elim!: exec_stmt_cases)

lemma query_row_same: "query_row get p s = (x, s') \<Longrightarrow> same_tables s s'"
  by (auto simp: query_row_def elim!: exec_stmt_cases)

lemma query_row_result:
  "query_row get p s = (Inr r, s') \<Longrightarrow> (\<And>s fs. get (s\<lparr>db_faults := fs\<rparr>) = get s) \<Longrightarrow>
   find p (get s) = Some r"
  by (auto simp: query_row_def same_tables_def split: option.splits elim!: exec_stmt_cases)

lemma query_row_missing:
  "query_row get p s = (Inl ErrNoRows, s') \<Longrightarrow> (\<And>s fs. get (s\<lparr>db_faults := fs\<rparr>) = get s) \<Longrightarrow>
   find p (get s) = None"
  by (auto simp: query_row_def same_tables_def split: option.splits elim!: exec_stmt_cases)

lemma exec_quiet_steps:
  "exec_quiet change s = (x, s') \<Longrightarrow> (\<And>s0. same_tables s s0 \<Longrightarrow> db_steps s0 (change s0)) \<Longrightarrow> db_steps s s'"
  by (auto simp: exec_quiet_def intro: same_tables_steps rtranclp_trans elim!: exec_stmt_cases)

lemma exec_rows_steps:
  "exec_rows n change s = (x, s') \<Longrightarrow> (\<And>s0. same_tables s s0 \<Longrightarrow> db_steps s0 (change s0)) \<Longrightarrow> db_steps s s'"
  by (auto simp: exec_rows_def intro: same_tables_steps rtranclp_trans elim!: exec_stmt_cases)

lemma insert_into_steps:
  assumes "insert_into c get put r s = (x, s')"
    and "\<And>s0 rs. same_tables s s0 \<Longrightarrow> tbl_insert c r (get s0) = Some rs \<Longrightarrow> db_step s0 (put rs s0)"
  shows "db_steps s s'"
  using assms(1) unfolding insert_into_def
proof (cases rule: exec_stmt_cases)
  case 1
  then show ?thesis by (simp add: same_tables_steps)
next
  case (2 s0)
  show ?thesis
  proof (cases "tbl_insert c r (get s0)")
    case None
    with 2 show ?thesis by (simp add: same_tables_steps)
  next
    case (Some rs)
    with 2 have "s' = put rs s0" by simp
    with assms(2) [OF 2(1) Some] 2(1) show ?thesis by (simp add: step_from)
  qed
qed

lemma method_reads:
  "ListUsers s = (x1, s') \<Longrightarrow> same_tables s s'" "GetUser uid s = (x2, s') \<Longrightarrow> same_tables s s'"
  "ListGroups s = (x3, s') \<Longrightarrow> same_tables s s'" "GetGroup gid s = (x4, s') \<Longrightarrow> same_tables s s'"
  "GetAPIKeyByDigest dg s = (x5, s') \<Longrightarrow> same_tables s s'" "ListAPIKeys s = (x6, s') \<Longrightarrow> same_tables s s'"
  "ListRelays s = (x7, s') \<Longrightarrow> same_tables s s'"
  "GetInvitationByTokenHash th s = (x8, s') \<Longrightarrow> same_tables s s'"
  "GetDeviceByIDAndTokenHash did th s = (x9, s') \<Longrightarrow> same_tables s s'"
  "ListDevices s = (x10, s') \<Longrightarrow> same_tables s s'" "ListPolicies s = (x11, s') \<Longrightarrow> same_tables s s'"
  "getRelay rid s = (x12, s') \<Longrightarrow> same_tables s s'" "getDevice did s = (x13, s') \<Longrightarrow> same_tables s s'"
  by (simp_all only: stmt_methods query_all_same query_row_same)

lemma then_stmt_steps:
  assumes "then_stmt f g s = (x, s')" and "\<And>y t. f s = (y, t) \<Longrightarrow> db_steps s t"
    and "\<And>y t. f s = (Inr y, t) \<Longrightarrow> g y t = (x, s') \<Longrightarrow> db_steps t s'"
  shows "db_steps s s'"
  using assms by (auto simp: then_stmt_def split: prod.splits sum.splits intro: rtranclp_trans)

lemma query_all_steps: "query_all get s = (x, s') \<Longrightarrow> db_steps s s'"
  by (rule same_tables_steps) (rule query_all_same)

lemma Overview_steps: "Overview s = (x, s') \<Longrightarrow> db_steps s s'"
  unfolding Overview_def
  by (elim then_stmt_steps query_all_steps) auto

lemma CreateUser_steps: "CreateUser u s = (x, s') \<Longrightarrow> db_steps s s'"
  unfolding CreateUser_def by (erule insert_into_steps) (rule db_step.add_user)

lemma CreateGroup_steps: "CreateGroup g s = (x, s') \<Longrightarrow> db_steps s s'"
  unfolding CreateGroup_def by (erule insert_into_steps) (rule db_step.add_group)

lemma CreateAPIKey_steps: "CreateAPIKey k s = (x, s') \<Longrightarrow> db_steps s s'"
  unfolding CreateAPIKey_def by (erule insert_into_steps) (rule db_step.add_key, auto)

lemma TouchAPIKey_steps: "TouchAPIKey now kid s = (x, s') \<Longrightarrow> db_steps s s'"
  unfolding TouchAPIKey_def by (erule exec_quiet_steps) (blast intro: db_step.touch_key)

lemma RevokeAPIKey_steps: "now \<noteq> zero_time \<Longrightarrow> RevokeAPIKey now kid s = (x, s') \<Longrightarrow> db_steps s s'"
  unfolding RevokeAPIKey_def Let_def by (erule exec_rows_steps) (blast intro: db_step.revoke_key)

lemma UpsertRelay_steps:
  "r_Status relay = RelayStatusHealthy \<Longrightarrow> UpsertRelay relay s = (x, s') \<Longrightarrow> db_steps s s'"
  unfolding UpsertRelay_def
  by (erule exec_quiet_steps) (auto simp: list_ex_iff intro: db_step.add_relay db_step.put_relay)

lemma DeleteRelay_steps: "DeleteRelay rid s = (x, s') \<Longrightarrow> db_steps s s'"
  unfolding DeleteRelay_def by (erule exec_quiet_steps) (blast intro: db_step.del_relay)

lemma HeartbeatRelay_steps: "HeartbeatRelay now rid load s = (x, s') \<Longrightarrow> db_steps s s'"
  unfolding HeartbeatRelay_def
  by (erule then_stmt_steps, erule exec_rows_steps, blast intro: db_step.beat_relay)
    (blast intro: same_tables_steps method_reads)

lemma CreateInvitation_steps:
  "has_user s (i_UserID i) \<Longrightarrow> has_group s (i_GroupID i) \<Longrightarrow> CreateInvitation i s = (x, s') \<Longrightarrow> db_steps s s'"
  unfolding CreateInvitation_def
  by (erule insert_into_steps) (rule db_step.add_invitation, auto simp: same_tables_def)

lemma MarkInvitationUsed_steps:
  "now \<noteq> zero_time \<Longrightarrow> MarkInvitationUsed now iid s = (x, s') \<Longrightarrow> db_steps s s'"
  unfolding MarkInvitationUsed_def by (erule exec_quiet_steps) (blast intro: db_step.use_invitation)

lemma CreateDevice_steps:
  "has_user s (d_UserID d) \<Longrightarrow> has_group s (d_GroupID d) \<Longrightarrow> CreateDevice d s = (x, s') \<Longrightarrow> db_steps s s'"
  unfolding CreateDevice_def
  by (erule insert_into_steps) (rule db_step.add_device, auto simp: same_tables_def)

lemma DeleteDevice_steps: "DeleteDevice did s = (x, s') \<Longrightarrow> db_steps s s'"
  unfolding DeleteDevice_def by (erule exec_rows_steps) (blast intro: db_step.del_device)

lemma UpdateDeviceHealth_steps: "UpdateDeviceHealth now did th report s = (x, s') \<Longrightarrow> db_steps s s'"
  unfolding UpdateDeviceHealth_def Let_def
  by (erule then_stmt_steps, erule exec_rows_steps, blast intro: db_step.device_health)
    (blast intro: same_tables_steps method_reads)

lemma CreatePolicy_steps: "CreatePolicy p s = (x, s') \<Longrightarrow> db_steps s s'"
  unfolding CreatePolicy_def by (erule insert_into_steps) (rule db_step.add_policy)

lemma DeletePolicy_steps: "DeletePolicy pid s = (x, s') \<Longrightarrow> db_steps s s'"
  unfolding DeletePolicy_def by (erule exec_rows_steps) (blast intro: db_step.del_policy)

lemmas method_steps =
  method_reads [THEN same_tables_steps] Overview_steps CreateUser_steps CreateGroup_steps
  CreateAPIKey_steps TouchAPIKey_steps RevokeAPIKey_steps UpsertRelay_steps DeleteRelay_steps
  HeartbeatRelay_steps CreateInvitation_steps MarkInvitationUsed_steps CreateDevice_steps
  DeleteDevice_steps UpdateDeviceHealth_steps CreatePolicy_steps DeletePolicy_steps

section \<open>What the queries return\<close>

lemma GetUser_found: "GetUser uid s = (Inr u, s') \<Longrightarrow> has_user s uid"
  unfolding GetUser_def by (drule query_row_result) (auto dest!: find_SomeD)

lemma GetGroup_found: "GetGroup gid s = (Inr g, s') \<Longrightarrow> has_group s gid"
  unfolding GetGroup_def by (drule query_row_result) (auto dest!: find_SomeD)

lemma GetAPIKeyByDigest_found:
  "GetAPIKeyByDigest dg s = (Inr k, s') \<Longrightarrow>
   k \<in> set (db_api_keys s) \<and> k_Digest k = dg \<and> k_RevokedAt k = zero_time"
  unfolding GetAPIKeyByDigest_def by (drule query_row_result) (auto dest!: find_SomeD)

lemma GetInvitationByTokenHash_found:
  "GetInvitationByTokenHash th s = (Inr i, s') \<Longrightarrow>
   find (\<lambda>i. i_TokenHash i = th) (db_invitations s) = Some i
   \<and> i \<in> set (db_invitations s) \<and> i_TokenHash i = th"
  unfolding GetInvitationByTokenHash_def by (drule query_row_result) (auto dest: find_SomeD)

lemma GetDeviceByIDAndTokenHash_found:
  "GetDeviceByIDAndTokenHash did th s = (Inr d, s') \<Longrightarrow>
   d \<in> set (db_devices s) \<and> d_ID d = did \<and> d_TokenHash d = th"
  unfolding GetDeviceByIDAndTokenHash_def by (drule query_row_result) (auto dest!: find_SomeD)

lemma ListDevices_result: "ListDevices s = (Inr ds, s') \<Longrightarrow>
   ds = order_desc (\<lambda>d. formatTime (d_CreatedAt d)) (db_devices s)"
  unfolding ListDevices_def by (drule query_all_result) auto

lemma ListPolicies_result: "ListPolicies s = (Inr ps, s') \<Longrightarrow>
   ps = order_desc (\<lambda>p. formatTime (p_CreatedAt p)) (db_policies s)"
  unfolding ListPolicies_def by (drule query_all_result) auto

lemma ListRelays_result: "ListRelays s = (Inr rs, s') \<Longrightarrow>
   rs = sort_key (\<lambda>r. (r_Region r, r_Name r)) (db_relays s)"
  unfolding ListRelays_def by (drule query_all_result) auto

lemma set_order_desc [simp]: "set (order_desc key rows) = set rows"
  by (simp add: order_desc_def)

lemma mset_order_desc [simp]: "mset (order_desc key rows) = mset rows"
  by (simp add: order_desc_def)

lemma order_desc_sorted: "sorted_wrt (\<lambda>a b. key b \<le> key a) (order_desc key rows)"
proof -
  have "sorted (map key (sort_key key (rev rows)))" by simp
  then show ?thesis by (simp add: order_desc_def sorted_wrt_rev sorted_map)
qed

text \<open>With no faults scripted, every table write succeeds or reports a conflict.\<close>

lemma no_fault_exec [simp]: "db_faults s = [] \<Longrightarrow> exec_stmt f s = f s"
  by (simp add: exec_stmt_def)

end
