(* ===== verification/Go_Base64.thy ===== *)
theory Go_Base64
  imports Linkbit_Prelude
begin

text \<open>
  Go's encoding/base64 as the program uses it: the unpadded URL encoding of keys and
  fingerprints, and the padded standard encoding of WireGuard keys with its decoder.
\<close>

section \<open>URL encoding\<close>

definition b64url_alphabet :: string where
  "b64url_alphabet = ''ABCDEFGHIJKLMNOPQRSTUVWXYZabcdefghijklmnopqrstuvwxyz0123456789-_''"

definition b64std_alphabet :: string where
  "b64std_alphabet = ''ABCDEFGHIJKLMNOPQRSTUVWXYZabcdefghijklmnopqrstuvwxyz0123456789+/''"

text \<open>The six-bit groups of a byte sequence, the last one filled with zero bits.\<close>

fun b64_groups :: "nat list \<Rightarrow> nat list" where
  "b64_groups [] = []"
| "b64_groups [a] = [a div 4, a mod 4 * 16]"
| "b64_groups [a, b] = [a div 4, a mod 4 * 16 + b div 16, b mod 16 * 4]"
| "b64_groups (a # b # c # r) =
     [a div 4, a mod 4 * 16 + b div 16, b mod 16 * 4 + c div 64, c mod 64] @ b64_groups r"

definition b64url_encode :: "nat list \<Rightarrow> string" where
  "b64url_encode bs = map (\<lambda>g. b64url_alphabet ! g) (b64_groups bs)"

definition bytes_ok :: "nat list \<Rightarrow> bool" where
  "bytes_ok bs = list_all (\<lambda>b. b < 256) bs"

lemma byte_div_bounds:
  "(b::nat) < 256 \<Longrightarrow> b div 4 < 64" "(b::nat) < 256 \<Longrightarrow> b div 16 < 16" "(b::nat) < 256 \<Longrightarrow> b div 64 < 4"
  by (simp_all add: less_mult_imp_div_less)

lemma group_bounds:
  "(b::nat) < 256 \<Longrightarrow> a mod 4 * 16 + b div 16 < 64" "(b::nat) < 256 \<Longrightarrow> a mod 16 * 4 + b div 64 < 64"
  "(a::nat) mod 16 * 4 < 64" "(a::nat) mod 4 * 16 < 64" "(a::nat) mod 64 < 64" for a :: nat
proof -
  have m: "a mod 4 < 4" "a mod 16 < 16" "a mod 64 < 64" by simp_all
  then show "a mod 16 * 4 < 64" "a mod 4 * 16 < 64" "a mod 64 < 64" by linarith+
  assume "b < 256"
  from byte_div_bounds(2,3) [OF this] m
  show "a mod 4 * 16 + b div 16 < 64" "a mod 16 * 4 + b div 64 < 64" by linarith+
qed

lemma b64_groups_bound: "bytes_ok bs \<Longrightarrow> g \<in> set (b64_groups bs) \<Longrightarrow> g < 64"
  by (induction bs rule: b64_groups.induct)
    (auto simp: bytes_ok_def group_bounds byte_div_bounds)

lemma length_b64_groups: "length (b64_groups bs) = (4 * length bs + 2) div 3"
  by (induction bs rule: b64_groups.induct) auto

lemma div_mod_eqI: "(a::nat) div n = a' div n \<Longrightarrow> a mod n = a' mod n \<Longrightarrow> a = a'"
  by (metis div_mult_mod_eq)

lemma mult_add_eqD:
  "x * n + y = x' * n + y' \<Longrightarrow> y < n \<Longrightarrow> y' < n \<Longrightarrow> x = x'"
  "x * n + y = x' * n + y' \<Longrightarrow> y < n \<Longrightarrow> y' < n \<Longrightarrow> y = y'" for n x y x' y' :: nat
proof -
  assume e: "x * n + y = x' * n + y'" and l: "y < n" "y' < n"
  from l have "(x * n + y) div n = x" "(x' * n + y') div n = x'" by simp_all
  with e show "x = x'" by simp
  with e show "y = y'" by simp
qed

lemma b64_groups_inj:
  "bytes_ok xs \<Longrightarrow> bytes_ok ys \<Longrightarrow> b64_groups xs = b64_groups ys \<Longrightarrow> length xs = length ys \<Longrightarrow> xs = ys"
proof (induction xs arbitrary: ys rule: b64_groups.induct)
  case 1
  then show ?case by simp
next
  case (2 a)
  then obtain a' where ys: "ys = [a']" by (cases ys) auto
  with 2 have "a div 4 = a' div 4" "a mod 4 = a' mod 4" by auto
  then have "a = a'" by (rule div_mod_eqI)
  with ys show ?case by simp
next
  case (3 a b)
  then obtain a' b' where ys: "ys = [a', b']" by (cases ys; cases "tl ys") auto
  with 3 have e: "a div 4 = a' div 4" "a mod 4 * 16 + b div 16 = a' mod 4 * 16 + b' div 16"
    "b mod 16 = b' mod 16" and lt: "b < 256" "b' < 256" by (auto simp: bytes_ok_def)
  note d = mult_add_eqD [OF e(2) byte_div_bounds(2) byte_div_bounds(2), OF lt]
  show ?case using ys e(1,3) d by (auto intro: div_mod_eqI)
next
  case (4 a b c r)
  then obtain a' b' c' r' where ys: "ys = a' # b' # c' # r'"
    by (cases ys; cases "tl ys"; cases "tl (tl ys)") auto
  with 4 have e: "a div 4 = a' div 4" "a mod 4 * 16 + b div 16 = a' mod 4 * 16 + b' div 16"
    "b mod 16 * 4 + c div 64 = b' mod 16 * 4 + c' div 64" "c mod 64 = c' mod 64"
    and lt: "b < 256" "b' < 256" "c < 256" "c' < 256" by (auto simp: bytes_ok_def)
  note d = mult_add_eqD [OF e(2) byte_div_bounds(2) byte_div_bounds(2), OF lt(1,2)]
    mult_add_eqD [OF e(3) byte_div_bounds(3) byte_div_bounds(3), OF lt(3,4)]
  have "a = a'" "b = b'" "c = c'" using e(1,4) d by (auto intro: div_mod_eqI)
  moreover have "r = r'" using "4.IH" [of r'] 4(2-) ys by (auto simp: bytes_ok_def)
  ultimately show ?case using ys by simp
qed

lemma alphabet_nth_inj: "g < 64 \<Longrightarrow> h < 64 \<Longrightarrow> b64url_alphabet ! g = b64url_alphabet ! h \<Longrightarrow> g = h"
proof -
  have "distinct b64url_alphabet" "length b64url_alphabet = 64" by code_simp+
  then show "g < 64 \<Longrightarrow> h < 64 \<Longrightarrow> b64url_alphabet ! g = b64url_alphabet ! h \<Longrightarrow> g = h"
    by (simp add: nth_eq_iff_index_eq)
qed

lemma b64url_encode_inj:
  assumes "bytes_ok xs" "bytes_ok ys" "length xs = length ys" "b64url_encode xs = b64url_encode ys"
  shows "xs = ys"
proof -
  have "inj_on (\<lambda>g. b64url_alphabet ! g) (set (b64_groups xs) \<union> set (b64_groups ys))"
    using b64_groups_bound assms(1,2) alphabet_nth_inj by (intro inj_onI) blast
  with assms(4) have "b64_groups xs = b64_groups ys"
    unfolding b64url_encode_def by (simp add: inj_on_map_eq_map)
  with assms show ?thesis by (blast intro: b64_groups_inj)
qed

lemma set_b64url_encode: "bytes_ok bs \<Longrightarrow> set (b64url_encode bs) \<subseteq> set b64url_alphabet"
proof -
  have "length b64url_alphabet = 64" by code_simp
  then show "bytes_ok bs \<Longrightarrow> set (b64url_encode bs) \<subseteq> set b64url_alphabet"
    using b64_groups_bound by (force simp: b64url_encode_def)
qed

section \<open>Standard encoding\<close>

fun b64std_encode :: "nat list \<Rightarrow> string" where
  "b64std_encode [] = ''''"
| "b64std_encode [a] =
     [b64std_alphabet ! (a div 4), b64std_alphabet ! (a mod 4 * 16), CHR ''='', CHR ''='']"
| "b64std_encode [a, b] =
     [b64std_alphabet ! (a div 4), b64std_alphabet ! (a mod 4 * 16 + b div 16),
      b64std_alphabet ! (b mod 16 * 4), CHR ''='']"
| "b64std_encode (a # b # c # r) =
     [b64std_alphabet ! (a div 4), b64std_alphabet ! (a mod 4 * 16 + b div 16),
      b64std_alphabet ! (b mod 16 * 4 + c div 64), b64std_alphabet ! (c mod 64)] @ b64std_encode r"

definition sextet :: "char \<Rightarrow> nat option" where
  "sextet c = map_of (zip b64std_alphabet [0..<64]) c"

text \<open>
  The decoder skips line breaks, needs complete quads, takes padding only at the end and
  ignores the unused bits before it.
\<close>

fun b64std_quads :: "string \<Rightarrow> nat list option" where
  "b64std_quads [] = Some []"
| "b64std_quads (a # b # c # d # r) =
     (case (sextet a, sextet b) of
        (Some x, Some y) \<Rightarrow>
          if c = CHR ''='' then
            (if d = CHR ''='' \<and> r = [] then Some [x * 4 + y div 16] else None)
          else (case sextet c of
            None \<Rightarrow> None
          | Some z \<Rightarrow>
              if d = CHR ''='' then
                (if r = [] then Some [x * 4 + y div 16, y mod 16 * 16 + z div 4] else None)
              else (case (sextet d, b64std_quads r) of
                (Some w, Some bs) \<Rightarrow>
                  Some ([x * 4 + y div 16, y mod 16 * 16 + z div 4, z mod 4 * 64 + w] @ bs)
              | _ \<Rightarrow> None))
      | _ \<Rightarrow> None)"
| "b64std_quads _ = None"

definition b64std_decode :: "string \<Rightarrow> nat list option" where
  "b64std_decode s = b64std_quads (filter (\<lambda>c. c \<noteq> CHR 0x0A \<and> c \<noteq> CHR 0x0D) s)"

lemma std_alphabet:
  "length b64std_alphabet = 64" "distinct b64std_alphabet" "CHR ''='' \<notin> set b64std_alphabet"
  "CHR 0x0A \<notin> set b64std_alphabet" "CHR 0x0D \<notin> set b64std_alphabet"
  by code_simp+

lemma sextet_nth [simp]: "g < 64 \<Longrightarrow> sextet (b64std_alphabet ! g) = Some g"
  unfolding sextet_def by (subst map_of_zip_nth) (simp_all add: std_alphabet)

lemma std_nth_noteq:
  "g < 64 \<Longrightarrow> b64std_alphabet ! g \<noteq> CHR ''=''"
  "g < 64 \<Longrightarrow> b64std_alphabet ! g \<noteq> CHR 0x0A" "g < 64 \<Longrightarrow> b64std_alphabet ! g \<noteq> CHR 0x0D"
  using std_alphabet by (metis nth_mem)+

text \<open>Splitting bytes into sextets and joining them again.\<close>

lemma split_digit: "q < n \<Longrightarrow> (m * n + q) div n = m" "q < n \<Longrightarrow> (m * n + q) mod n = q" for m n q :: nat
  by simp_all

lemma join_bytes:
  "b < 256 \<Longrightarrow> a div 4 * 4 + (a mod 4 * 16 + b div 16) div 16 = a"
  "b < 256 \<Longrightarrow> c < 256 \<Longrightarrow> (a mod 4 * 16 + b div 16) mod 16 * 16 + (b mod 16 * 4 + c div 64) div 4 = b"
  "c < 256 \<Longrightarrow> (b mod 16 * 4 + c div 64) mod 4 * 64 + c mod 64 = c" for a b c :: nat
  by (simp_all add: split_digit byte_div_bounds)

lemma b64std_quads_encode: "bytes_ok bs \<Longrightarrow> b64std_quads (b64std_encode bs) = Some bs"
proof (induction bs rule: b64std_encode.induct)
  case (4 a b c r)
  then show ?case
    by (simp add: bytes_ok_def group_bounds byte_div_bounds std_nth_noteq join_bytes)
qed (simp_all add: bytes_ok_def group_bounds byte_div_bounds std_nth_noteq join_bytes)

lemma b64std_no_breaks:
  "bytes_ok bs \<Longrightarrow> c \<in> set (b64std_encode bs) \<Longrightarrow> c \<noteq> CHR 0x0A \<and> c \<noteq> CHR 0x0D"
  by (induction bs rule: b64std_encode.induct)
    (auto simp: bytes_ok_def group_bounds byte_div_bounds std_nth_noteq)

lemma b64std_roundtrip: "bytes_ok bs \<Longrightarrow> b64std_decode (b64std_encode bs) = Some bs"
proof -
  assume b: "bytes_ok bs"
  then have "filter (\<lambda>c. c \<noteq> CHR 0x0A \<and> c \<noteq> CHR 0x0D) (b64std_encode bs) = b64std_encode bs"
    using b64std_no_breaks by (simp add: filter_id_conv)
  with b show "b64std_decode (b64std_encode bs) = Some bs"
    by (simp add: b64std_decode_def b64std_quads_encode)
qed

end
