(* ===== verification/Auth.thy ===== *)
theory Auth
  imports Go_Strings Go_Base64
begin

text \<open>
  internal/auth/apikey.go: generation, hashing and verification of bearer secrets. The keyed
  digest (HMAC-SHA256 in hexadecimal) is the parameter \<open>mac\<close>, a function of pepper and
  message; the random bytes are the parameter \<open>raw\<close> (\<open>None\<close> when \<open>rand.Read\<close> fails).
  Keys are encoded in the URL alphabet without padding.
\<close>

section \<open>Keys and digests\<close>

definition apiKeyBytes :: nat where "apiKeyBytes = 32"

datatype hash_error = ErrInvalidSecret | EmptyKey

definition NewAPIKey :: "nat list option \<Rightarrow> string option" where
  "NewAPIKey raw = (case raw of None \<Rightarrow> None | Some bs \<Rightarrow> Some (''lb_'' @ b64url_encode bs))"

definition HashAPIKey ::
  "(string \<Rightarrow> string \<Rightarrow> string) \<Rightarrow> string \<Rightarrow> string \<Rightarrow> hash_error + string" where
  "HashAPIKey mac apiKey pepper =
     (if pepper = '''' then Inl ErrInvalidSecret
      else
        let apiKey = trim_space apiKey
        in if apiKey = '''' then Inl EmptyKey else Inr (mac pepper apiKey))"

definition VerifyAPIKey ::
  "(string \<Rightarrow> string \<Rightarrow> string) \<Rightarrow> string \<Rightarrow> string \<Rightarrow> string \<Rightarrow> bool" where
  "VerifyAPIKey mac presented expectedDigest pepper =
     (case HashAPIKey mac presented pepper of
        Inl _ \<Rightarrow> False
      | Inr actualDigest \<Rightarrow> actualDigest = expectedDigest)"

section \<open>The credential interface\<close>

text \<open>
  What the server relies on: a secret is hashed to a digest or refused, and verification
  accepts exactly the digest that hashing gives.
\<close>

locale credential =
  fixes hash :: "'k \<Rightarrow> 'e + 'd" and verify :: "'k \<Rightarrow> 'd \<Rightarrow> bool"
  assumes verify_iff: "verify k d \<longleftrightarrow> hash k = Inr d"
begin

lemma verify_hashed: "hash k = Inr d \<Longrightarrow> verify k d"
  by (simp add: verify_iff)

lemma verify_unique: "verify k d \<Longrightarrow> verify k d' \<Longrightarrow> d = d'"
  by (simp add: verify_iff)

lemma unhashable_rejected: "hash k = Inl e \<Longrightarrow> \<not> verify k d"
  by (simp add: verify_iff)

end

interpretation api_credential:
  credential "\<lambda>k. HashAPIKey mac k pepper" "\<lambda>k d. VerifyAPIKey mac k d pepper" for mac pepper
  by unfold_locales (auto simp: VerifyAPIKey_def split: sum.splits)

lemma HashAPIKey_InrD:
  "HashAPIKey mac key pepper = Inr d \<Longrightarrow>
   pepper \<noteq> '''' \<and> trim_space key \<noteq> '''' \<and> d = mac pepper (trim_space key)"
  by (auto simp: HashAPIKey_def Let_def split: if_splits)

lemma HashAPIKey_InrI:
  "pepper \<noteq> '''' \<Longrightarrow> trim_space key \<noteq> '''' \<Longrightarrow>
   HashAPIKey mac key pepper = Inr (mac pepper (trim_space key))"
  by (simp add: HashAPIKey_def)

lemma key_chars_space_free:
  assumes "bytes_ok bs"
  shows "space_free (''lb_'' @ b64url_encode bs)"
proof -
  have "set b64url_alphabet \<inter> set (concat space_encodings) = {}"
    "set ''lb_'' \<inter> set (concat space_encodings) = {}" by code_simp+
  then show ?thesis
    using set_b64url_encode [OF assms] by (auto simp: space_free_def)
qed

lemma NewAPIKey_trim: "bytes_ok bs \<Longrightarrow> NewAPIKey (Some bs) = Some k \<Longrightarrow> trim_space k = k"
  using key_chars_space_free by (auto simp: NewAPIKey_def intro!: trim_space_id)

end
