(* ===== verification/Server.thy ===== *)
theory Server
  imports Store_Laws Auth Broker_Props Wireguard_Hub
begin

text \<open>
  The controller's HTTP server of internal/controller/server.go: its state, the answers it can
  give, the checks a request passes through (API key scopes, device credentials) and the
  handlers except those of the TCP relay. A handler is an action on the server state that
  returns a value or ends the request early with a response, as the Go handlers do with
  \<open>writeError\<close> and \<open>return\<close>.

  What comes from outside is an argument. \<open>lib\<close> holds the functions that stay the same for the
  life of the server (the keyed digest, Unicode case folding, \<open>url.Parse\<close>, Go's map order, the
  status of a redirection by \<open>http.ServeMux\<close>, 301 or 307 by the release of Go);
  \<open>env\<close> holds what one request draws from its surroundings (clock readings, random bytes,
  UUIDs, the outcome of commands and of taking over the connection). A request carries the
  results of \<open>encoding/json\<close> on its body: for each payload type what \<open>Decode\<close> gives, and
  whether nothing follows.
\<close>

section \<open>State and surroundings\<close>

record server =
  sv_cfg :: controller_config
  sv_adminDigest :: string
  sv_db :: db
  sv_hub :: "hub option"
  sv_broker :: broker
  sv_events :: "event list"
  sv_dropped :: "conn list"

record lib =
  l_mac :: "string \<Rightarrow> string \<Rightarrow> string"
  l_unifold :: "string \<Rightarrow> string \<Rightarrow> bool"
  l_url :: url_parser
  l_order :: iteration_order
  l_redirect :: nat

datatype hijack = NoHijacker | HijackFailed | WriteFailed conn | Switched conn

record env =
  e_now :: "nat \<Rightarrow> gotime"
  e_uuid :: "nat \<Rightarrow> string"
  e_vip :: "8 word \<times> 8 word"
  e_rand :: "nat list option"
  e_run :: runner
  e_keyFile :: "string option"
  e_hijack :: hijack
  e_cause :: wake_cause
  e_others :: "broker \<Rightarrow> broker"

record json_body =
  jb_user :: "user_create_request option"
  jb_group :: "device_group_create_request option"
  jb_relay :: "relay_node option"
  jb_key :: "api_key_create_request option"
  jb_register :: "device_registration_request option"
  jb_health :: "device_health_report option"
  jb_invitation :: "invitation_create_request option"
  jb_policy :: "network_policy option"
  jb_session :: "tcp_relay_session_request option"
  jb_eof :: bool

text \<open>
  The path as its unescaped segments, and whether the path as it was sent is clean: \<open>path.Clean\<close>
  would leave its escaped form as it is, but for a slash at the end.
\<close>

record request =
  q_method :: string
  q_path :: "string list"
  q_clean :: bool
  q_apiKey :: string
  q_deviceToken :: string
  q_deviceIDHeader :: string
  q_deviceIDQuery :: string
  q_sourceQuery :: string
  q_wait :: string
  q_body :: json_body

datatype payload = PEmpty | PError string | PHealth | PText string | POverview overview
  | PSettings controller_settings | PDerp "(nat \<times> derp_region) list"
  | PUser user | PUsers "user list" | PGroup device_group | PGroups "device_group list"
  | PRelay relay_node | PRelays "relay_node list" | PKey api_key | PKeys "api_key list"
  | PDevice device | PDevices "device list" | PRegistered device_registration_response
  | PConfig network_config | PInvitation invitation | PPolicy network_policy
  | PPolicies "network_policy list" | PSession tcp_relay_session
  | PSessions "tcp_relay_session list" | PStream conn | PNothing

record response =
  rs_status :: nat
  rs_headers :: "(string \<times> string) list"
  rs_body :: payload

section \<open>Actions\<close>

type_synonym 'a act = "server \<Rightarrow> (response + 'a) \<times> server"

definition return_act :: "'a \<Rightarrow> 'a act" where "return_act a sv = (Inr a, sv)"

definition respond :: "response \<Rightarrow> 'a act" where "respond r sv = (Inl r, sv)"

definition then_act :: "'a act \<Rightarrow> ('a \<Rightarrow> 'b act) \<Rightarrow> 'b act" where
  "then_act m f sv = (case m sv of (Inl r, sv') \<Rightarrow> (Inl r, sv') | (Inr a, sv') \<Rightarrow> f a sv')"

definition reject_if :: "bool \<Rightarrow> response \<Rightarrow> unit act" where
  "reject_if c r = (if c then respond r else return_act ())"

definition get_act :: "(server \<Rightarrow> 'a) \<Rightarrow> 'a act" where "get_act f sv = (Inr (f sv), sv)"

text \<open>A call of the store whose error is the caller's to look at, and one whose error ends the request.\<close>

definition try_store :: "'a stmt \<Rightarrow> (store_err + 'a) act" where
  "try_store f sv = (case f (sv_db sv) of (x, d) \<Rightarrow> (Inr x, sv\<lparr>sv_db := d\<rparr>))"

definition or_else :: "('e \<Rightarrow> response) \<Rightarrow> 'e + 'a \<Rightarrow> 'a act" where
  "or_else on_err x = (case x of Inl e \<Rightarrow> respond (on_err e) | Inr a \<Rightarrow> return_act a)"

definition call_store :: "'a stmt \<Rightarrow> (store_err \<Rightarrow> response) \<Rightarrow> 'a act" where
  "call_store f on_err = then_act (try_store f) (or_else on_err)"

definition finish :: "response act \<Rightarrow> server \<Rightarrow> response \<times> server" where
  "finish m sv = (case m sv of (Inl r, sv') \<Rightarrow> (r, sv') | (Inr r, sv') \<Rightarrow> (r, sv'))"

definition writeJSON :: "nat \<Rightarrow> payload \<Rightarrow> response" where
  "writeJSON status payload =
     \<lparr>rs_status = status, rs_headers = [(''Content-Type'', ''application/json'')], rs_body = payload\<rparr>"

definition writeError :: "nat \<Rightarrow> string \<Rightarrow> response" where
  "writeError status message = writeJSON status (PError message)"

definition noContent :: response where
  "noContent = \<lparr>rs_status = 204, rs_headers = [], rs_body = PEmpty\<rparr>"

definition decodeJSON :: "(json_body \<Rightarrow> 'a option) \<Rightarrow> request \<Rightarrow> 'a option" where
  "decodeJSON get q =
     (case get (q_body q) of None \<Rightarrow> None | Some v \<Rightarrow> if jb_eof (q_body q) then Some v else None)"

definition decode_or :: "(json_body \<Rightarrow> 'a option) \<Rightarrow> request \<Rightarrow> string \<Rightarrow> 'a act" where
  "decode_or get q message =
     (case decodeJSON get q of None \<Rightarrow> respond (writeError 400 message) | Some v \<Rightarrow> return_act v)"

definition missing_or :: "string \<Rightarrow> nat \<Rightarrow> string \<Rightarrow> store_err \<Rightarrow> response" where
  "missing_or gone status message err =
     (if IsNotFound err then writeError 404 gone else writeError status message)"

section \<open>Construction\<close>

datatype server_error = BadBootstrapKey hash_error | HubError hub_error

definition NewServer ::
  "lib \<Rightarrow> (string \<Rightarrow> string option) \<Rightarrow> controller_config \<Rightarrow> string \<Rightarrow> db \<Rightarrow> server_error + server" where
  "NewServer lib wg_pubkey cfg bootstrapAPIKey storage =
     (case HashAPIKey (l_mac lib) bootstrapAPIKey (cc_APIKeyPepper cfg) of
        Inl e \<Rightarrow> Inl (BadBootstrapKey e)
      | Inr digest \<Rightarrow>
          (case NewWireGuardHub (l_url lib) wg_pubkey cfg of
             Inl e \<Rightarrow> Inl (HubError e)
           | Inr hub \<Rightarrow> Inr \<lparr>sv_cfg = cfg, sv_adminDigest = digest, sv_db = storage, sv_hub = hub,
               sv_broker = NewTCPRelayBroker, sv_events = [], sv_dropped = []\<rparr>))"

definition SyncHub :: "env \<Rightarrow> unit act" where
  "SyncHub env sv =
     (case sv_hub sv of
        None \<Rightarrow> (Inr (), sv)
      | Some h \<Rightarrow>
          (case ListDevices (sv_db sv) of
             (x, d) \<Rightarrow> (Inr (), sv\<lparr>sv_db := d,
                sv_events := SyncFromStore (e_run env) (e_keyFile env) (Some h)
                  (case x of Inl _ \<Rightarrow> None | Inr ds \<Rightarrow> Some ds) (sv_events sv)\<rparr>)))"

section \<open>API keys\<close>

definition pepper :: "server \<Rightarrow> string" where "pepper sv = cc_APIKeyPepper (sv_cfg sv)"

definition verifyAPIKeyScope :: "lib \<Rightarrow> env \<Rightarrow> string \<Rightarrow> string list \<Rightarrow> server \<Rightarrow> bool \<times> server" where
  "verifyAPIKeyScope lib env apiKey scopes sv =
     (if scopeAllowed ''admin'' scopes \<and> VerifyAPIKey (l_mac lib) apiKey (sv_adminDigest sv) (pepper sv)
      then (True, sv)
      else
        (case HashAPIKey (l_mac lib) apiKey (pepper sv) of
           Inl _ \<Rightarrow> (False, sv)
         | Inr digest \<Rightarrow>
             (case GetAPIKeyByDigest digest (sv_db sv) of
                (Inl _, d) \<Rightarrow> (False, sv\<lparr>sv_db := d\<rparr>)
              | (Inr stored, d) \<Rightarrow>
                  if \<not> scopeAllowed (k_Scope stored) scopes then (False, sv\<lparr>sv_db := d\<rparr>)
                  else (case TouchAPIKey (e_now env 0) (k_ID stored) d of
                          (_, d') \<Rightarrow> (True, sv\<lparr>sv_db := d'\<rparr>)))))"

definition requireAPIKeyScopes ::
  "lib \<Rightarrow> env \<Rightarrow> request \<Rightarrow> response act \<Rightarrow> string list \<Rightarrow> response act" where
  "requireAPIKeyScopes lib env q handler scopes sv =
     (case verifyAPIKeyScope lib env (q_apiKey q) scopes sv of
        (False, sv') \<Rightarrow> (Inl (writeError 401 ''invalid api key''), sv')
      | (True, sv') \<Rightarrow> handler sv')"

definition requireAPIKey :: "lib \<Rightarrow> env \<Rightarrow> request \<Rightarrow> response act \<Rightarrow> response act" where
  "requireAPIKey lib env q handler = requireAPIKeyScopes lib env q handler [''admin'']"

definition hash_act :: "lib \<Rightarrow> string \<Rightarrow> response \<Rightarrow> string act" where
  "hash_act lib key on_err =
     then_act (get_act (\<lambda>sv. HashAPIKey (l_mac lib) key (pepper sv))) (or_else (\<lambda>_. on_err))"

section \<open>Device credentials\<close>

definition credential_error :: "store_err \<Rightarrow> response" where
  "credential_error err =
     (if IsNotFound err then writeError 401 ''invalid device token''
      else writeError 500 ''device authentication failed'')"

definition authenticateDeviceCredentials :: "lib \<Rightarrow> request \<Rightarrow> string \<Rightarrow> device act" where
  "authenticateDeviceCredentials lib q deviceID =
     then_act (reject_if (deviceID = '''' \<or> q_deviceToken q = '''')
                 (writeError 401 ''device id and token are required'')) (\<lambda>_.
     then_act (hash_act lib (q_deviceToken q) (writeError 401 ''invalid device token'')) (\<lambda>tokenHash.
     call_store (GetDeviceByIDAndTokenHash deviceID tokenHash) credential_error))"

text \<open>The same for the id in the path.\<close>

definition authenticateDevice :: "lib \<Rightarrow> request \<Rightarrow> string \<Rightarrow> device act" where
  "authenticateDevice lib q pathID =
     then_act (reject_if (pathID = '''' \<or> q_deviceToken q = '''')
                 (writeError 401 ''device id and token are required'')) (\<lambda>_.
     then_act (hash_act lib (q_deviceToken q) (writeError 401 ''invalid device token'')) (\<lambda>tokenHash.
     call_store (GetDeviceByIDAndTokenHash pathID tokenHash) credential_error))"

end
