(* ===== verification/Handlers.thy ===== *)
theory Handlers
  imports Server
begin

text \<open>
  The request handlers of internal/controller/server.go and the four relay handlers of
  internal/controller/tcp_relay.go, the route table of \<open>Server.Handler\<close> and the dispatch of a
  request through it. An error answer carries the message the code sends.
\<close>

section \<open>Overview, settings, metrics, relay map\<close>

definition handleHealth :: "response act" where
  "handleHealth = return_act (writeJSON 200 PHealth)"

definition handleOverview :: "response act" where
  "handleOverview =
     then_act (call_store Overview (\<lambda>_. writeError 500 ''overview failed''))
       (\<lambda>ov. return_act (writeJSON 200 (POverview ov)))"

definition handleSettings :: "response act" where
  "handleSettings =
     get_act (\<lambda>sv. writeJSON 200 (PSettings
       \<lparr>cs_PublicURL = cc_PublicURL (sv_cfg sv), cs_ListenAddr = cc_ListenAddr (sv_cfg sv),
        cs_LogLevel = cc_LogLevel (sv_cfg sv), cs_WebConsoleEnabled = (cc_WebDir (sv_cfg sv) \<noteq> ''''),
        cs_DatabaseBackend = ''sqlite''\<rparr>))"

definition metric_line :: "string \<Rightarrow> nat \<Rightarrow> string" where
  "metric_line name n = name @ '' '' @ itoa (int n) @ [CHR 0x0A]"

definition handleMetrics :: "response act" where
  "handleMetrics =
     then_act (call_store Overview (\<lambda>_. writeError 500 ''metrics failed''))
       (\<lambda>ov. return_act \<lparr>rs_status = 200,
          rs_headers = [(''Content-Type'', ''text/plain; version=0.0.4'')],
          rs_body = PText (metric_line ''linkbit_devices_total'' (ov_TotalDevices ov)
            @ metric_line ''linkbit_devices_online'' (ov_OnlineDevices ov)
            @ metric_line ''linkbit_relays_total'' (ov_RelayNodes ov)
            @ metric_line ''linkbit_relays_healthy'' (ov_HealthyRelays ov)
            @ metric_line ''linkbit_policies_total'' (ov_PolicyCount ov))\<rparr>)"

definition handleDERPMap :: "lib \<Rightarrow> response act" where
  "handleDERPMap lib =
     then_act (call_store ListRelays (\<lambda>_. writeError 500 ''derp map failed''))
       (\<lambda>relays. return_act (writeJSON 200 (PDerp (buildDERPMap (l_url lib) (l_order lib) relays))))"

section \<open>Users and groups\<close>

definition handleUserCreate :: "env \<Rightarrow> request \<Rightarrow> response act" where
  "handleUserCreate env q =
     then_act (decode_or jb_user q ''invalid user payload'') (\<lambda>req.
     then_act (reject_if (trim_space (ucr_Name req) = '''') (writeError 400 ''name is required'')) (\<lambda>_.
       let req1 = (if trim_space (ucr_ID req) = '''' then req\<lparr>ucr_ID := e_uuid env 0\<rparr> else req);
           req2 = (if ucr_Role req1 = '''' then req1\<lparr>ucr_Role := ''member''\<rparr> else req1)
       in then_act (reject_if (ucr_Role req2 \<noteq> ''admin'' \<and> ucr_Role req2 \<noteq> ''member'')
                      (writeError 400 ''role must be admin or member'')) (\<lambda>_.
          let u = \<lparr>u_ID = trim_space (ucr_ID req2), u_Name = trim_space (ucr_Name req2),
                   u_Email = trim_space (ucr_Email req2), u_Role = ucr_Role req2, u_CreatedAt = e_now env 1\<rparr>
          in then_act (call_store (CreateUser u) (\<lambda>_. writeError 500 ''user creation failed''))
               (\<lambda>_. return_act (writeJSON 201 (PUser u))))))"

definition handleUserList :: "response act" where
  "handleUserList =
     then_act (call_store ListUsers (\<lambda>_. writeError 500 ''list users failed''))
       (\<lambda>users. return_act (writeJSON 200 (PUsers users)))"

definition handleGroupCreate :: "env \<Rightarrow> request \<Rightarrow> response act" where
  "handleGroupCreate env q =
     then_act (decode_or jb_group q ''invalid group payload'') (\<lambda>req.
     then_act (reject_if (trim_space (gcr_Name req) = '''') (writeError 400 ''name is required'')) (\<lambda>_.
       let req1 = (if trim_space (gcr_ID req) = '''' then req\<lparr>gcr_ID := e_uuid env 0\<rparr> else req);
           g = \<lparr>g_ID = trim_space (gcr_ID req1), g_Name = trim_space (gcr_Name req1),
                g_Description = trim_space (gcr_Description req1), g_CreatedAt = e_now env 1\<rparr>
       in then_act (call_store (CreateGroup g) (\<lambda>_. writeError 500 ''group creation failed''))
            (\<lambda>_. return_act (writeJSON 201 (PGroup g)))))"

definition handleGroupList :: "response act" where
  "handleGroupList =
     then_act (call_store ListGroups (\<lambda>_. writeError 500 ''list groups failed''))
       (\<lambda>groups. return_act (writeJSON 200 (PGroups groups)))"

section \<open>Relays\<close>

definition handleRelayRegister :: "env \<Rightarrow> request \<Rightarrow> response act" where
  "handleRelayRegister env q =
     then_act (decode_or jb_relay q ''invalid relay payload'') (\<lambda>relay.
     then_act (reject_if (trim_space (r_ID relay) = '''' \<or> trim_space (r_PublicURL relay) = '''')
                 (writeError 400 ''relay id and publicUrl are required'')) (\<lambda>_.
       let now = e_now env 1;
           relay' = relay\<lparr>r_Registered := now, r_LastSeenAt := now, r_Status := RelayStatusHealthy\<rparr>
       in then_act (call_store (UpsertRelay relay') (\<lambda>_. writeError 500 ''relay registration failed''))
            (\<lambda>_. return_act (writeJSON 201 (PRelay relay')))))"

definition handleRelayDelete :: "string \<Rightarrow> response act" where
  "handleRelayDelete relayID =
     then_act (reject_if (relayID = '''') (writeError 400 ''relay id is required'')) (\<lambda>_.
     then_act (call_store (DeleteRelay relayID) (\<lambda>_. writeError 500 ''delete relay failed''))
       (\<lambda>_. return_act noContent))"

definition handleRelayHeartbeat :: "env \<Rightarrow> request \<Rightarrow> response act" where
  "handleRelayHeartbeat env q =
     then_act (decode_or jb_relay q ''invalid heartbeat payload'') (\<lambda>relay.
     then_act (reject_if (r_ID relay = '''') (writeError 400 ''relay id is required'')) (\<lambda>_.
     then_act (call_store (HeartbeatRelay (e_now env 1) (r_ID relay) (r_Load relay))
                 (missing_or ''relay is not registered'' 500 ''relay heartbeat failed''))
       (\<lambda>existing. return_act (writeJSON 200 (PRelay existing)))))"

definition handleRelayList :: "response act" where
  "handleRelayList =
     then_act (call_store ListRelays (\<lambda>_. writeError 500 ''list relays failed''))
       (\<lambda>relays. return_act (writeJSON 200 (PRelays relays)))"

section \<open>API keys\<close>

definition handleAPIKeyCreate :: "lib \<Rightarrow> env \<Rightarrow> request \<Rightarrow> response act" where
  "handleAPIKeyCreate lib env q =
     then_act (decode_or jb_key q ''invalid api key payload'') (\<lambda>req.
     then_act (reject_if (trim_space (kcr_Name req) = '''') (writeError 400 ''name is required'')) (\<lambda>_.
       let req1 = (if kcr_Scope req = '''' then req\<lparr>kcr_Scope := ''admin''\<rparr> else req)
       in then_act (reject_if (kcr_Scope req1 \<noteq> ''admin'' \<and> kcr_Scope req1 \<noteq> ''relay'')
                      (writeError 400 ''scope must be admin or relay'')) (\<lambda>_.
          case NewAPIKey (e_rand env) of
            None \<Rightarrow> respond (writeError 500 ''api key creation failed'')
          | Some key \<Rightarrow>
              then_act (hash_act lib key (writeError 500 ''api key creation failed'')) (\<lambda>digest.
                let apiKey = \<lparr>k_ID = e_uuid env 0, k_Name = trim_space (kcr_Name req1), k_Digest = digest,
                      k_Scope = kcr_Scope req1, k_CreatedAt = e_now env 1, k_LastUsedAt = zero_time,
                      k_RevokedAt = zero_time, k_PlaintextKey = key\<rparr>
                in then_act (call_store (CreateAPIKey apiKey) (\<lambda>_. writeError 500 ''api key creation failed''))
                     (\<lambda>_. return_act (writeJSON 201 (PKey (wire_api_key apiKey))))))))"

definition handleAPIKeyList :: "response act" where
  "handleAPIKeyList =
     then_act (call_store ListAPIKeys (\<lambda>_. writeError 500 ''list api keys failed''))
       (\<lambda>keys. return_act (writeJSON 200 (PKeys (map wire_api_key keys))))"

definition handleAPIKeyRevoke :: "env \<Rightarrow> string \<Rightarrow> response act" where
  "handleAPIKeyRevoke env keyID =
     then_act (reject_if (keyID = '''') (writeError 400 ''api key id is required'')) (\<lambda>_.
     then_act (call_store (RevokeAPIKey (e_now env 1) keyID)
                 (missing_or ''api key not found'' 500 ''api key revoke failed''))
       (\<lambda>_. return_act noContent))"

section \<open>Devices\<close>

definition handleDeviceList :: "response act" where
  "handleDeviceList =
     then_act (call_store ListDevices (\<lambda>_. writeError 500 ''list devices failed''))
       (\<lambda>devices. return_act (writeJSON 200 (PDevices (map wire_device devices))))"

definition handleDeviceDelete :: "env \<Rightarrow> string \<Rightarrow> response act" where
  "handleDeviceDelete env pathID =
     (let deviceID = trim_space pathID
      in then_act (reject_if (deviceID = '''') (writeError 400 ''device id is required'')) (\<lambda>_.
         then_act (call_store (DeleteDevice deviceID)
                     (missing_or ''device not found'' 500 ''device deletion failed'')) (\<lambda>_.
         then_act (SyncHub env) (\<lambda>_. return_act noContent))))"

text \<open>
  Registration in the order of the code: the checks of the payload, the lookup of the
  invitation and its own checks, the new device, and only after the device is stored the
  marking of a one-time invitation, whose failure is logged and ignored.
\<close>

definition invitation_error :: "store_err \<Rightarrow> response" where
  "invitation_error err =
     (if IsNotFound err then writeError 401 ''invalid enrollment key''
      else writeError 500 ''registration failed'')"

definition new_device ::
  "env \<Rightarrow> device_registration_request \<Rightarrow> invitation \<Rightarrow> string \<Rightarrow> string \<Rightarrow> string \<Rightarrow> device" where
  "new_device env req invit endpoint deviceToken tokenHash =
     \<lparr>d_ID = e_uuid env 0, d_UserID = i_UserID invit, d_GroupID = i_GroupID invit,
      d_Name = trim_space (drr_Name req), d_VirtualIP = virtualIPFromUUID (e_vip env),
      d_PublicKey = trim_space (drr_PublicKey req), d_Endpoint = endpoint, d_TokenHash = tokenHash,
      d_DeviceToken = deviceToken, d_Status = DeviceStatusOnline, d_LastSeenAt = e_now env 2,
      d_CreatedAt = e_now env 2, d_Fingerprint = trim_space (drr_Fingerprint req)\<rparr>"

definition check_registration :: "request \<Rightarrow> device_registration_request act" where
  "check_registration q =
     then_act (decode_or jb_register q ''invalid registration payload'') (\<lambda>req.
     then_act (reject_if (trim_space (drr_EnrollmentKey req) = '''' \<or> trim_space (drr_Name req) = ''''
                          \<or> trim_space (drr_PublicKey req) = '''')
                 (writeError 400 ''enrollmentKey, name, and publicKey are required'')) (\<lambda>_.
     then_act (reject_if (\<not> validWireGuardEndpoint (trim_space (drr_Endpoint req)))
                 (writeError 400 ''endpoint must be host:port when provided'')) (\<lambda>_.
     return_act req)))"

definition find_invitation :: "lib \<Rightarrow> env \<Rightarrow> device_registration_request \<Rightarrow> invitation act" where
  "find_invitation lib env req =
     then_act (hash_act lib (drr_EnrollmentKey req) (writeError 400 ''invalid enrollment key'')) (\<lambda>tokenHash.
     then_act (call_store (GetInvitationByTokenHash tokenHash) invitation_error) (\<lambda>invit.
     then_act (reject_if (time_after (e_now env 1) (i_ExpiresAt invit))
                 (writeError 401 ''enrollment key expired'')) (\<lambda>_.
     then_act (reject_if (\<not> i_Reusable invit \<and> \<not> is_zero (i_UsedAt invit))
                 (writeError 409 ''enrollment key already used'')) (\<lambda>_.
     return_act invit))))"

definition create_device ::
  "lib \<Rightarrow> env \<Rightarrow> device_registration_request \<Rightarrow> invitation \<Rightarrow> device act" where
  "create_device lib env req invit =
     (case NewAPIKey (e_rand env) of
        None \<Rightarrow> respond (writeError 500 ''device registration failed'')
      | Some deviceToken \<Rightarrow>
          then_act (hash_act lib deviceToken (writeError 500 ''device registration failed'')) (\<lambda>tokenHash.
            let d = new_device env req invit (trim_space (drr_Endpoint req)) deviceToken tokenHash
            in then_act (call_store (CreateDevice d) (\<lambda>_. writeError 500 ''device registration failed''))
                 (\<lambda>_. return_act d)))"

definition mark_used :: "env \<Rightarrow> invitation \<Rightarrow> unit act" where
  "mark_used env invit =
     (if \<not> i_Reusable invit
      then then_act (try_store (MarkInvitationUsed (e_now env 3) (i_ID invit))) (\<lambda>_. return_act ())
      else return_act ())"

definition handleDeviceRegister :: "lib \<Rightarrow> env \<Rightarrow> request \<Rightarrow> response act" where
  "handleDeviceRegister lib env q =
     then_act (check_registration q) (\<lambda>req.
     then_act (find_invitation lib env req) (\<lambda>invit.
     then_act (create_device lib env req invit) (\<lambda>d.
     then_act (SyncHub env) (\<lambda>_.
     then_act (mark_used env invit) (\<lambda>_.
     then_act (try_store ListRelays) (\<lambda>relays.
     return_act (writeJSON 201 (PRegistered
       \<lparr>resp_Device = wire_device d,
        resp_Relays = (case relays of Inl _ \<Rightarrow> [] | Inr rs \<Rightarrow> rs),
        resp_Message = ''device registered''\<rparr>))))))))"

definition handleDeviceHealth :: "lib \<Rightarrow> env \<Rightarrow> request \<Rightarrow> string \<Rightarrow> response act" where
  "handleDeviceHealth lib env q deviceID =
     then_act (reject_if (deviceID = '''' \<or> q_deviceToken q = '''')
                 (writeError 401 ''device id and token are required'')) (\<lambda>_.
     then_act (hash_act lib (q_deviceToken q) (writeError 401 ''invalid device token'')) (\<lambda>tokenHash.
     then_act (decode_or jb_health q ''invalid health payload'') (\<lambda>report.
       let report' = report\<lparr>dhr_Endpoint := trim_space (dhr_Endpoint report)\<rparr>
       in then_act (reject_if (\<not> validWireGuardEndpoint (dhr_Endpoint report'))
                      (writeError 400 ''endpoint must be host:port when provided'')) (\<lambda>_.
          then_act (call_store (UpdateDeviceHealth (e_now env 1) deviceID tokenHash report')
                      (\<lambda>err. if IsNotFound err then writeError 401 ''invalid device token''
                             else writeError 500 ''health update failed''))
            (\<lambda>d. return_act (writeJSON 200 (PDevice (wire_device d))))))))"

definition handleDeviceNetworkConfig :: "lib \<Rightarrow> request \<Rightarrow> string \<Rightarrow> response act" where
  "handleDeviceNetworkConfig lib q pathID =
     then_act (authenticateDevice lib q pathID) (\<lambda>d.
     then_act (call_store ListDevices (\<lambda>_. writeError 500 ''network config failed'')) (\<lambda>devices.
     then_act (call_store ListPolicies (\<lambda>_. writeError 500 ''network config failed'')) (\<lambda>policies.
     then_act (call_store ListRelays (\<lambda>_. writeError 500 ''network config failed'')) (\<lambda>relays.
     get_act (\<lambda>sv.
       let peers = allowedPeers d devices policies;
           peers' = (if sv_hub sv \<noteq> None then peers @ [NetworkPeer (sv_hub sv)] else peers)
       in writeJSON 200 (PConfig \<lparr>nc_Device = wire_device d, nc_Peers = peers',
            nc_Policies = policies, nc_Relays = relays\<rparr>))))))"

section \<open>Invitations\<close>

text \<open>The product of seconds wraps in the signed 64-bit duration.\<close>

definition expires_in :: "64 word \<Rightarrow> int" where
  "expires_in seconds = sint (seconds * 1000000000)"

text \<open>The checks, giving the request with its group filled in and the duration; then the token.\<close>

definition check_invitation :: "request \<Rightarrow> (invitation_create_request \<times> int) act" where
  "check_invitation q =
     then_act (decode_or jb_invitation q ''invalid invitation payload'') (\<lambda>req0.
     then_act (reject_if (trim_space (icr_UserID req0) = '''') (writeError 400 ''userId is required'')) (\<lambda>_.
       let req = (if trim_space (icr_GroupID req0) = '''' then req0\<lparr>icr_GroupID := ''default''\<rparr> else req0)
       in then_act (call_store (GetUser (trim_space (icr_UserID req)))
                      (\<lambda>_. writeError 400 ''userId does not exist'')) (\<lambda>_.
          then_act (call_store (GetGroup (trim_space (icr_GroupID req)))
                      (\<lambda>_. writeError 400 ''groupId does not exist'')) (\<lambda>_.
            let d0 = expires_in (icr_ExpiresInSeconds req);
                expiresIn = (if d0 \<le> 0 then 24 * hour else d0)
            in then_act (reject_if (expiresIn > 30 * 24 * hour)
                           (writeError 400 ''expiration must be 30 days or less''))
                 (\<lambda>_. return_act (req, expiresIn))))))"

definition issue_invitation ::
  "lib \<Rightarrow> env \<Rightarrow> invitation_create_request \<Rightarrow> int \<Rightarrow> response act" where
  "issue_invitation lib env req expiresIn =
     (case NewAPIKey (e_rand env) of
        None \<Rightarrow> respond (writeError 500 ''invitation creation failed'')
      | Some token \<Rightarrow>
          then_act (hash_act lib token (writeError 500 ''invitation creation failed'')) (\<lambda>tokenHash.
            let now = e_now env 1;
                invitation = \<lparr>i_ID = e_uuid env 0, i_TokenHash = tokenHash,
                  i_UserID = trim_space (icr_UserID req), i_GroupID = trim_space (icr_GroupID req),
                  i_Reusable = icr_Reusable req, i_ExpiresAt = time_add now expiresIn,
                  i_UsedAt = zero_time, i_CreatedAt = now, i_PlaintextToken = token\<rparr>
            in then_act (call_store (CreateInvitation invitation)
                           (\<lambda>_. writeError 500 ''invitation creation failed''))
                 (\<lambda>_. return_act (writeJSON 201 (PInvitation (wire_invitation invitation))))))"

definition handleInvitationCreate :: "lib \<Rightarrow> env \<Rightarrow> request \<Rightarrow> response act" where
  "handleInvitationCreate lib env q =
     then_act (check_invitation q) (\<lambda>(req, expiresIn). issue_invitation lib env req expiresIn)"

section \<open>Policies\<close>

definition handlePolicyCreate :: "env \<Rightarrow> request \<Rightarrow> response act" where
  "handlePolicyCreate env q =
     then_act (decode_or jb_policy q ''invalid policy payload'') (\<lambda>p0.
     then_act (reject_if (p_ID p0 = '''' \<or> p_SourceID p0 = '''' \<or> p_TargetID p0 = '''')
                 (writeError 400 ''policy id, sourceId, and targetId are required'')) (\<lambda>_.
       let now = e_now env 1;
           p1 = (if p_Name p0 = '''' then p0\<lparr>p_Name := p_SourceID p0 @ '' to '' @ p_TargetID p0\<rparr> else p0);
           p2 = (if p_Protocol p1 = '''' then p1\<lparr>p_Protocol := ''tcp''\<rparr> else p1);
           p3 = (if p_Ports p2 = None then p2\<lparr>p_Ports := Some [''*'']\<rparr> else p2);
           policy = p3\<lparr>p_CreatedAt := now, p_UpdatedAt := now\<rparr>
       in then_act (call_store (CreatePolicy policy) (\<lambda>_. writeError 500 ''policy creation failed''))
            (\<lambda>_. return_act (writeJSON 201 (PPolicy policy)))))"

definition handlePolicyList :: "response act" where
  "handlePolicyList =
     then_act (call_store ListPolicies (\<lambda>_. writeError 500 ''list policies failed''))
       (\<lambda>policies. return_act (writeJSON 200 (PPolicies policies)))"

definition handlePolicyDelete :: "string \<Rightarrow> response act" where
  "handlePolicyDelete policyID =
     then_act (reject_if (policyID = '''') (writeError 400 ''policy id is required'')) (\<lambda>_.
     then_act (call_store (DeletePolicy policyID)
                 (missing_or ''policy not found'' 500 ''policy deletion failed''))
       (\<lambda>_. return_act noContent))"

section \<open>TCP relay\<close>

datatype target_error = TargetRequired | ListDevicesFailed | ListPoliciesFailed | TargetNotFound

fun target_message :: "target_error \<Rightarrow> string" where
  "target_message TargetRequired = ''target is required''"
| "target_message ListDevicesFailed = ''list devices failed''"
| "target_message ListPoliciesFailed = ''list policies failed''"
| "target_message TargetNotFound = ''target device not found''"

fun relay_message :: "relay_error \<Rightarrow> string" where
  "relay_message SessionNotFound = ''relay session not found''"
| "relay_message SourceMismatch = ''relay session source mismatch''"
| "relay_message TargetMismatch = ''relay session target mismatch''"
| "relay_message ClientAttached = ''relay client stream already attached''"
| "relay_message AgentAttached = ''relay agent stream already attached''"
| "relay_message SessionExpired = ''relay session expired''"
| "relay_message ClientRejected = ''relay client stream rejected''"
| "relay_message AgentRejected = ''relay agent stream rejected''"

text \<open>The loops of \<open>resolveRelayTarget\<close>: the first device that matches, the search for its peer.\<close>

definition names_target :: "lib \<Rightarrow> string \<Rightarrow> device \<Rightarrow> bool" where
  "names_target lib targetValue d \<longleftrightarrow>
     d_ID d = targetValue \<or> d_VirtualIP d = targetValue \<or> equal_fold (l_unifold lib) (d_Name d) targetValue"

definition resolve_in ::
  "lib \<Rightarrow> device \<Rightarrow> string \<Rightarrow> device list \<Rightarrow> network_policy list \<Rightarrow> target_error + device \<times> bool" where
  "resolve_in lib source targetValue devices policies =
     (let target = (case find (names_target lib targetValue) devices of Some d \<Rightarrow> d | None \<Rightarrow> empty_device)
      in if d_ID target = '''' then Inl TargetNotFound
         else Inr (target, list_ex (\<lambda>peer. np_ID peer = d_ID target) (allowedPeers source devices policies)))"

definition resolveRelayTarget :: "lib \<Rightarrow> device \<Rightarrow> string \<Rightarrow> (target_error + device \<times> bool) act" where
  "resolveRelayTarget lib source targetValue =
     (if targetValue = '''' then return_act (Inl TargetRequired)
      else then_act (try_store ListDevices) (\<lambda>x. case x of
        Inl _ \<Rightarrow> return_act (Inl ListDevicesFailed)
      | Inr devices \<Rightarrow> then_act (try_store ListPolicies) (\<lambda>y. case y of
          Inl _ \<Rightarrow> return_act (Inl ListPoliciesFailed)
        | Inr policies \<Rightarrow> return_act (resolve_in lib source targetValue devices policies))))"

definition broker_act :: "(broker \<Rightarrow> 'a \<times> broker) \<Rightarrow> 'a act" where
  "broker_act f sv = (case f (sv_broker sv) of (x, b) \<Rightarrow> (Inr x, sv\<lparr>sv_broker := b\<rparr>))"

text \<open>What follows authentication in \<open>handleTCPRelaySessionCreate\<close>.\<close>

definition open_session :: "lib \<Rightarrow> env \<Rightarrow> tcp_relay_session_request \<Rightarrow> device \<Rightarrow> response act" where
  "open_session lib env req source =
     then_act (reject_if (tsr_Protocol req \<noteq> '''' \<and> tsr_Protocol req \<noteq> ''tcp'')
                 (writeError 400 ''only tcp relay sessions are supported'')) (\<lambda>_.
     then_act (reject_if (tsr_TargetPort req < 1 \<or> tsr_TargetPort req > 65535)
                 (writeError 400 ''targetPort must be between 1 and 65535'')) (\<lambda>_.
     then_act (resolveRelayTarget lib source (trim_space (tsr_Target req))) (\<lambda>resolved.
       case resolved of
         Inl err \<Rightarrow> respond (writeError 400 (target_message err))
       | Inr (target, allowed) \<Rightarrow>
           then_act (reject_if (\<not> allowed) (writeError 403 ''network policy does not allow this target'')) (\<lambda>_.
           then_act (broker_act (Create (e_now env 1) (e_uuid env 0) source target (tsr_TargetPort req)))
             (\<lambda>session. return_act (writeJSON 201 (PSession session)))))))"

definition handleTCPRelaySessionCreate :: "lib \<Rightarrow> env \<Rightarrow> request \<Rightarrow> response act" where
  "handleTCPRelaySessionCreate lib env q =
     then_act (decode_or jb_session q ''invalid relay session payload'') (\<lambda>req.
     then_act (authenticateDeviceCredentials lib q (trim_space (tsr_SourceDeviceID req))) (\<lambda>source.
     open_session lib env req source))"

text \<open>
  \<open>PendingWait\<close> blocks; a request whose wait has not ended (its channel is not closed) has not
  answered yet and leaves \<open>PNothing\<close>.
\<close>

definition device_of_request :: "request \<Rightarrow> string \<Rightarrow> string" where
  "device_of_request q queryValue =
     (let v = trim_space queryValue in if v = '''' then trim_space (q_deviceIDHeader q) else v)"

definition handleTCPRelayPending :: "lib \<Rightarrow> env \<Rightarrow> request \<Rightarrow> response act" where
  "handleTCPRelayPending lib env q =
     (let deviceID = device_of_request q (q_deviceIDQuery q)
      in then_act (authenticateDeviceCredentials lib q deviceID) (\<lambda>_.
         let wait = (if q_wait q \<noteq> '''' then 25 * second else 0)
         in then_act (broker_act (PendingWait (e_now env 1) (e_now env 2) deviceID wait (e_cause env) (e_others env)))
              (\<lambda>w. return_act (case w of Answered sessions \<Rightarrow> writeJSON 200 (PSessions sessions)
                               | _ \<Rightarrow> writeJSON 200 PNothing))))"

text \<open>
  Taking over the connection: no answer when that fails, a closed connection when the
  switching answer cannot be written.
\<close>

definition streamed :: "conn \<Rightarrow> response" where
  "streamed c = \<lparr>rs_status = 101,
     rs_headers = [(''Connection'', ''Upgrade''), (''Upgrade'', ''linkbit-relay'')], rs_body = PStream c\<rparr>"

definition silent :: response where
  "silent = \<lparr>rs_status = 200, rs_headers = [], rs_body = PNothing\<rparr>"

definition hijackRelayStream :: "env \<Rightarrow> conn act" where
  "hijackRelayStream env sv =
     (case e_hijack env of
        NoHijacker \<Rightarrow> (Inl (writeError 500 ''streaming is not supported''), sv)
      | HijackFailed \<Rightarrow> (Inl silent, sv)
      | WriteFailed c \<Rightarrow> (Inl silent, sv\<lparr>sv_dropped := sv_dropped sv @ [c]\<rparr>)
      | Switched c \<Rightarrow> (Inr c, sv))"

definition relay_stream ::
  "bool \<Rightarrow> lib \<Rightarrow> env \<Rightarrow> request \<Rightarrow> string \<Rightarrow> string \<Rightarrow> response act" where
  "relay_stream client lib env q deviceID sessionID =
     then_act (authenticateDeviceCredentials lib q deviceID) (\<lambda>_.
     then_act (broker_act ((if client then ValidateClient else ValidateAgent) (e_now env 1) sessionID deviceID)) (\<lambda>v.
       case v of
         Inl err \<Rightarrow> respond (writeError 404 (relay_message err))
       | Inr _ \<Rightarrow>
           then_act (hijackRelayStream env) (\<lambda>c.
           then_act (broker_act ((if client then AttachClient else AttachAgent) (e_now env 2) sessionID deviceID c))
             (\<lambda>_. return_act (streamed c)))))"

definition handleTCPRelayClientStream :: "lib \<Rightarrow> env \<Rightarrow> request \<Rightarrow> string \<Rightarrow> response act" where
  "handleTCPRelayClientStream lib env q sessionID =
     (let sourceID = device_of_request q (q_sourceQuery q)
      in relay_stream True lib env q sourceID sessionID)"

definition handleTCPRelayAgentStream :: "lib \<Rightarrow> env \<Rightarrow> request \<Rightarrow> string \<Rightarrow> response act" where
  "handleTCPRelayAgentStream lib env q sessionID =
     (let deviceID = device_of_request q (q_deviceIDQuery q)
      in relay_stream False lib env q deviceID sessionID)"

end
