(* ===== verification/Routes.thy ===== *)
theory Routes
  imports Handlers
begin

text \<open>
  The route table of \<open>Server.Handler\<close>, the dispatch of \<open>http.ServeMux\<close> over it, the security
  headers and the split between API and web console of internal/controller/static.go. A path
  is the list of its segments. A pattern with method GET also serves HEAD, and a path with empty
  segments or dot segments is not served but redirected to its clean form.
\<close>

section \<open>The table\<close>

datatype pattern = Lit string | Wild

datatype guard = Open | Keyed "string list"

datatype endpoint = Health | Metrics | OverviewPage | Settings | UserCreate | UserList | GroupCreate
  | GroupList | DERPMap | APIKeyCreate | APIKeyList | APIKeyRevoke | RelayRegister | RelayDelete
  | RelayHeartbeat | RelayList | DeviceList | DeviceDelete | DeviceRegister | DeviceHealth
  | DeviceNetworkConfig | RelaySessionCreate | RelayPending | RelayClientStream | RelayAgentStream
  | InvitationCreate | PolicyCreate | PolicyList | PolicyDelete

record route =
  rt_method :: string
  rt_pattern :: "pattern list"
  rt_guard :: guard
  rt_endpoint :: endpoint

definition mk_route :: "string \<Rightarrow> pattern list \<Rightarrow> guard \<Rightarrow> endpoint \<Rightarrow> route" where
  "mk_route m p g e = \<lparr>rt_method = m, rt_pattern = p, rt_guard = g, rt_endpoint = e\<rparr>"

abbreviation admin_only :: guard where "admin_only \<equiv> Keyed [''admin'']"
abbreviation admin_or_relay :: guard where "admin_or_relay \<equiv> Keyed [''admin'', ''relay'']"

abbreviation api :: "pattern list \<Rightarrow> pattern list" where "api ps \<equiv> Lit ''api'' # Lit ''v1'' # ps"

definition routes :: "route list" where
  "routes =
    [mk_route ''GET'' [Lit ''healthz''] Open Health,
     mk_route ''GET'' [Lit ''metrics''] admin_only Metrics,
     mk_route ''GET'' (api [Lit ''overview'']) admin_only OverviewPage,
     mk_route ''GET'' (api [Lit ''settings'']) admin_only Settings,
     mk_route ''POST'' (api [Lit ''users'']) admin_only UserCreate,
     mk_route ''GET'' (api [Lit ''users'']) admin_only UserList,
     mk_route ''POST'' (api [Lit ''groups'']) admin_only GroupCreate,
     mk_route ''GET'' (api [Lit ''groups'']) admin_only GroupList,
     mk_route ''GET'' (api [Lit ''derp-map'']) admin_only DERPMap,
     mk_route ''POST'' (api [Lit ''api-keys'']) admin_only APIKeyCreate,
     mk_route ''GET'' (api [Lit ''api-keys'']) admin_only APIKeyList,
     mk_route ''DELETE'' (api [Lit ''api-keys'', Wild]) admin_only APIKeyRevoke,
     mk_route ''POST'' (api [Lit ''relays'', Lit ''register'']) admin_or_relay RelayRegister,
     mk_route ''DELETE'' (api [Lit ''relays'', Wild]) admin_only RelayDelete,
     mk_route ''POST'' (api [Lit ''relays'', Lit ''heartbeat'']) admin_or_relay RelayHeartbeat,
     mk_route ''GET'' (api [Lit ''relays'']) admin_only RelayList,
     mk_route ''GET'' (api [Lit ''devices'']) admin_only DeviceList,
     mk_route ''DELETE'' (api [Lit ''devices'', Wild]) admin_only DeviceDelete,
     mk_route ''POST'' (api [Lit ''devices'', Lit ''register'']) Open DeviceRegister,
     mk_route ''POST'' (api [Lit ''devices'', Wild, Lit ''health'']) Open DeviceHealth,
     mk_route ''GET'' (api [Lit ''devices'', Wild, Lit ''network-config'']) Open DeviceNetworkConfig,
     mk_route ''POST'' (api [Lit ''relay'', Lit ''sessions'']) Open RelaySessionCreate,
     mk_route ''GET'' (api [Lit ''relay'', Lit ''sessions'', Lit ''pending'']) Open RelayPending,
     mk_route ''GET'' (api [Lit ''relay'', Lit ''client'', Wild]) Open RelayClientStream,
     mk_route ''GET'' (api [Lit ''relay'', Lit ''agent'', Wild]) Open RelayAgentStream,
     mk_route ''POST'' (api [Lit ''invitations'']) admin_only InvitationCreate,
     mk_route ''POST'' (api [Lit ''policies'']) admin_only PolicyCreate,
     mk_route ''GET'' (api [Lit ''policies'']) admin_only PolicyList,
     mk_route ''DELETE'' (api [Lit ''policies'', Wild]) admin_only PolicyDelete]"

section \<open>Dispatch\<close>

text \<open>A match gives the value of the wildcard (empty when the pattern has none).\<close>

fun match_path :: "pattern list \<Rightarrow> string list \<Rightarrow> string option" where
  "match_path [] [] = Some ''''"
| "match_path (Lit s # ps) (x # xs) = (if s = x then match_path ps xs else None)"
| "match_path (Wild # ps) (x # xs) =
     (if x = '''' then None else map_option (\<lambda>_. x) (match_path ps xs))"
| "match_path _ _ = None"

definition method_matches :: "string \<Rightarrow> string \<Rightarrow> bool" where
  "method_matches pattern_method m \<longleftrightarrow> m = pattern_method \<or> (pattern_method = ''GET'' \<and> m = ''HEAD'')"

definition find_route :: "request \<Rightarrow> (route \<times> string) option" where
  "find_route q =
     (if \<not> q_clean q then None
      else case find (\<lambda>r. method_matches (rt_method r) (q_method q) \<and> match_path (rt_pattern r) (q_path q) \<noteq> None) routes of
        None \<Rightarrow> None
      | Some r \<Rightarrow> (case match_path (rt_pattern r) (q_path q) of None \<Rightarrow> None | Some pid \<Rightarrow> Some (r, pid)))"

definition handler_of :: "lib \<Rightarrow> env \<Rightarrow> request \<Rightarrow> endpoint \<Rightarrow> string \<Rightarrow> response act" where
  "handler_of lib env q ep pid =
     (case ep of
        Health \<Rightarrow> handleHealth
      | Metrics \<Rightarrow> handleMetrics
      | OverviewPage \<Rightarrow> handleOverview
      | Settings \<Rightarrow> handleSettings
      | UserCreate \<Rightarrow> handleUserCreate env q
      | UserList \<Rightarrow> handleUserList
      | GroupCreate \<Rightarrow> handleGroupCreate env q
      | GroupList \<Rightarrow> handleGroupList
      | DERPMap \<Rightarrow> handleDERPMap lib
      | APIKeyCreate \<Rightarrow> handleAPIKeyCreate lib env q
      | APIKeyList \<Rightarrow> handleAPIKeyList
      | APIKeyRevoke \<Rightarrow> handleAPIKeyRevoke env pid
      | RelayRegister \<Rightarrow> handleRelayRegister env q
      | RelayDelete \<Rightarrow> handleRelayDelete pid
      | RelayHeartbeat \<Rightarrow> handleRelayHeartbeat env q
      | RelayList \<Rightarrow> handleRelayList
      | DeviceList \<Rightarrow> handleDeviceList
      | DeviceDelete \<Rightarrow> handleDeviceDelete env pid
      | DeviceRegister \<Rightarrow> handleDeviceRegister lib env q
      | DeviceHealth \<Rightarrow> handleDeviceHealth lib env q pid
      | DeviceNetworkConfig \<Rightarrow> handleDeviceNetworkConfig lib q pid
      | RelaySessionCreate \<Rightarrow> handleTCPRelaySessionCreate lib env q
      | RelayPending \<Rightarrow> handleTCPRelayPending lib env q
      | RelayClientStream \<Rightarrow> handleTCPRelayClientStream lib env q pid
      | RelayAgentStream \<Rightarrow> handleTCPRelayAgentStream lib env q pid
      | InvitationCreate \<Rightarrow> handleInvitationCreate lib env q
      | PolicyCreate \<Rightarrow> handlePolicyCreate env q
      | PolicyList \<Rightarrow> handlePolicyList
      | PolicyDelete \<Rightarrow> handlePolicyDelete pid)"

definition guarded :: "lib \<Rightarrow> env \<Rightarrow> request \<Rightarrow> guard \<Rightarrow> response act \<Rightarrow> response act" where
  "guarded lib env q g handler =
     (case g of Open \<Rightarrow> handler | Keyed scopes \<Rightarrow> requireAPIKeyScopes lib env q handler scopes)"

definition plain :: "nat \<Rightarrow> string \<Rightarrow> response" where
  "plain status message =
     \<lparr>rs_status = status, rs_headers = [(''Content-Type'', ''text/plain; charset=utf-8'')], rs_body = PText message\<rparr>"

text \<open>The redirection to the clean path; its \<open>Location\<close> and text are not modelled.\<close>

definition redirected :: "lib \<Rightarrow> response" where
  "redirected lib = \<lparr>rs_status = l_redirect lib, rs_headers = [], rs_body = PEmpty\<rparr>"

definition mux :: "lib \<Rightarrow> env \<Rightarrow> request \<Rightarrow> response act" where
  "mux lib env q =
     (case find_route q of
        Some (r, pid) \<Rightarrow> guarded lib env q (rt_guard r) (handler_of lib env q (rt_endpoint r) pid)
      | None \<Rightarrow>
          respond (if \<not> q_clean q \<and> q_method q \<noteq> ''CONNECT'' then redirected lib
                   else if list_ex (\<lambda>r. match_path (rt_pattern r) (q_path q) \<noteq> None) routes
                   then plain 405 ''Method Not Allowed'' else plain 404 ''404 page not found''))"

text \<open>The headers set before the handler runs; a hijacked connection bypasses them.\<close>

definition security_headers :: "(string \<times> string) list" where
  "security_headers = [(''X-Content-Type-Options'', ''nosniff''), (''X-Frame-Options'', ''DENY''),
     (''Referrer-Policy'', ''no-referrer'')]"

definition securityHeaders :: "response \<Rightarrow> response" where
  "securityHeaders r =
     (case rs_body r of
        PStream c \<Rightarrow> r
      | _ \<Rightarrow> r\<lparr>rs_headers := security_headers @ rs_headers r\<rparr>)"

definition serve :: "lib \<Rightarrow> env \<Rightarrow> request \<Rightarrow> server \<Rightarrow> response \<times> server" where
  "serve lib env q sv = (case finish (mux lib env q) sv of (r, sv') \<Rightarrow> (securityHeaders r, sv'))"

section \<open>The web console\<close>

text \<open>
  \<open>WithStatic\<close>: with a web directory configured, everything that is neither below \<open>/api/\<close> nor
  \<open>/healthz\<close> goes to the file server, the argument \<open>static\<close>.
\<close>

definition api_path :: "string list \<Rightarrow> bool" where
  "api_path path \<longleftrightarrow> (1 < length path \<and> hd path = ''api'') \<or> path = [''healthz'']"

definition WithStatic ::
  "(request \<Rightarrow> response) \<Rightarrow> lib \<Rightarrow> env \<Rightarrow> request \<Rightarrow> server \<Rightarrow> response \<times> server" where
  "WithStatic static lib env q sv =
     (if cc_WebDir (sv_cfg sv) = '''' then serve lib env q sv
      else if api_path (q_path q) then serve lib env q sv
      else (static q, sv))"

text \<open>
  The single-page fallback: the path the file server is asked for. \<open>clean\<close> and \<open>join\<close> are
  \<open>filepath.Clean\<close> and \<open>filepath.Join\<close>; \<open>stat\<close> tells whether a path is a file (Some False), a
  directory (Some True) or missing.
\<close>

definition spaFileServer ::
  "(string \<Rightarrow> string) \<Rightarrow> (string \<Rightarrow> string \<Rightarrow> string) \<Rightarrow> (string \<Rightarrow> bool option) \<Rightarrow> string \<Rightarrow> string \<Rightarrow> string" where
  "spaFileServer clean join stat webRoot urlPath =
     (let rel = (if prefix ''/'' urlPath then drop 1 urlPath else urlPath);
          path = (if clean rel = ''.'' then ''index.html'' else clean rel)
      in (case stat (join webRoot path) of
            None \<Rightarrow> ''/''
          | Some isDir \<Rightarrow> if isDir then ''/'' else urlPath))"

section \<open>Routing facts\<close>

lemma find_route_SomeD:
  assumes "find_route q = Some (r, pid)"
  shows "r \<in> set routes" and "method_matches (rt_method r) (q_method q)"
    and "match_path (rt_pattern r) (q_path q) = Some pid"
  using assms by (auto simp: find_route_def split: option.splits if_splits dest!: find_SomeD)

text \<open>The guard of an endpoint, and the endpoints a relay key reaches.\<close>

definition public_endpoints :: "endpoint list" where
  "public_endpoints = [Health, DeviceRegister, DeviceHealth, DeviceNetworkConfig, RelaySessionCreate,
     RelayPending, RelayClientStream, RelayAgentStream]"

definition relay_endpoints :: "endpoint list" where
  "relay_endpoints = [RelayRegister, RelayHeartbeat]"

lemma route_guards:
  assumes "r \<in> set routes"
  shows "rt_guard r = (if rt_endpoint r \<in> set public_endpoints then Open
            else if rt_endpoint r \<in> set relay_endpoints then admin_or_relay else admin_only)"
proof -
  have "list_all (\<lambda>r. rt_guard r = (if rt_endpoint r \<in> set public_endpoints then Open
            else if rt_endpoint r \<in> set relay_endpoints then admin_or_relay else admin_only)) routes"
    by (simp add: routes_def mk_route_def public_endpoints_def relay_endpoints_def)
  then show ?thesis using assms by (simp add: list_all_iff)
qed

end
