(* ===== verification/Server_Laws.thy ===== *)
theory Server_Laws
  imports Routes
begin

text \<open>
  Laws of the handlers. The interface \<open>action_relation\<close> is what every relation between server
  states needs for a handler to respect it step by step; it is interpreted on the row changes
  of the database (every handler refines them) and on the unchanging parts of the server.
\<close>

section \<open>Relations an action respects\<close>

definition keeps_at :: "(server \<Rightarrow> server \<Rightarrow> bool) \<Rightarrow> 'a act \<Rightarrow> server \<Rightarrow> bool" where
  "keeps_at R m sv \<longleftrightarrow> (\<forall>x sv'. m sv = (x, sv') \<longrightarrow> R sv sv')"

lemma keeps_atI: "(\<And>x sv'. m sv = (x, sv') \<Longrightarrow> R sv sv') \<Longrightarrow> keeps_at R m sv"
  by (simp add: keeps_at_def)

lemma keeps_atD: "keeps_at R m sv \<Longrightarrow> m sv = (x, sv') \<Longrightarrow> R sv sv'"
  by (simp add: keeps_at_def)

lemma keeps_at_mono: "keeps_at R m sv \<Longrightarrow> (\<And>sv'. R sv sv' \<Longrightarrow> S sv sv') \<Longrightarrow> keeps_at S m sv"
  by (auto simp: keeps_at_def)

lemma try_store_run: "try_store f sv = (x, sv') \<longleftrightarrow>
   (\<exists>y d. f (sv_db sv) = (y, d) \<and> x = Inr y \<and> sv' = sv\<lparr>sv_db := d\<rparr>)"
  by (auto simp: try_store_def split: prod.splits)

lemma call_store_run: "call_store f on_err sv = (x, sv') \<longleftrightarrow>
   (\<exists>y d. f (sv_db sv) = (y, d) \<and> sv' = sv\<lparr>sv_db := d\<rparr>
      \<and> x = (case y of Inl e \<Rightarrow> Inl (on_err e) | Inr a \<Rightarrow> Inr a))"
  by (auto simp: call_store_def then_act_def try_store_def or_else_def respond_def return_act_def
      split: prod.splits sum.splits)

lemma hash_act_run: "hash_act lib key r sv =
   ((case HashAPIKey (l_mac lib) key (pepper sv) of Inl e \<Rightarrow> Inl r | Inr d \<Rightarrow> Inr d), sv)"
  by (simp add: hash_act_def then_act_def get_act_def or_else_def respond_def return_act_def split: sum.splits)

locale action_relation =
  fixes R :: "server \<Rightarrow> server \<Rightarrow> bool"
  assumes refl: "R sv sv" and trans: "R sv sv' \<Longrightarrow> R sv' sv'' \<Longrightarrow> R sv sv''"
begin

lemma keeps_return: "keeps_at R (return_act a) sv"
  by (simp add: keeps_at_def return_act_def refl)

lemma keeps_respond: "keeps_at R (respond r) sv"
  by (simp add: keeps_at_def respond_def refl)

lemma keeps_reject: "keeps_at R (reject_if c r) sv"
  by (simp add: reject_if_def keeps_return keeps_respond)

lemma keeps_get: "keeps_at R (get_act f) sv"
  by (simp add: keeps_at_def get_act_def refl)

lemma keeps_or_else: "keeps_at R (or_else f x) sv"
  by (cases x) (simp_all add: or_else_def keeps_return keeps_respond)

lemma keeps_decode: "keeps_at R (decode_or get q m) sv"
  by (cases "decodeJSON get q") (simp_all add: decode_or_def keeps_return keeps_respond)

lemma keeps_hash: "keeps_at R (hash_act lib key r) sv"
  by (simp add: keeps_at_def hash_act_run refl)

lemma keeps_then:
  assumes "keeps_at R m sv" and "\<And>a sv'. m sv = (Inr a, sv') \<Longrightarrow> keeps_at R (f a) sv'"
  shows "keeps_at R (then_act m f) sv"
proof (rule keeps_atI)
  fix x sv' assume t: "then_act m f sv = (x, sv')"
  obtain y sv1 where m: "m sv = (y, sv1)" by fastforce
  then have 1: "R sv sv1" by (rule keeps_atD [OF assms(1)])
  show "R sv sv'"
  proof (cases y)
    case (Inl r)
    with t m 1 show ?thesis by (simp add: then_act_def)
  next
    case (Inr a)
    with t m have "f a sv1 = (x, sv')" by (simp add: then_act_def)
    moreover have "keeps_at R (f a) sv1" using assms(2) m Inr by simp
    ultimately show ?thesis using 1 trans keeps_atD by blast
  qed
qed

lemma keeps_try:
  "(\<And>y d. f (sv_db sv) = (y, d) \<Longrightarrow> R sv (sv\<lparr>sv_db := d\<rparr>)) \<Longrightarrow> keeps_at R (try_store f) sv"
  by (rule keeps_atI) (auto simp: try_store_run)

lemma keeps_call:
  "(\<And>y d. f (sv_db sv) = (y, d) \<Longrightarrow> R sv (sv\<lparr>sv_db := d\<rparr>)) \<Longrightarrow> keeps_at R (call_store f e) sv"
  by (rule keeps_atI) (auto simp: call_store_run)

lemma keeps_broker:
  "(\<And>b. R sv (sv\<lparr>sv_broker := b\<rparr>)) \<Longrightarrow> keeps_at R (broker_act f) sv"
  by (rule keeps_atI) (auto simp: broker_act_def split: prod.splits)

lemmas keeps_basic = keeps_return keeps_respond keeps_reject keeps_get keeps_or_else keeps_decode keeps_hash

end

section \<open>The database under a handler\<close>

definition db_moves :: "server \<Rightarrow> server \<Rightarrow> bool" where
  "db_moves sv sv' \<longleftrightarrow> db_steps (sv_db sv) (sv_db sv') \<and> sv_cfg sv' = sv_cfg sv
     \<and> sv_adminDigest sv' = sv_adminDigest sv \<and> sv_hub sv' = sv_hub sv"

interpretation moves: action_relation db_moves
  by unfold_locales (auto simp: db_moves_def intro: rtranclp_trans)

lemma moves_db: "db_steps (sv_db sv) d \<Longrightarrow> db_moves sv (sv\<lparr>sv_db := d\<rparr>)"
  by (simp add: db_moves_def)

lemma moves_broker: "db_moves sv (sv\<lparr>sv_broker := b\<rparr>)"
  by (simp add: db_moves_def)

lemma moves_SyncHub: "keeps_at db_moves (SyncHub env) sv"
  by (rule keeps_atI)
    (auto simp: SyncHub_def db_moves_def split: option.splits prod.splits intro: method_steps)

lemma moves_hijack: "keeps_at db_moves (hijackRelayStream env) sv"
  by (rule keeps_atI) (auto simp: hijackRelayStream_def db_moves_def split: hijack.splits)

lemmas moves_rules = moves.keeps_basic moves.keeps_then moves_SyncHub moves_hijack
  moves.keeps_broker [OF moves_broker]

lemma moves_try: "(\<And>y d. f (sv_db sv) = (y, d) \<Longrightarrow> db_steps (sv_db sv) d) \<Longrightarrow> keeps_at db_moves (try_store f) sv"
  by (rule moves.keeps_try) (rule moves_db)

lemma moves_call: "(\<And>y d. f (sv_db sv) = (y, d) \<Longrightarrow> db_steps (sv_db sv) d) \<Longrightarrow> keeps_at db_moves (call_store f e) sv"
  by (rule moves.keeps_call) (rule moves_db)

text \<open>The clock of a request never reads the zero time.\<close>

definition env_ok :: "env \<Rightarrow> bool" where
  "env_ok env \<longleftrightarrow> (\<forall>i. e_now env i \<noteq> zero_time)"

lemma moves_authenticate:
  "keeps_at db_moves (authenticateDeviceCredentials lib q did) sv"
  "keeps_at db_moves (authenticateDevice lib q did) sv"
  unfolding authenticateDeviceCredentials_def authenticateDevice_def
  by (intro moves_rules moves_call; blast intro: method_steps)+

lemma moves_reads:
  "keeps_at db_moves handleHealth sv" "keeps_at db_moves handleOverview sv"
  "keeps_at db_moves handleSettings sv" "keeps_at db_moves handleMetrics sv"
  "keeps_at db_moves (handleDERPMap lib) sv" "keeps_at db_moves handleUserList sv"
  "keeps_at db_moves handleGroupList sv" "keeps_at db_moves handleRelayList sv"
  "keeps_at db_moves handleAPIKeyList sv" "keeps_at db_moves handleDeviceList sv"
  "keeps_at db_moves handlePolicyList sv"
  unfolding handleHealth_def handleOverview_def handleSettings_def handleMetrics_def handleDERPMap_def
    handleUserList_def handleGroupList_def handleRelayList_def handleAPIKeyList_def handleDeviceList_def
    handlePolicyList_def
  by (intro moves_rules moves_call; blast intro: method_steps)+

lemma moves_writes:
  "keeps_at db_moves (handleUserCreate env q) sv" "keeps_at db_moves (handleGroupCreate env q) sv"
  "keeps_at db_moves (handleRelayDelete pid) sv" "keeps_at db_moves (handleRelayHeartbeat env q) sv"
  "keeps_at db_moves (handleDeviceDelete env pid) sv" "keeps_at db_moves (handlePolicyCreate env q) sv"
  "keeps_at db_moves (handlePolicyDelete pid) sv" "keeps_at db_moves (handleDeviceHealth lib env q pid) sv"
  "keeps_at db_moves (handleDeviceNetworkConfig lib q pid) sv"
  unfolding handleUserCreate_def handleGroupCreate_def handleRelayDelete_def handleRelayHeartbeat_def
    handleDeviceDelete_def handlePolicyCreate_def handlePolicyDelete_def handleDeviceHealth_def
    handleDeviceNetworkConfig_def Let_def
  by (intro moves_rules moves_call moves_authenticate; blast intro: method_steps)+

lemma moves_relay_register: "keeps_at db_moves (handleRelayRegister env q) sv"
  unfolding handleRelayRegister_def Let_def
  by (intro moves_rules moves_call) (rule UpsertRelay_steps, simp_all)

lemma moves_key_create: "keeps_at db_moves (handleAPIKeyCreate lib env q) sv"
  unfolding handleAPIKeyCreate_def Let_def
  by (intro moves_rules moves_call; (split option.split)?; intro conjI impI allI moves_rules moves_call;
      blast intro: method_steps)

lemma moves_key_revoke: "env_ok env \<Longrightarrow> keeps_at db_moves (handleAPIKeyRevoke env pid) sv"
  unfolding handleAPIKeyRevoke_def
  by (intro moves_rules moves_call) (rule RevokeAPIKey_steps, simp_all add: env_ok_def)

lemma call_store_InrD:
  "call_store f e sv = (Inr a, sv') \<Longrightarrow> f (sv_db sv) = (Inr a, sv_db sv') \<and> sv' = sv\<lparr>sv_db := sv_db sv'\<rparr>"
  by (auto simp: call_store_def then_act_def try_store_def or_else_def respond_def return_act_def
      split: prod.splits sum.splits)

lemma reject_if_InrD: "reject_if c r sv = (Inr a, sv') \<Longrightarrow> sv' = sv \<and> \<not> c"
  by (auto simp: reject_if_def respond_def return_act_def split: if_splits)

lemma decode_or_InrD: "decode_or get q m sv = (Inr a, sv') \<Longrightarrow> sv' = sv \<and> decodeJSON get q = Some a"
  by (auto simp: decode_or_def respond_def return_act_def split: option.splits)

lemma return_act_InrD: "return_act b sv = (Inr a, sv') \<Longrightarrow> sv' = sv \<and> a = b"
  by (simp add: return_act_def)

lemma hash_act_InrD: "hash_act lib key r sv = (Inr d, sv') \<Longrightarrow>
   sv' = sv \<and> HashAPIKey (l_mac lib) key (pepper sv) = Inr d"
  by (auto simp: hash_act_run split: sum.splits)

lemma then_act_InrE:
  assumes "then_act m f sv = (Inr b, sv')"
  obtains a sv1 where "m sv = (Inr a, sv1)" "f a sv1 = (Inr b, sv')"
  using assms by (auto simp: then_act_def split: prod.splits sum.splits)

lemmas act_InrD = call_store_InrD reject_if_InrD decode_or_InrD return_act_InrD hash_act_InrD

text \<open>What the checks establish.\<close>

lemma check_invitation_InrD:
  assumes "check_invitation q sv = (Inr (req, dur), sv')"
  shows "same_tables (sv_db sv) (sv_db sv')" and "has_user (sv_db sv') (trim_space (icr_UserID req))"
    and "has_group (sv_db sv') (trim_space (icr_GroupID req))"
    and "dur = (if expires_in (icr_ExpiresInSeconds req) \<le> 0 then 24 * hour else expires_in (icr_ExpiresInSeconds req))"
    and "dur \<le> 30 * 24 * hour" and "sv' = sv\<lparr>sv_db := sv_db sv'\<rparr>"
proof -
  from assms obtain u g sv1 where
    u: "GetUser (trim_space (icr_UserID req)) (sv_db sv) = (Inr u, sv_db sv1)" and
    g: "GetGroup (trim_space (icr_GroupID req)) (sv_db sv1) = (Inr g, sv_db sv')" and
    rest: "dur = (if expires_in (icr_ExpiresInSeconds req) \<le> 0 then 24 * hour else expires_in (icr_ExpiresInSeconds req))"
      "dur \<le> 30 * 24 * hour" "sv1 = sv\<lparr>sv_db := sv_db sv1\<rparr>" "sv' = sv1\<lparr>sv_db := sv_db sv'\<rparr>"
    unfolding check_invitation_def Let_def
    by (elim then_act_InrE) (auto dest!: act_InrD simp del: One_nat_def split: if_splits)
  have 1: "same_tables (sv_db sv) (sv_db sv1)" using u by (rule method_reads(2))
  have 2: "same_tables (sv_db sv1) (sv_db sv')" using g by (rule method_reads(4))
  show "same_tables (sv_db sv) (sv_db sv')" using 1 2 by (rule same_tables_trans)
  show "has_user (sv_db sv') (trim_space (icr_UserID req))"
    using GetUser_found [OF u] same_tablesD [OF 1] same_tablesD [OF 2] by simp
  show "has_group (sv_db sv') (trim_space (icr_GroupID req))"
    using GetGroup_found [OF g] same_tablesD [OF 2] by simp
  show "dur = (if expires_in (icr_ExpiresInSeconds req) \<le> 0 then 24 * hour else expires_in (icr_ExpiresInSeconds req))"
    "dur \<le> 30 * 24 * hour" by (rule rest)+
  show "sv' = sv\<lparr>sv_db := sv_db sv'\<rparr>" using rest(3,4) by (cases sv; cases sv1; cases sv') simp
qed

lemma moves_check_invitation: "keeps_at db_moves (check_invitation q) sv"
  unfolding check_invitation_def Let_def
  by (intro moves_rules moves_call) (blast intro: method_steps)+

lemma moves_issue_invitation:
  assumes "has_user (sv_db sv) (trim_space (icr_UserID req))" "has_group (sv_db sv) (trim_space (icr_GroupID req))"
  shows "keeps_at db_moves (issue_invitation lib env req dur) sv"
proof (cases "NewAPIKey (e_rand env)")
  case None
  then show ?thesis by (simp add: issue_invitation_def moves_rules)
next
  case (Some token)
  then show ?thesis
    unfolding issue_invitation_def Let_def
    by (auto intro!: moves_rules moves_call CreateInvitation_steps dest!: act_InrD simp: assms)
qed

lemma moves_invitation_create: "keeps_at db_moves (handleInvitationCreate lib env q) sv"
  unfolding handleInvitationCreate_def
  by (intro moves_rules moves_check_invitation)
    (auto intro!: moves_issue_invitation dest: check_invitation_InrD)

section \<open>Registration\<close>

lemma check_registration_InrD:
  assumes "check_registration q sv = (Inr req, sv')"
  shows "sv' = sv" and "decodeJSON jb_register q = Some req"
    and "trim_space (drr_EnrollmentKey req) \<noteq> ''''" "trim_space (drr_Name req) \<noteq> ''''"
    "trim_space (drr_PublicKey req) \<noteq> ''''" "validWireGuardEndpoint (trim_space (drr_Endpoint req))"
  using assms unfolding check_registration_def
  by (auto elim!: then_act_InrE dest!: act_InrD)

lemma find_invitation_InrD:
  assumes "find_invitation lib env req sv = (Inr invit, sv')"
  obtains th where "HashAPIKey (l_mac lib) (drr_EnrollmentKey req) (pepper sv) = Inr th"
    "find (\<lambda>i. i_TokenHash i = th) (db_invitations (sv_db sv)) = Some invit"
    "invit \<in> set (db_invitations (sv_db sv))" "i_TokenHash invit = th"
    "same_tables (sv_db sv) (sv_db sv')" "sv' = sv\<lparr>sv_db := sv_db sv'\<rparr>"
    "\<not> time_after (e_now env 1) (i_ExpiresAt invit)" "i_Reusable invit \<or> i_UsedAt invit = zero_time"
proof -
  from assms obtain th where h: "HashAPIKey (l_mac lib) (drr_EnrollmentKey req) (pepper sv) = Inr th"
    and g: "GetInvitationByTokenHash th (sv_db sv) = (Inr invit, sv_db sv')"
    and r: "sv' = sv\<lparr>sv_db := sv_db sv'\<rparr>" "\<not> time_after (e_now env 1) (i_ExpiresAt invit)"
      "i_Reusable invit \<or> i_UsedAt invit = zero_time"
    unfolding find_invitation_def by (elim then_act_InrE) (auto dest!: act_InrD)
  from GetInvitationByTokenHash_found [OF g] method_reads(8) [OF g] h r that show ?thesis by blast
qed

lemma moves_check_registration: "keeps_at db_moves (check_registration q) sv"
  unfolding check_registration_def by (intro moves_rules)

lemma moves_find_invitation: "keeps_at db_moves (find_invitation lib env req) sv"
  unfolding find_invitation_def by (intro moves_rules moves_call) (blast intro: method_steps)

lemma create_device_InrD:
  assumes "create_device lib env req invit sv = (Inr d, sv')"
  obtains token th u where "NewAPIKey (e_rand env) = Some token"
    "HashAPIKey (l_mac lib) token (pepper sv) = Inr th"
    "d = new_device env req invit (trim_space (drr_Endpoint req)) token th"
    "CreateDevice d (sv_db sv) = (Inr u, sv_db sv')" "sv' = sv\<lparr>sv_db := sv_db sv'\<rparr>"
proof (cases "NewAPIKey (e_rand env)")
  case None
  with assms show ?thesis by (simp add: create_device_def respond_def)
next
  case (Some token)
  with assms that show ?thesis
    by (auto simp: create_device_def Let_def elim!: then_act_InrE dest!: act_InrD)
qed

lemma new_device_simps [simp]:
  "d_UserID (new_device env req i e t h) = i_UserID i" "d_GroupID (new_device env req i e t h) = i_GroupID i"
  "d_ID (new_device env req i e t h) = e_uuid env 0" "d_TokenHash (new_device env req i e t h) = h"
  "d_VirtualIP (new_device env req i e t h) = virtualIPFromUUID (e_vip env)"
  "d_DeviceToken (new_device env req i e t h) = t" "d_PublicKey (new_device env req i e t h) = trim_space (drr_PublicKey req)"
  "d_CreatedAt (new_device env req i e t h) = e_now env 2" "d_LastSeenAt (new_device env req i e t h) = e_now env 2"
  "d_Status (new_device env req i e t h) = DeviceStatusOnline" "d_Endpoint (new_device env req i e t h) = e"
  "d_Name (new_device env req i e t h) = trim_space (drr_Name req)"
  by (simp_all add: new_device_def)

lemma moves_create_device:
  assumes "has_user (sv_db sv) (i_UserID invit)" "has_group (sv_db sv) (i_GroupID invit)"
  shows "keeps_at db_moves (create_device lib env req invit) sv"
proof (cases "NewAPIKey (e_rand env)")
  case None
  then show ?thesis by (simp add: create_device_def moves_rules)
next
  case (Some token)
  then show ?thesis
    unfolding create_device_def Let_def
    by (auto intro!: moves_rules moves_call CreateDevice_steps dest!: act_InrD simp: assms)
qed

lemma moves_mark_used: "env_ok env \<Longrightarrow> keeps_at db_moves (mark_used env invit) sv"
  unfolding mark_used_def
  by (auto intro!: moves_rules moves_try MarkInvitationUsed_steps simp: env_ok_def)

lemma moves_device_register:
  assumes "env_ok env" and "db_ok (sv_db sv)"
  shows "keeps_at db_moves (handleDeviceRegister lib env q) sv"
  unfolding handleDeviceRegister_def
proof (intro moves_rules moves_check_registration moves_find_invitation moves_mark_used assms(1))
  fix req sv1 invit sv2
  assume c: "check_registration q sv = (Inr req, sv1)" and f: "find_invitation lib env req sv1 = (Inr invit, sv2)"
  have "sv1 = sv" by (rule check_registration_InrD [OF c])
  with f obtain "invit \<in> set (db_invitations (sv_db sv))" "same_tables (sv_db sv) (sv_db sv2)"
    by (auto elim: find_invitation_InrD)
  then show "keeps_at db_moves (create_device lib env req invit) sv2"
    using assms(2) by (auto intro!: moves_create_device simp: db_ok_def same_tablesD)
qed (auto intro!: moves_try intro: method_steps)

section \<open>Relay handlers\<close>

lemma moves_resolve: "keeps_at db_moves (resolveRelayTarget lib source t) sv"
  unfolding resolveRelayTarget_def
  by (auto intro!: moves_rules moves_try split: sum.split intro: method_steps)

lemma moves_session_create: "keeps_at db_moves (handleTCPRelaySessionCreate lib env q) sv"
  unfolding handleTCPRelaySessionCreate_def open_session_def
  by (auto intro!: moves_rules moves_authenticate moves_resolve split: sum.split)

lemma moves_relay_pending: "keeps_at db_moves (handleTCPRelayPending lib env q) sv"
  unfolding handleTCPRelayPending_def Let_def by (intro moves_rules moves_authenticate)

lemma moves_relay_stream: "keeps_at db_moves (relay_stream client lib env q did sid) sv"
  unfolding relay_stream_def
  by (auto intro!: moves_rules moves_authenticate split: sum.split)

section \<open>Every request\<close>

text \<open>The ways a key check can end.\<close>

lemma verifyAPIKeyScope_cases:
  assumes "verifyAPIKeyScope lib env key scopes sv = (ok, sv')"
  obtains (bootstrap) "ok" "sv' = sv" "''admin'' \<in> set scopes"
      "VerifyAPIKey (l_mac lib) key (sv_adminDigest sv) (pepper sv)"
    | (refused) "\<not> ok" "same_tables (sv_db sv) (sv_db sv')" "sv' = sv\<lparr>sv_db := sv_db sv'\<rparr>"
    | (stored) digest k d u where "ok" "HashAPIKey (l_mac lib) key (pepper sv) = Inr digest"
        "GetAPIKeyByDigest digest (sv_db sv) = (Inr k, d)" "k_Scope k \<in> set scopes"
        "same_tables (sv_db sv) d"
        "TouchAPIKey (e_now env 0) (k_ID k) d = (u, sv_db sv')" "sv' = sv\<lparr>sv_db := sv_db sv'\<rparr>"
proof (cases "scopeAllowed ''admin'' scopes \<and> VerifyAPIKey (l_mac lib) key (sv_adminDigest sv) (pepper sv)")
  case True
  with assms bootstrap show ?thesis by (simp add: verifyAPIKeyScope_def)
next
  case False
  note notadmin = this
  show ?thesis
  proof (cases "HashAPIKey (l_mac lib) key (pepper sv)")
    case (Inl e)
    with assms notadmin have "\<not> ok" "sv' = sv" unfolding verifyAPIKeyScope_def by auto
    with refused show ?thesis by simp
  next
    case (Inr digest)
    obtain x d where g: "GetAPIKeyByDigest digest (sv_db sv) = (x, d)" by fastforce
    have same: "same_tables (sv_db sv) d" using g by (rule method_reads(5))
    show ?thesis
    proof (cases x)
      case (Inl e)
      with assms notadmin Inr g same refused show ?thesis by (auto simp: verifyAPIKeyScope_def)
    next
      case (Inr k)
      obtain u d' where t: "TouchAPIKey (e_now env 0) (k_ID k) d = (u, d')" by fastforce
      show ?thesis
      proof (cases "k_Scope k \<in> set scopes")
        case True
        then have "ok" "sv' = sv\<lparr>sv_db := d'\<rparr>"
          using assms notadmin \<open>HashAPIKey _ _ _ = _\<close> g Inr t by (auto simp: verifyAPIKeyScope_def)
        then show ?thesis using stored [of digest k d u] \<open>HashAPIKey _ _ _ = _\<close> g Inr t True same by simp
      next
        case False
        then show ?thesis
          using assms notadmin \<open>HashAPIKey _ _ _ = _\<close> g Inr same refused by (auto simp: verifyAPIKeyScope_def)
      qed
    qed
  qed
qed

lemma moves_to_db: "db_steps (sv_db sv) (sv_db sv') \<Longrightarrow> sv' = sv\<lparr>sv_db := sv_db sv'\<rparr> \<Longrightarrow> db_moves sv sv'"
  by (metis moves_db)

lemma moves_verify:
  assumes "verifyAPIKeyScope lib env key scopes sv = (ok, sv')"
  shows "db_moves sv sv'"
  using assms
proof (cases rule: verifyAPIKeyScope_cases)
  case bootstrap
  then show ?thesis by (simp add: moves.refl)
next
  case refused
  then show ?thesis by (blast intro: moves_to_db same_tables_steps)
next
  case (stored digest k d u)
  then have "db_steps (sv_db sv) (sv_db sv')"
    by (meson same_tables_steps TouchAPIKey_steps rtranclp_trans)
  then show ?thesis using stored(7) by (rule moves_to_db)
qed

lemma moves_handler:
  assumes "env_ok env" and "db_ok (sv_db sv)"
  shows "keeps_at db_moves (handler_of lib env q ep pid) sv"
  using assms
  by (cases ep)
    (simp_all add: handler_of_def moves_reads moves_writes moves_relay_register moves_key_create
      moves_key_revoke moves_invitation_create moves_device_register moves_session_create
      moves_relay_pending moves_relay_stream handleTCPRelayClientStream_def handleTCPRelayAgentStream_def Let_def)

lemma moves_guarded:
  assumes "\<And>sv'. db_moves sv sv' \<Longrightarrow> keeps_at db_moves handler sv'"
  shows "keeps_at db_moves (guarded lib env q g handler) sv"
proof (cases g)
  case Open
  then show ?thesis using assms moves.refl by (simp add: guarded_def)
next
  case (Keyed scopes)
  show ?thesis
  proof (rule keeps_atI)
    fix x sv' assume r: "guarded lib env q g handler sv = (x, sv')"
    obtain ok sv1 where v: "verifyAPIKeyScope lib env (q_apiKey q) scopes sv = (ok, sv1)" by fastforce
    note m = moves_verify [OF v]
    show "db_moves sv sv'"
    proof (cases ok)
      case True
      with r v have "handler sv1 = (x, sv')" by (simp add: guarded_def Keyed requireAPIKeyScopes_def)
      with assms [OF m] have "db_moves sv1 sv'" by (rule keeps_atD)
      with m show ?thesis by (rule moves.trans)
    next
      case False
      with r v m show ?thesis by (simp add: guarded_def Keyed requireAPIKeyScopes_def)
    qed
  qed
qed

lemma moves_mux:
  assumes "env_ok env" and "db_ok (sv_db sv)"
  shows "keeps_at db_moves (mux lib env q) sv"
proof -
  have "db_ok (sv_db sv')" if "db_moves sv sv'" for sv'
    using that assms(2) by (auto simp: db_moves_def dest: db_steps_ok)
  then show ?thesis
    using assms(1)
    by (auto simp: mux_def split: option.split intro!: moves_rules moves_guarded moves_handler)
qed

lemma finish_run: "finish m sv = (r, sv') \<Longrightarrow> \<exists>x. m sv = (x, sv')"
  by (auto simp: finish_def split: prod.splits sum.splits)

lemma serve_moves:
  assumes "env_ok env" and "db_ok (sv_db sv)" and "serve lib env q sv = (r, sv')"
  shows "db_moves sv sv'"
proof -
  obtain r0 where "finish (mux lib env q) sv = (r0, sv')"
    using assms(3) by (auto simp: serve_def split: prod.splits)
  then obtain x where "mux lib env q sv = (x, sv')" using finish_run by blast
  then show ?thesis by (rule keeps_atD [OF moves_mux [OF assms(1,2)]])
qed

end
