(* ===== verification/Server_Props.thy ===== *)
theory Server_Props
  imports Server_Laws
begin

text \<open>
  What the controller guarantees: integrity of the store over every sequence of requests, who
  may call what, and that a revoked key stays out.
\<close>

section \<open>Sequences of requests\<close>

inductive served :: "lib \<Rightarrow> server \<Rightarrow> server \<Rightarrow> bool" for lib where
  none: "served lib sv sv"
| one: "served lib sv sv1 \<Longrightarrow> env_ok env \<Longrightarrow> serve lib env q sv1 = (r, sv2) \<Longrightarrow> served lib sv sv2"

inductive_cases served_cases: "served lib sv sv'"

lemma served_moves: "served lib sv sv' \<Longrightarrow> db_ok (sv_db sv) \<Longrightarrow> db_moves sv sv' \<and> db_ok (sv_db sv')"
proof (induction rule: served.induct)
  case (none sv)
  then show ?case by (simp add: moves.refl)
next
  case (one sv sv1 env q r sv2)
  then have 1: "db_moves sv sv1" "db_ok (sv_db sv1)" by auto
  have 2: "db_moves sv1 sv2" by (rule serve_moves [OF one.hyps(2) 1(2) one.hyps(3)])
  have "db_ok (sv_db sv2)" using 2 1(2) by (auto simp: db_moves_def dest: db_steps_ok)
  with moves.trans [OF 1(1) 2] show ?case by simp
qed

lemma served_lasts: "served lib sv sv' \<Longrightarrow> db_ok (sv_db sv) \<Longrightarrow> db_lasts (sv_db sv) (sv_db sv')"
  using served_moves by (auto simp: db_moves_def dest: db_steps_lasts)

section \<open>Integrity from the first migration on\<close>

lemma Migrate_empty_ok:
  assumes "Migrate now empty_db = (Inr u, d)"
  shows "db_ok d"
proof -
  have "d = empty_db\<lparr>db_users := [default_user now], db_groups := [default_group now]\<rparr>"
    using assms
    by (simp add: Migrate_def then_stmt_def exec_quiet_def empty_db_def insert_or_ignore_def tbl_insert_def)
  then show ?thesis
    by (simp add: db_ok_def empty_db_def unique_on_def default_user_def default_group_def)
qed

text \<open>
  C1: Starting from a freshly migrated database, after any sequence of requests, with any store
  failures in between: ids, virtual addresses, key digests and invitation tokens are unique,
  every device and invitation belongs to a stored user and group, no secret is stored in plain
  text, the default user and group exist, and the server's configuration is what it started
  with.
\<close>

theorem store_integrity:
  assumes "Migrate now empty_db = (Inr (), d)"
    and "NewServer lib wg_pubkey cfg bootstrap (d\<lparr>db_faults := faults\<rparr>) = Inr sv"
    and "served lib sv sv'"
  shows "db_ok (sv_db sv') \<and> sv_cfg sv' = cfg \<and> sv_adminDigest sv' = sv_adminDigest sv
       \<and> HashAPIKey (l_mac lib) bootstrap (cc_APIKeyPepper cfg) = Inr (sv_adminDigest sv')"
proof -
  have sv: "sv_db sv = d\<lparr>db_faults := faults\<rparr>" "sv_cfg sv = cfg"
    "HashAPIKey (l_mac lib) bootstrap (cc_APIKeyPepper cfg) = Inr (sv_adminDigest sv)"
    using assms(2) by (auto simp: NewServer_def split: sum.splits)
  have "db_ok d" by (rule Migrate_empty_ok [OF assms(1)])
  then have "db_ok (sv_db sv)" by (simp add: sv db_ok_def)
  from served_moves [OF assms(3) this] show ?thesis by (auto simp: db_moves_def sv)
qed

definition demo_lib :: lib where
  "demo_lib = \<lparr>l_mac = (\<lambda>p m. p @ m), l_unifold = (\<lambda>a b. a = b), l_url = demo_url, l_order = (\<lambda>xs. xs),
     l_redirect = 301\<rparr>"

definition demo_env :: env where
  "demo_env = \<lparr>e_now = (\<lambda>i. GoTime (1000000000 + i)), e_uuid = (\<lambda>i. ''uuid''), e_vip = (3, 4),
     e_rand = Some [1, 2, 3], e_run = (\<lambda>tr c. True), e_keyFile = Some ''/tmp/k'', e_hijack = Switched 1,
     e_cause = TimerFired, e_others = (\<lambda>b. b)\<rparr>"

definition demo_db :: db where
  "demo_db = empty_db\<lparr>db_users := [default_user (GoTime 1)], db_groups := [default_group (GoTime 1)]\<rparr>"

definition pepper_config :: controller_config where
  "pepper_config = demo_config\<lparr>cc_APIKeyPepper := ''p''\<rparr>"

definition demo_server :: server where
  "demo_server = \<lparr>sv_cfg = pepper_config, sv_adminDigest = ''proot'', sv_db = demo_db, sv_hub = None,
     sv_broker = NewTCPRelayBroker, sv_events = [], sv_dropped = []\<rparr>"

lemma demo_migrated: "Migrate (GoTime 1) empty_db = (Inr (), demo_db)"
  by (simp add: Migrate_def then_stmt_def exec_quiet_def empty_db_def insert_or_ignore_def tbl_insert_def demo_db_def)

lemma space_free_root: "trim_space ''root'' = ''root''" "trim_space ''k'' = ''k''" "trim_space ''n'' = ''n''"
  by (rule trim_space_id, simp add: space_free_def space_encodings_def)+

lemma demo_pepper [simp]: "pepper demo_server = ''p''" "cc_APIKeyPepper pepper_config = ''p''"
  by (simp_all add: pepper_def demo_server_def pepper_config_def)

lemma demo_started:
  "NewServer demo_lib (\<lambda>k. None) pepper_config ''root'' demo_db = Inr demo_server"
proof -
  have "HashAPIKey (l_mac demo_lib) ''root'' ''p'' = Inr ''proot''"
    by (simp add: HashAPIKey_def space_free_root demo_lib_def)
  moreover have "NewWireGuardHub (l_url demo_lib) (\<lambda>k. None) pepper_config = Inr None"
    by (simp add: NewWireGuardHub_def pepper_config_def demo_config_def LoadController_def Let_def getenvBool_def)
  ultimately show ?thesis by (simp add: NewServer_def demo_server_def)
qed

lemma demo_env_ok: "env_ok demo_env"
  by (simp add: env_ok_def demo_env_def zero_time_def)

definition empty_body :: json_body where
  "empty_body = \<lparr>jb_user = None, jb_group = None, jb_relay = None, jb_key = None, jb_register = None,
     jb_health = None, jb_invitation = None, jb_policy = None, jb_session = None, jb_eof = True\<rparr>"

definition demo_request :: "string \<Rightarrow> string list \<Rightarrow> request" where
  "demo_request m p = \<lparr>q_method = m, q_path = p, q_clean = True, q_apiKey = ''root'', q_deviceToken = '''',
     q_deviceIDHeader = '''', q_deviceIDQuery = '''', q_sourceQuery = '''', q_wait = '''', q_body = empty_body\<rparr>"

theorem store_integrity_witness:
  "db_ok (sv_db (snd (serve demo_lib demo_env (demo_request ''GET'' [''metrics'']) demo_server)))"
proof -
  obtain r sv' where s: "serve demo_lib demo_env (demo_request ''GET'' [''metrics'']) demo_server = (r, sv')"
    by fastforce
  have "served demo_lib demo_server sv'"
    by (rule served.one [OF served.none demo_env_ok s])
  from store_integrity [OF demo_migrated _ this, of "\<lambda>k. None" pepper_config "''root''" "[]"] demo_started
  show ?thesis by (simp add: s demo_db_def empty_db_def)
qed

section \<open>Who may call what\<close>

text \<open>The keys that open a scope: the bootstrap key for admin, or a stored key that is not revoked.\<close>

definition key_grants :: "lib \<Rightarrow> server \<Rightarrow> string \<Rightarrow> string list \<Rightarrow> bool" where
  "key_grants lib sv key scopes \<longleftrightarrow>
     (\<exists>dg. HashAPIKey (l_mac lib) key (pepper sv) = Inr dg
        \<and> (''admin'' \<in> set scopes \<and> dg = sv_adminDigest sv
           \<or> (\<exists>k \<in> set (db_api_keys (sv_db sv)). k_Digest k = dg \<and> k_RevokedAt k = zero_time
                \<and> k_Scope k \<in> set scopes)))"

definition needed_scopes :: "endpoint \<Rightarrow> string list" where
  "needed_scopes ep = (if ep \<in> set relay_endpoints then [''admin'', ''relay''] else [''admin''])"

lemma verify_grants:
  assumes "verifyAPIKeyScope lib env key scopes sv = (True, sv')"
  shows "key_grants lib sv key scopes"
  using assms
proof (cases rule: verifyAPIKeyScope_cases)
  case bootstrap
  then show ?thesis
    using api_credential.verify_iff by (auto simp: key_grants_def)
next
  case refused
  then show ?thesis by simp
next
  case (stored digest k d u)
  then show ?thesis
    using GetAPIKeyByDigest_found [OF stored(3)] by (auto simp: key_grants_def)
qed

lemma verify_refused:
  assumes "verifyAPIKeyScope lib env key scopes sv = (ok, sv')" and "\<not> key_grants lib sv key scopes"
  shows "\<not> ok \<and> same_tables (sv_db sv) (sv_db sv') \<and> sv' = sv\<lparr>sv_db := sv_db sv'\<rparr>"
proof -
  have "\<not> ok" using verify_grants assms by (cases ok) auto
  with assms(1) show ?thesis by (cases rule: verifyAPIKeyScope_cases) auto
qed

lemma serve_guarded:
  assumes "find_route q = Some (r, pid)" and "rt_endpoint r \<notin> set public_endpoints"
  shows "serve lib env q sv =
    (case verifyAPIKeyScope lib env (q_apiKey q) (needed_scopes (rt_endpoint r)) sv of
       (False, sv') \<Rightarrow> (securityHeaders (writeError 401 ''invalid api key''), sv')
     | (True, sv') \<Rightarrow> (case finish (handler_of lib env q (rt_endpoint r) pid) sv' of
                        (resp, sv'') \<Rightarrow> (securityHeaders resp, sv'')))"
proof -
  have "rt_guard r = Keyed (needed_scopes (rt_endpoint r))"
    using route_guards [OF find_route_SomeD(1) [OF assms(1)]] assms(2)
    by (simp add: needed_scopes_def)
  then show ?thesis
    using assms(1)
    by (simp add: serve_def mux_def guarded_def requireAPIKeyScopes_def finish_def split: prod.splits bool.splits sum.splits)
qed

lemma security_status [simp]: "rs_status (securityHeaders r) = rs_status r" "rs_body (securityHeaders r) = rs_body r"
  by (simp_all add: securityHeaders_def split: payload.splits)

lemma write_simps [simp]:
  "rs_status (writeError n m) = n" "rs_body (writeError n m) = PError m"
  "rs_status (writeJSON n p) = n" "rs_body (writeJSON n p) = p"
  by (simp_all add: writeError_def writeJSON_def)

text \<open>
  C2: A request to a management route without a key that grants the route's scope is answered
  401 and changes nothing: no table, no relay session, no command. What grants it is the
  bootstrap key or an unrevoked stored key of scope admin, or of scope relay for the two relay
  routes (register, heartbeat).
\<close>

theorem management_needs_key:
  assumes "find_route q = Some (r, pid)" and "rt_endpoint r \<notin> set public_endpoints"
    and "\<not> key_grants lib sv (q_apiKey q) (needed_scopes (rt_endpoint r))"
    and "serve lib env q sv = (resp, sv')"
  shows "rs_status resp = 401 \<and> rs_body resp = PError ''invalid api key''
       \<and> same_tables (sv_db sv) (sv_db sv') \<and> sv' = sv\<lparr>sv_db := sv_db sv'\<rparr>"
proof -
  obtain ok sv1 where v: "verifyAPIKeyScope lib env (q_apiKey q) (needed_scopes (rt_endpoint r)) sv = (ok, sv1)"
    by fastforce
  from verify_refused [OF v assms(3)] have "\<not> ok" "same_tables (sv_db sv) (sv_db sv1)"
    "sv1 = sv\<lparr>sv_db := sv_db sv1\<rparr>" by auto
  with assms(4) v show ?thesis by (auto simp: serve_guarded [OF assms(1,2)])
qed

lemma demo_metrics_route: "find_route (demo_request ''GET'' [''metrics'']) =
   Some (mk_route ''GET'' [Lit ''metrics''] admin_only Metrics, '''')"
  by (simp add: find_route_def routes_def demo_request_def mk_route_def method_matches_def)

theorem management_needs_key_witness:
  "rs_status (fst (serve demo_lib demo_env ((demo_request ''GET'' [''metrics''])\<lparr>q_apiKey := ''k''\<rparr>) demo_server)) = 401"
proof -
  let ?q = "(demo_request ''GET'' [''metrics''])\<lparr>q_apiKey := ''k''\<rparr>"
  have "find_route ?q = Some (mk_route ''GET'' [Lit ''metrics''] admin_only Metrics, '''')"
    by (simp add: find_route_def routes_def demo_request_def mk_route_def method_matches_def)
  moreover have "\<not> key_grants demo_lib demo_server ''k'' scopes" for scopes
    by (auto simp: key_grants_def HashAPIKey_def space_free_root demo_lib_def)
      (auto simp: demo_server_def demo_db_def empty_db_def)
  ultimately show ?thesis
    using management_needs_key [of ?q "mk_route ''GET'' [Lit ''metrics''] admin_only Metrics" "''''" demo_lib
        demo_server demo_env]
    by (cases "serve demo_lib demo_env ?q demo_server")
      (auto simp: mk_route_def public_endpoints_def)
qed

text \<open>
  C10: A relay's key is worth only the relay routes: a stored key whose scope is relay, and whose
  digest is not the bootstrap digest, gets 401 on every management route except relay
  registration and heartbeat.
\<close>

theorem relay_key_is_confined:
  assumes "db_ok (sv_db sv)" and "k \<in> set (db_api_keys (sv_db sv))" and "k_Scope k = ''relay''"
    and "HashAPIKey (l_mac lib) (q_apiKey q) (pepper sv) = Inr (k_Digest k)"
    and "k_Digest k \<noteq> sv_adminDigest sv"
    and "find_route q = Some (r, pid)"
    and "rt_endpoint r \<notin> set public_endpoints" and "rt_endpoint r \<notin> set relay_endpoints"
    and "serve lib env q sv = (resp, sv')"
  shows "rs_status resp = 401 \<and> same_tables (sv_db sv) (sv_db sv')"
proof -
  have "unique_on k_Digest (db_api_keys (sv_db sv))" using assms(1) by (simp add: db_ok_def)
  then have "\<forall>k' \<in> set (db_api_keys (sv_db sv)). k_Digest k' = k_Digest k \<longrightarrow> k' = k"
    using assms(2) by (blast intro: unique_onD)
  moreover have "''relay'' \<noteq> ''admin''" by simp
  ultimately have "\<not> key_grants lib sv (q_apiKey q) [''admin'']"
    using assms(3-5) unfolding key_grants_def by fastforce
  then show ?thesis
    using management_needs_key [OF assms(6,7) _ assms(9)] assms(8) by (simp add: needed_scopes_def)
qed

definition relay_key :: api_key where
  "relay_key = \<lparr>k_ID = ''rk'', k_Name = ''n'', k_Digest = ''pk'', k_Scope = ''relay'', k_CreatedAt = GoTime 1,
     k_LastUsedAt = zero_time, k_RevokedAt = zero_time, k_PlaintextKey = ''''\<rparr>"

definition keyed_server :: "api_key \<Rightarrow> server" where
  "keyed_server k = demo_server\<lparr>sv_db := demo_db\<lparr>db_api_keys := [k]\<rparr>\<rparr>"

lemma demo_db_ok: "db_ok demo_db"
  by (rule Migrate_empty_ok [OF demo_migrated])

lemma keyed_ok: "k_PlaintextKey k = '''' \<Longrightarrow> db_ok (sv_db (keyed_server k))"
  using demo_db_ok by (simp add: db_ok_def keyed_server_def demo_db_def empty_db_def unique_on_def)

lemma keyed_simps [simp]: "pepper (keyed_server k) = ''p''" "sv_adminDigest (keyed_server k) = ''proot''"
  "db_api_keys (sv_db (keyed_server k)) = [k]"
  by (simp_all add: keyed_server_def pepper_def demo_server_def)

lemma demo_hash: "HashAPIKey (l_mac demo_lib) ''k'' ''p'' = Inr ''pk''"
  by (simp add: HashAPIKey_def space_free_root demo_lib_def)

theorem relay_key_is_confined_witness:
  "rs_status (fst (serve demo_lib demo_env ((demo_request ''GET'' [''metrics''])\<lparr>q_apiKey := ''k''\<rparr>) (keyed_server relay_key))) = 401"
proof -
  let ?q = "(demo_request ''GET'' [''metrics''])\<lparr>q_apiKey := ''k''\<rparr>"
  obtain resp sv' where s: "serve demo_lib demo_env ?q (keyed_server relay_key) = (resp, sv')" by fastforce
  have "find_route ?q = Some (mk_route ''GET'' [Lit ''metrics''] admin_only Metrics, '''')"
    by (simp add: find_route_def routes_def demo_request_def mk_route_def method_matches_def)
  from relay_key_is_confined [OF _ _ _ _ _ this _ _ s, of relay_key] keyed_ok [of relay_key] demo_hash
  have "rs_status resp = 401"
    by (simp add: relay_key_def mk_route_def public_endpoints_def relay_endpoints_def demo_request_def)
  then show ?thesis unfolding s by simp
qed

section \<open>Revocation\<close>

lemma revoke_status:
  assumes "finish (handleAPIKeyRevoke env kid) sv = (resp, sv')" and "rs_status resp = 204"
  shows "\<exists>d. RevokeAPIKey (e_now env 1) kid (sv_db sv) = (Inr (), d) \<and> sv' = sv\<lparr>sv_db := d\<rparr>"
  using assms
  by (auto simp: handleAPIKeyRevoke_def finish_def then_act_def reject_if_def respond_def return_act_def
      call_store_def try_store_def or_else_def missing_or_def split: prod.splits sum.splits if_splits)

lemma RevokeAPIKey_sets:
  assumes "RevokeAPIKey now kid s = (Inr (), s')"
  shows "db_api_keys s' = tbl_update (\<lambda>k. k_ID k = kid \<and> is_zero (k_RevokedAt k)) (\<lambda>k. k\<lparr>k_RevokedAt := now\<rparr>) (db_api_keys s)"
  using assms unfolding RevokeAPIKey_def Let_def
  by (auto dest!: exec_rows_cases)

text \<open>
  C7: Revocation is final: once the revocation of a stored key was answered 204, then after any
  later requests, whatever they are, the secret of that key (not being the bootstrap secret)
  grants no scope any more, so every management route answers it with 401.
\<close>

theorem revoked_key_stays_out:
  assumes "db_ok (sv_db sv)" and "env_ok env" and "k \<in> set (db_api_keys (sv_db sv))"
    and "finish (handleAPIKeyRevoke env (k_ID k)) sv = (r0, sv1)" and "rs_status r0 = 204"
    and "served lib sv1 sv2"
    and "HashAPIKey (l_mac lib) secret (pepper sv) = Inr (k_Digest k)" and "k_Digest k \<noteq> sv_adminDigest sv"
  shows "\<not> key_grants lib sv2 secret scopes"
proof -
  obtain d where rv: "RevokeAPIKey (e_now env 1) (k_ID k) (sv_db sv) = (Inr (), d)" and sv1: "sv1 = sv\<lparr>sv_db := d\<rparr>"
    using revoke_status [OF assms(4,5)] by blast
  have now: "e_now env 1 \<noteq> zero_time" using assms(2) by (simp add: env_ok_def)
  have steps: "db_steps (sv_db sv) d" using now rv by (rule RevokeAPIKey_steps)
  have ok1: "db_ok (sv_db sv1)" using db_steps_ok [OF steps assms(1)] by (simp add: sv1)
  have "\<exists>j \<in> set (db_api_keys d). k_ID j = k_ID k \<and> k_Digest j = k_Digest k \<and> k_RevokedAt j \<noteq> zero_time"
  proof (rule bexI)
    let ?sel = "\<lambda>x. k_ID x = k_ID k \<and> is_zero (k_RevokedAt x)"
    let ?j = "if ?sel k then k\<lparr>k_RevokedAt := e_now env 1\<rparr> else k"
    show "?j \<in> set (db_api_keys d)"
      unfolding RevokeAPIKey_sets [OF rv] tbl_update_def set_map using assms(3) by (rule rev_image_eqI) simp
    show "k_ID ?j = k_ID k \<and> k_Digest ?j = k_Digest k \<and> k_RevokedAt ?j \<noteq> zero_time" using now by simp
  qed
  then obtain j where j: "j \<in> set (db_api_keys (sv_db sv1))" "k_Digest j = k_Digest k" "k_RevokedAt j \<noteq> zero_time"
    by (auto simp: sv1)
  have "db_lasts (sv_db sv1) (sv_db sv2)" by (rule served_lasts [OF assms(6) ok1])
  with j obtain l where l: "l \<in> set (db_api_keys (sv_db sv2))" "k_Digest l = k_Digest k" "k_RevokedAt l \<noteq> zero_time"
    by (fastforce simp: db_lasts_def same_key_def)
  have m: "db_moves sv1 sv2" "db_ok (sv_db sv2)" using served_moves [OF assms(6) ok1] by auto
  then have same: "pepper sv2 = pepper sv" "sv_adminDigest sv2 = sv_adminDigest sv"
    by (auto simp: db_moves_def pepper_def sv1)
  have "k' = l" if "k' \<in> set (db_api_keys (sv_db sv2))" "k_Digest k' = k_Digest k" for k'
    using that l m(2) unique_onD [of k_Digest "db_api_keys (sv_db sv2)" k' l] by (simp add: db_ok_def)
  then show ?thesis
    using assms(7,8) l(3) same unfolding key_grants_def by fastforce
qed

theorem revoked_key_stays_out_witness:
  "\<not> key_grants demo_lib (snd (finish (handleAPIKeyRevoke demo_env ''rk'') (keyed_server relay_key))) ''k'' [''relay'']"
proof -
  obtain r0 sv1 where f: "finish (handleAPIKeyRevoke demo_env ''rk'') (keyed_server relay_key) = (r0, sv1)"
    by fastforce
  then have "rs_status r0 = 204"
    by (auto simp: handleAPIKeyRevoke_def finish_def then_act_def reject_if_def respond_def return_act_def
        call_store_def try_store_def or_else_def RevokeAPIKey_def exec_rows_def exec_stmt_def Let_def
        keyed_server_def demo_server_def demo_db_def empty_db_def relay_key_def tbl_count_def noContent_def)
  from revoked_key_stays_out [OF keyed_ok demo_env_ok _ _ this served.none, of relay_key]
  show ?thesis using f demo_hash by (simp add: relay_key_def)
qed

end
