(* ===== verification/Enrollment.thy ===== *)
theory Enrollment
  imports Server_Props
begin

text \<open>
  Enrollment: what a registration does to the store when it succeeds and when it fails, that a
  one-time key is used once as long as registrations do not overlap, and how it can be used
  twice: by two overlapping registrations, or when the statement that marks it used fails.
\<close>

section \<open>Actions that only read\<close>

definition reads_only :: "server \<Rightarrow> server \<Rightarrow> bool" where
  "reads_only sv sv' \<longleftrightarrow> same_tables (sv_db sv) (sv_db sv') \<and> sv' = sv\<lparr>sv_db := sv_db sv'\<rparr>"

interpretation reads: action_relation reads_only
proof unfold_locales
  fix sv sv' sv'' assume "reads_only sv sv'" "reads_only sv' sv''"
  then show "reads_only sv sv''"
    by (cases sv; cases sv'; cases sv'') (auto simp: reads_only_def intro: same_tables_trans)
qed (simp add: reads_only_def)

lemma reads_call:
  "(\<And>y d. f (sv_db sv) = (y, d) \<Longrightarrow> same_tables (sv_db sv) d) \<Longrightarrow> keeps_at reads_only (call_store f e) sv"
  by (rule reads.keeps_call) (simp add: reads_only_def)

lemma reads_try:
  "(\<And>y d. f (sv_db sv) = (y, d) \<Longrightarrow> same_tables (sv_db sv) d) \<Longrightarrow> keeps_at reads_only (try_store f) sv"
  by (rule reads.keeps_try) (simp add: reads_only_def)

lemmas reads_rules = reads.keeps_basic reads.keeps_then

lemma reads_check_registration: "keeps_at reads_only (check_registration q) sv"
  unfolding check_registration_def by (intro reads_rules)

lemma reads_find_invitation: "keeps_at reads_only (find_invitation lib env req) sv"
  unfolding find_invitation_def by (intro reads_rules reads_call) (erule method_reads)

lemma insert_into_fails:
  "insert_into c get put r s = (Inl e, s') \<Longrightarrow> same_tables s s'"
  by (auto dest!: insert_into_cases)

lemma create_device_fails:
  assumes "create_device lib env req invit sv = (Inl r, sv')"
  shows "reads_only sv sv' \<and> rs_status r = 500"
proof (cases "NewAPIKey (e_rand env)")
  case None
  with assms show ?thesis by (auto simp: create_device_def respond_def reads.refl)
next
  case (Some token)
  with assms show ?thesis
    by (auto simp: create_device_def Let_def then_act_def hash_act_run call_store_def try_store_def or_else_def
        respond_def return_act_def reads_only_def CreateDevice_def split: sum.splits prod.splits
        dest!: insert_into_fails)
qed

lemma act_reject_status:
  assumes "m sv = (Inl r, sv')" and "m = decode_or g q msg \<or> m = reject_if c (writeError n msg) \<and> n \<noteq> 201"
  shows "rs_status r \<noteq> 201"
  using assms by (auto simp: decode_or_def reject_if_def respond_def return_act_def split: option.splits if_splits)

lemma check_registration_status: "check_registration q sv = (Inl r, sv') \<Longrightarrow> rs_status r = 400"
  by (auto simp: check_registration_def then_act_def decode_or_def reject_if_def respond_def return_act_def
      split: option.splits if_splits)

lemma find_invitation_status: "find_invitation lib env req sv = (Inl r, sv') \<Longrightarrow> rs_status r \<in> {400, 401, 409, 500}"
  by (auto simp: find_invitation_def then_act_def hash_act_run call_store_def try_store_def or_else_def
      invitation_error_def reject_if_def respond_def return_act_def split: sum.splits prod.splits if_splits)

text \<open>After the device is stored: the hub, the mark and the relay list.\<close>

definition same_devices :: "server \<Rightarrow> server \<Rightarrow> bool" where
  "same_devices sv sv' \<longleftrightarrow> db_devices (sv_db sv') = db_devices (sv_db sv)"

interpretation devs: action_relation same_devices
  by unfold_locales (simp_all add: same_devices_def)

lemma SyncHub_run:
  "SyncHub env sv = (x, sv') \<Longrightarrow> x = Inr () \<and> same_tables (sv_db sv) (sv_db sv') \<and> sv_cfg sv' = sv_cfg sv
     \<and> sv_adminDigest sv' = sv_adminDigest sv"
  by (auto simp: SyncHub_def split: option.splits prod.splits dest: method_reads(10))

lemma MarkInvitationUsed_devices:
  "MarkInvitationUsed now iid s = (x, s') \<Longrightarrow> db_devices s' = db_devices s"
  unfolding MarkInvitationUsed_def exec_quiet_def
  by (auto elim!: exec_stmt_cases dest: same_tablesD)

lemma mark_used_run:
  "mark_used env invit sv = (x, sv') \<Longrightarrow> x = Inr () \<and> same_devices sv sv' \<and> sv' = sv\<lparr>sv_db := sv_db sv'\<rparr>"
  by (auto simp: mark_used_def then_act_def try_store_def return_act_def same_devices_def
      split: prod.splits if_splits dest!: MarkInvitationUsed_devices)

text \<open>The two outcomes of a registration.\<close>

lemma register_outcome:
  assumes "handleDeviceRegister lib env q sv = (x, sv')"
  obtains (rejected) r where "x = Inl r" "rs_status r \<noteq> 201" "reads_only sv sv'"
    | (accepted) req invit sv2 d sv3 sv4 sv5 relays where
      "check_registration q sv = (Inr req, sv)" "find_invitation lib env req sv = (Inr invit, sv2)"
      "create_device lib env req invit sv2 = (Inr d, sv3)" "SyncHub env sv3 = (Inr (), sv4)"
      "mark_used env invit sv4 = (Inr (), sv5)" "same_tables (sv_db sv5) (sv_db sv')"
      "x = Inr (writeJSON 201 (PRegistered \<lparr>resp_Device = wire_device d, resp_Relays = relays,
         resp_Message = ''device registered''\<rparr>))"
proof -
  obtain y1 sv1 where c: "check_registration q sv = (y1, sv1)" by fastforce
  note r1 = keeps_atD [OF reads_check_registration c]
  show ?thesis
  proof (cases y1)
    case (Inl r)
    with assms c have "x = Inl r" "sv' = sv1" by (simp_all add: handleDeviceRegister_def then_act_def)
    with rejected r1 check_registration_status c Inl show ?thesis by simp
  next
    case (Inr req)
    have sv1: "sv1 = sv" using check_registration_InrD(1) c Inr by blast
    obtain y2 sv2 where f: "find_invitation lib env req sv = (y2, sv2)" by fastforce
    note r2 = keeps_atD [OF reads_find_invitation f]
    show ?thesis
    proof (cases y2)
      case (Inl r)
      with assms c f \<open>y1 = Inr req\<close> sv1 have "x = Inl r" "sv' = sv2"
        by (simp_all add: handleDeviceRegister_def then_act_def)
      moreover have "rs_status r \<noteq> 201" using find_invitation_status f Inl by force
      ultimately show ?thesis using rejected r2 by simp
    next
      case (Inr invit)
      obtain y3 sv3 where d: "create_device lib env req invit sv2 = (y3, sv3)" by fastforce
      show ?thesis
      proof (cases y3)
        case (Inl r)
        with assms c f \<open>y1 = Inr req\<close> \<open>y2 = Inr invit\<close> sv1 d have "x = Inl r" "sv' = sv3"
          by (simp_all add: handleDeviceRegister_def then_act_def)
        with create_device_fails [OF d [unfolded Inl]] reads.trans [OF r2] rejected show ?thesis by simp
      next
        case (Inr dev)
        obtain y4 sv4 where h: "SyncHub env sv3 = (y4, sv4)" by fastforce
        obtain y5 sv5 where m: "mark_used env invit sv4 = (y5, sv5)" by fastforce
        obtain z d6 where l: "ListRelays (sv_db sv5) = (z, d6)" by fastforce
        note steps = c f d h m l
        have "y4 = Inr ()" "y5 = Inr ()" using SyncHub_run [OF h] mark_used_run [OF m] by auto
        with assms steps \<open>y1 = Inr req\<close> \<open>y2 = Inr invit\<close> Inr sv1
        have "sv' = sv5\<lparr>sv_db := d6\<rparr>" "x = Inr (writeJSON 201 (PRegistered \<lparr>resp_Device = wire_device dev,
            resp_Relays = (case z of Inl _ \<Rightarrow> [] | Inr rs \<Rightarrow> rs), resp_Message = ''device registered''\<rparr>))"
          by (simp_all add: handleDeviceRegister_def then_act_def try_store_def return_act_def)
        moreover have "same_tables (sv_db sv5) d6" using l by (rule method_reads(7))
        ultimately show ?thesis
          using accepted [of req invit sv2 dev sv3 sv4 sv5] steps \<open>y4 = Inr ()\<close> \<open>y5 = Inr ()\<close>
            \<open>y1 = Inr req\<close> \<open>y2 = Inr invit\<close> Inr sv1 by simp
      qed
    qed
  qed
qed

section \<open>One registration\<close>

lemma CreateDevice_InrD:
  assumes "CreateDevice d s = (Inr u, s')"
  shows "db_devices s' = db_devices s @ [d\<lparr>d_DeviceToken := ''''\<rparr>]"
    "d_ID d \<notin> d_ID ` set (db_devices s)" "d_VirtualIP d \<notin> d_VirtualIP ` set (db_devices s)"
  using devices.ins_ok [OF assms] devices.ins_fresh [OF assms] device_ips.ins_fresh [OF assms]
  by simp_all

text \<open>The identity a new device gets: what it is made of and the token that opens it.\<close>

definition enrolled ::
  "lib \<Rightarrow> env \<Rightarrow> server \<Rightarrow> device_registration_request \<Rightarrow> invitation \<Rightarrow> device \<Rightarrow> bool" where
  "enrolled lib env sv req invit d \<longleftrightarrow>
     (\<exists>token th. NewAPIKey (e_rand env) = Some token
        \<and> HashAPIKey (l_mac lib) token (pepper sv) = Inr th
        \<and> d = new_device env req invit (trim_space (drr_Endpoint req)) token th)"

text \<open>The invitation a request's enrollment key opens at a time.\<close>

definition opens :: "lib \<Rightarrow> server \<Rightarrow> gotime \<Rightarrow> device_registration_request \<Rightarrow> invitation \<Rightarrow> bool" where
  "opens lib sv now req invit \<longleftrightarrow>
     invit \<in> set (db_invitations (sv_db sv))
     \<and> HashAPIKey (l_mac lib) (drr_EnrollmentKey req) (pepper sv) = Inr (i_TokenHash invit)
     \<and> \<not> time_after now (i_ExpiresAt invit)
     \<and> (i_Reusable invit \<or> i_UsedAt invit = zero_time)"

lemma found_opens:
  assumes "find_invitation lib env req sv = (Inr invit, sv')"
  shows "opens lib sv (e_now env 1) req invit" "same_tables (sv_db sv) (sv_db sv')" "pepper sv' = pepper sv"
proof -
  obtain th where f: "HashAPIKey (l_mac lib) (drr_EnrollmentKey req) (pepper sv) = Inr th"
    "invit \<in> set (db_invitations (sv_db sv))" "i_TokenHash invit = th"
    "same_tables (sv_db sv) (sv_db sv')" "sv' = sv\<lparr>sv_db := sv_db sv'\<rparr>"
    "\<not> time_after (e_now env 1) (i_ExpiresAt invit)" "i_Reusable invit \<or> i_UsedAt invit = zero_time"
    by (rule find_invitation_InrD [OF assms]) blast
  then show "opens lib sv (e_now env 1) req invit" "same_tables (sv_db sv) (sv_db sv')"
    by (simp_all add: opens_def)
  have "sv_cfg sv' = sv_cfg (sv\<lparr>sv_db := sv_db sv'\<rparr>)" by (rule arg_cong [OF f(5)])
  then show "pepper sv' = pepper sv" by (simp add: pepper_def)
qed

lemma finish_cases:
  assumes "finish m sv = (resp, sv')"
  obtains x where "m sv = (x, sv')" "resp = (case x of Inl r \<Rightarrow> r | Inr r \<Rightarrow> r)"
  using assms by (auto simp: finish_def split: prod.splits sum.splits)

lemma registration_result:
  assumes "finish (handleDeviceRegister lib env q) sv = (resp, sv')"
  shows "(rs_status resp \<noteq> 201 \<longrightarrow> same_tables (sv_db sv) (sv_db sv') \<and> sv' = sv\<lparr>sv_db := sv_db sv'\<rparr>)
       \<and> (rs_status resp = 201 \<longrightarrow> (\<exists>req invit d relays.
            decodeJSON jb_register q = Some req
            \<and> opens lib sv (e_now env 1) req invit
            \<and> enrolled lib env sv req invit d
            \<and> db_devices (sv_db sv') = db_devices (sv_db sv) @ [d\<lparr>d_DeviceToken := ''''\<rparr>]
            \<and> d_ID d \<notin> d_ID ` set (db_devices (sv_db sv))
            \<and> d_VirtualIP d \<notin> d_VirtualIP ` set (db_devices (sv_db sv))
            \<and> rs_body resp = PRegistered \<lparr>resp_Device = wire_device d, resp_Relays = relays,
                resp_Message = ''device registered''\<rparr>))"
proof -
  obtain x where h: "handleDeviceRegister lib env q sv = (x, sv')"
    and resp: "resp = (case x of Inl r \<Rightarrow> r | Inr r \<Rightarrow> r)"
    by (rule finish_cases [OF assms])
  from h show ?thesis
  proof (cases rule: register_outcome)
    case (rejected r)
    then show ?thesis by (simp add: resp reads_only_def)
  next
    case (accepted req invit sv2 d sv3 sv4 sv5 relays)
    note f = found_opens [OF accepted(2)]
    obtain token dth u where d: "NewAPIKey (e_rand env) = Some token"
      "HashAPIKey (l_mac lib) token (pepper sv2) = Inr dth"
      "d = new_device env req invit (trim_space (drr_Endpoint req)) token dth"
      "CreateDevice d (sv_db sv2) = (Inr u, sv_db sv3)"
      by (rule create_device_InrD [OF accepted(3)]) blast
    note dev2 = same_tablesD(6) [OF f(2)]
    note ins = CreateDevice_InrD [OF d(4), unfolded dev2]
    have "same_tables (sv_db sv3) (sv_db sv4)" using SyncHub_run [OF accepted(4)] by blast
    moreover have "same_devices sv4 sv5" using mark_used_run [OF accepted(5)] by blast
    ultimately have "db_devices (sv_db sv') = db_devices (sv_db sv3)"
      using same_tablesD(6) [OF accepted(6)] same_tablesD(6) by (simp add: same_devices_def)
    then have all: "db_devices (sv_db sv') = db_devices (sv_db sv) @ [d\<lparr>d_DeviceToken := ''''\<rparr>]"
      using ins(1) by simp
    have "decodeJSON jb_register q = Some req" by (rule check_registration_InrD(2) [OF accepted(1)])
    moreover note f(1)
    moreover have "enrolled lib env sv req invit d" using d(1-3) by (auto simp: enrolled_def f(3))
    moreover have "rs_status resp = 201" "rs_body resp = PRegistered \<lparr>resp_Device = wire_device d,
        resp_Relays = relays, resp_Message = ''device registered''\<rparr>"
      by (simp_all add: resp accepted(7))
    ultimately show ?thesis using all ins(2,3) by blast
  qed
qed

text \<open>
  C4: A registration either is refused and leaves every table as it was, or is answered 201 and
  adds exactly one device row: its user and group are those of a stored invitation that the
  request's enrollment key opens (not expired, reusable or not used yet), its id and virtual
  address are new, the row holds the digest of the token but not the token, and the answer
  carries the device with its token.
\<close>

theorem registration_adds_one_device:
  assumes "finish (handleDeviceRegister lib env q) sv = (resp, sv')"
  shows "(rs_status resp \<noteq> 201 \<longrightarrow> same_tables (sv_db sv) (sv_db sv') \<and> sv' = sv\<lparr>sv_db := sv_db sv'\<rparr>)
       \<and> (rs_status resp = 201 \<longrightarrow> (\<exists>req invit d relays.
            decodeJSON jb_register q = Some req
            \<and> opens lib sv (e_now env 1) req invit
            \<and> enrolled lib env sv req invit d
            \<and> db_devices (sv_db sv') = db_devices (sv_db sv) @ [d\<lparr>d_DeviceToken := ''''\<rparr>]
            \<and> d_ID d \<notin> d_ID ` set (db_devices (sv_db sv))
            \<and> d_VirtualIP d \<notin> d_VirtualIP ` set (db_devices (sv_db sv))
            \<and> rs_body resp = PRegistered \<lparr>resp_Device = wire_device d, resp_Relays = relays,
                resp_Message = ''device registered''\<rparr>))"
  by (rule registration_result [OF assms])

definition demo_invitation :: invitation where
  "demo_invitation = \<lparr>i_ID = ''i'', i_TokenHash = ''pk'', i_UserID = ''default-user'', i_GroupID = ''default'',
     i_Reusable = False, i_ExpiresAt = GoTime 9000000000, i_UsedAt = zero_time, i_CreatedAt = GoTime 1,
     i_PlaintextToken = ''''\<rparr>"

definition inviting_server :: "bool list \<Rightarrow> server" where
  "inviting_server faults = demo_server\<lparr>sv_db := demo_db\<lparr>db_invitations := [demo_invitation], db_faults := faults\<rparr>\<rparr>"

definition enrolling_request :: request where
  "enrolling_request = (demo_request ''POST'' [''api'', ''v1'', ''devices'', ''register''])\<lparr>q_body :=
     empty_body\<lparr>jb_register := Some \<lparr>drr_EnrollmentKey = ''k'', drr_Name = ''n'', drr_PublicKey = ''k'',
       drr_Fingerprint = '''', drr_Endpoint = ''''\<rparr>\<rparr>\<rparr>"

lemmas run_defs = then_act_def hash_act_def get_act_def or_else_def respond_def return_act_def reject_if_def
  decode_or_def call_store_def try_store_def finish_def

lemma demo_token: "NewAPIKey (Some [1, 2, 3]) = Some ''lb_AQID''" "trim_space ''lb_AQID'' = ''lb_AQID''"
proof -
  have "b64url_encode [1, 2, 3] = ''AQID''" by code_simp
  then show t: "NewAPIKey (Some [1, 2, 3]) = Some ''lb_AQID''" by (simp add: NewAPIKey_def)
  show "trim_space ''lb_AQID'' = ''lb_AQID''"
    by (rule NewAPIKey_trim [OF _ t]) (simp add: bytes_ok_def)
qed

lemma inviting_simps [simp]:
  "pepper (inviting_server fs) = ''p''" "sv_hub (inviting_server fs) = None"
  "db_faults (sv_db (inviting_server fs)) = fs" "db_invitations (sv_db (inviting_server fs)) = [demo_invitation]"
  "db_devices (sv_db (inviting_server fs)) = []"
  by (simp_all add: inviting_server_def pepper_def demo_server_def demo_db_def empty_db_def)

lemma demo_checked: "check_registration enrolling_request sv =
  (Inr \<lparr>drr_EnrollmentKey = ''k'', drr_Name = ''n'', drr_PublicKey = ''k'', drr_Fingerprint = '''', drr_Endpoint = ''''\<rparr>, sv)"
  by (simp add: check_registration_def run_defs decodeJSON_def enrolling_request_def demo_request_def empty_body_def
      space_free_root validWireGuardEndpoint_def)

abbreviation demo_drr :: device_registration_request where
  "demo_drr \<equiv> \<lparr>drr_EnrollmentKey = ''k'', drr_Name = ''n'', drr_PublicKey = ''k'', drr_Fingerprint = '''', drr_Endpoint = ''''\<rparr>"

lemma inviting_put [simp]:
  "(inviting_server fs)\<lparr>sv_db := (sv_db (inviting_server fs))\<lparr>db_faults := gs\<rparr>\<rparr> = inviting_server gs"
  by (simp add: inviting_server_def)

lemma inviting_same [simp]: "(inviting_server fs)\<lparr>sv_db := sv_db (inviting_server fs)\<rparr> = inviting_server fs"
  by (simp add: inviting_server_def)

lemma demo_found:
  assumes "fs = [] \<or> \<not> hd fs" and "\<not> time_after (e_now env 1) (GoTime 9000000000)"
  shows "find_invitation demo_lib env demo_drr (inviting_server fs) = (Inr demo_invitation, inviting_server (tl fs))"
proof -
  have i: "i_TokenHash demo_invitation = ''pk''" "i_UsedAt demo_invitation = zero_time"
    "i_ExpiresAt demo_invitation = GoTime 9000000000" by (simp_all add: demo_invitation_def)
  show ?thesis
    using assms
    by (cases fs)
      (simp_all add: find_invitation_def run_defs demo_hash GetInvitationByTokenHash_def query_row_def
        exec_stmt_def i)
qed

section \<open>One-time keys in sequence\<close>

text \<open>Without scripted failures the statements of a registration do what they say.\<close>

lemma MarkInvitationUsed_done:
  "db_faults s = [] \<Longrightarrow> MarkInvitationUsed now iid s =
     (Inr (), s\<lparr>db_invitations := tbl_update (\<lambda>i. i_ID i = iid) (\<lambda>i. i\<lparr>i_UsedAt := now\<rparr>) (db_invitations s)\<rparr>)"
  by (simp add: MarkInvitationUsed_def exec_quiet_def)

lemma no_fault_kept:
  "db_faults s = [] \<Longrightarrow> GetInvitationByTokenHash th s = (x, s') \<Longrightarrow> s' = s"
  "db_faults s = [] \<Longrightarrow> ListDevices s = (y, s') \<Longrightarrow> s' = s"
  "db_faults s = [] \<Longrightarrow> CreateDevice d s = (Inr u, s') \<Longrightarrow>
     s' = s\<lparr>db_devices := db_devices s @ [d\<lparr>d_DeviceToken := ''''\<rparr>]\<rparr>"
  by (auto simp: GetInvitationByTokenHash_def query_row_def ListDevices_def query_all_def CreateDevice_def
      insert_into_def tbl_insert_def split: option.splits if_splits)

lemma SyncHub_quiet:
  "db_faults (sv_db sv) = [] \<Longrightarrow> SyncHub env sv = (x, sv') \<Longrightarrow> sv_db sv' = sv_db sv"
  by (auto simp: SyncHub_def split: option.splits prod.splits dest: no_fault_kept(2))

text \<open>After an undisturbed accepted registration, the invitation is marked.\<close>

lemma accepted_marks:
  assumes "db_faults (sv_db sv) = []" and "e_now env 3 \<noteq> zero_time"
    and "find_invitation lib env req sv = (Inr invit, sv2)" and "create_device lib env req invit sv2 = (Inr d, sv3)"
    and "SyncHub env sv3 = (Inr (), sv4)" and "mark_used env invit sv4 = (Inr (), sv5)"
    and "\<not> i_Reusable invit"
  shows "\<exists>j \<in> set (db_invitations (sv_db sv5)). i_TokenHash j = i_TokenHash invit \<and> \<not> i_Reusable j
           \<and> i_UsedAt j \<noteq> zero_time"
proof -
  obtain th where f: "GetInvitationByTokenHash th (sv_db sv) = (Inr invit, sv_db sv2)"
    "invit \<in> set (db_invitations (sv_db sv))"
    using assms(3) unfolding find_invitation_def
    by (auto elim!: then_act_InrE dest!: act_InrD dest: GetInvitationByTokenHash_found)
  have db2: "sv_db sv2 = sv_db sv" by (rule no_fault_kept(1) [OF assms(1) f(1)])
  obtain u where "CreateDevice d (sv_db sv2) = (Inr u, sv_db sv3)"
    by (rule create_device_InrD [OF assms(4)]) blast
  then have db3: "sv_db sv3 = (sv_db sv)\<lparr>db_devices := db_devices (sv_db sv) @ [d\<lparr>d_DeviceToken := ''''\<rparr>]\<rparr>"
    using no_fault_kept(3) [of "sv_db sv2"] assms(1) by (simp add: db2)
  then have "db_faults (sv_db sv3) = []" using assms(1) by simp
  then have db4: "sv_db sv4 = sv_db sv3" using SyncHub_quiet assms(5) by blast
  have "sv_db sv5 = (sv_db sv4)\<lparr>db_invitations := tbl_update (\<lambda>i. i_ID i = i_ID invit)
      (\<lambda>i. i\<lparr>i_UsedAt := e_now env 3\<rparr>) (db_invitations (sv_db sv4))\<rparr>"
    using assms(6,7) db4 db3 assms(1)
    by (auto simp: mark_used_def then_act_def try_store_def return_act_def MarkInvitationUsed_done)
  then have "invit\<lparr>i_UsedAt := e_now env 3\<rparr> \<in> set (db_invitations (sv_db sv5))"
    using f(2) by (auto simp: db4 db3 tbl_update_def image_iff intro!: bexI [of _ invit])
  then show ?thesis using assms(2,7) by (intro bexI) auto
qed

text \<open>A used one-time invitation is never found again, whatever happened since.\<close>

lemma used_key_refused:
  assumes "db_ok (sv_db sv)" and "j \<in> set (db_invitations (sv_db sv))" and "\<not> i_Reusable j"
    and "i_UsedAt j \<noteq> zero_time"
    and "HashAPIKey (l_mac lib) (drr_EnrollmentKey req) (pepper sv) = Inr (i_TokenHash j)"
  shows "\<not> opens lib sv now req i"
proof
  assume o: "opens lib sv now req i"
  then have "i_TokenHash i = i_TokenHash j" "i \<in> set (db_invitations (sv_db sv))"
    using assms(5) by (auto simp: opens_def)
  then have "i = j"
    using assms(1,2) unique_onD [of i_TokenHash "db_invitations (sv_db sv)" i j] by (simp add: db_ok_def)
  with o assms(3,4) show False by (simp add: opens_def)
qed

text \<open>
  C8: A one-time enrollment key enrolls one device when requests do not overlap and the store
  does not fail: after a registration with it was answered 201, every later registration with
  the same key, after any requests in between, is refused and leaves the tables as they are.
\<close>

theorem one_time_key_used_once:
  assumes "db_ok (sv_db sv)" and "env_ok env1" and "db_faults (sv_db sv) = []"
    and "finish (handleDeviceRegister lib env1 q1) sv = (resp1, sv1)" and "rs_status resp1 = 201"
    and "decodeJSON jb_register q1 = Some req1"
    and "HashAPIKey (l_mac lib) (drr_EnrollmentKey req1) (pepper sv) = Inr (i_TokenHash i)"
    and "i \<in> set (db_invitations (sv_db sv))" and "\<not> i_Reusable i"
    and "served lib sv1 sv2"
    and "decodeJSON jb_register q2 = Some req2"
    and "HashAPIKey (l_mac lib) (drr_EnrollmentKey req2) (pepper sv) = Inr (i_TokenHash i)"
    and "finish (handleDeviceRegister lib env2 q2) sv2 = (resp2, sv3)"
  shows "rs_status resp2 \<noteq> 201 \<and> same_tables (sv_db sv2) (sv_db sv3)"
proof -
  obtain x where h: "handleDeviceRegister lib env1 q1 sv = (x, sv1)" using finish_run [OF assms(4)] by blast
  have m1: "db_moves sv sv1" by (rule keeps_atD [OF moves_device_register [OF assms(2,1)] h])
  then have ok1: "db_ok (sv_db sv1)" using assms(1) by (auto simp: db_moves_def dest: db_steps_ok)
  have "\<exists>j \<in> set (db_invitations (sv_db sv1)). i_TokenHash j = i_TokenHash i \<and> \<not> i_Reusable j \<and> i_UsedAt j \<noteq> zero_time"
    using h
  proof (cases rule: register_outcome)
    case (rejected r)
    with assms(4,5) h show ?thesis by (simp add: finish_def)
  next
    case (accepted req invit sv2 d sv3 sv4 sv5 relays)
    have "req = req1" using check_registration_InrD(2) [OF accepted(1)] assms(6) by simp
    then have inv: "invit = i"
      using assms(1,7,8) unique_onD [of i_TokenHash "db_invitations (sv_db sv)" invit i]
      by (auto simp: db_ok_def intro: find_invitation_InrD [OF accepted(2)])
    have now: "e_now env1 3 \<noteq> zero_time" using assms(2) by (simp add: env_ok_def)
    from accepted_marks [OF assms(3) now accepted(2-5)] assms(9) inv
    show ?thesis by (simp add: same_tablesD(4) [OF accepted(6)])
  qed
  then obtain j where j: "j \<in> set (db_invitations (sv_db sv1))" "i_TokenHash j = i_TokenHash i"
    "\<not> i_Reusable j" "i_UsedAt j \<noteq> zero_time" by blast
  from served_lasts [OF assms(10) ok1] j(1) obtain k where k: "k \<in> set (db_invitations (sv_db sv2))" "same_invitation j k"
    by (auto simp: db_lasts_def)
  have m2: "db_moves sv sv2" "db_ok (sv_db sv2)"
    using moves.trans [OF m1] served_moves [OF assms(10) ok1] by auto
  then have pep: "pepper sv2 = pepper sv" by (simp add: pepper_def db_moves_def)
  have no: "\<not> opens lib sv2 now req2 i'" for now i'
    by (rule used_key_refused [OF m2(2) k(1)]) (use k(2) j assms(12) pep in \<open>auto simp: same_invitation_def\<close>)
  obtain y where h2: "handleDeviceRegister lib env2 q2 sv2 = (y, sv3)"
    and resp2: "resp2 = (case y of Inl r \<Rightarrow> r | Inr r \<Rightarrow> r)"
    by (rule finish_cases [OF assms(13)])
  from h2 show ?thesis
  proof (cases rule: register_outcome)
    case (rejected r)
    then show ?thesis by (simp add: resp2 reads_only_def)
  next
    case (accepted req invit sv2' d sv3' sv4' sv5' relays)
    have "req = req2" using check_registration_InrD(2) [OF accepted(1)] assms(11) by simp
    with found_opens(1) [OF accepted(2)] no show ?thesis by simp
  qed
qed

text \<open>When a registration reaches the store with a free id and address and nothing fails, it succeeds.\<close>

lemma create_device_done:
  assumes "db_faults (sv_db sv) = []" and "NewAPIKey (e_rand env) = Some token"
    and "HashAPIKey (l_mac lib) token (pepper sv) = Inr th"
    and "e_uuid env 0 \<notin> d_ID ` set (db_devices (sv_db sv))"
    and "virtualIPFromUUID (e_vip env) \<notin> d_VirtualIP ` set (db_devices (sv_db sv))"
    and d: "d = new_device env req invit (trim_space (drr_Endpoint req)) token th"
  shows "create_device lib env req invit sv =
    (Inr d, sv\<lparr>sv_db := (sv_db sv)\<lparr>db_devices := db_devices (sv_db sv) @ [d\<lparr>d_DeviceToken := ''''\<rparr>]\<rparr>\<rparr>)"
proof -
  have "tbl_insert (\<lambda>a b. d_ID a = d_ID b \<or> d_VirtualIP a = d_VirtualIP b) (d\<lparr>d_DeviceToken := ''''\<rparr>) (db_devices (sv_db sv))
      = Some (db_devices (sv_db sv) @ [d\<lparr>d_DeviceToken := ''''\<rparr>])"
    using assms(4,5) by (auto simp: tbl_insert_def d list_ex_iff)
  then show ?thesis
    using assms(1-3)
    by (simp add: create_device_def run_defs d [symmetric] Let_def CreateDevice_def insert_into_def)
qed

definition register_commit ::
  "lib \<Rightarrow> env \<Rightarrow> device_registration_request \<times> invitation \<Rightarrow> response act" where
  "register_commit lib env = (\<lambda>(req, invit).
     then_act (create_device lib env req invit) (\<lambda>d.
     then_act (SyncHub env) (\<lambda>_.
     then_act (mark_used env invit) (\<lambda>_.
     then_act (try_store ListRelays) (\<lambda>relays.
     return_act (writeJSON 201 (PRegistered
       \<lparr>resp_Device = wire_device d,
        resp_Relays = (case relays of Inl _ \<Rightarrow> [] | Inr rs \<Rightarrow> rs),
        resp_Message = ''device registered''\<rparr>)))))))"

definition register_begin ::
  "lib \<Rightarrow> env \<Rightarrow> request \<Rightarrow> (device_registration_request \<times> invitation) act" where
  "register_begin lib env q =
     then_act (check_registration q) (\<lambda>req.
     then_act (find_invitation lib env req) (\<lambda>invit. return_act (req, invit)))"

text \<open>The handler is its two halves in a row.\<close>

lemma then_act_assoc: "then_act (then_act m f) g = then_act m (\<lambda>a. then_act (f a) g)"
  by (auto simp: then_act_def fun_eq_iff split: prod.splits sum.splits)

lemma then_act_return [simp]: "then_act (return_act a) f = f a"
  by (simp add: then_act_def return_act_def fun_eq_iff)

lemma register_halves:
  "handleDeviceRegister lib env q = then_act (register_begin lib env q) (register_commit lib env)"
  by (simp add: handleDeviceRegister_def register_begin_def register_commit_def then_act_assoc)

lemma commit_done:
  assumes "db_faults (sv_db sv) = []" and "NewAPIKey (e_rand env) = Some token"
    and "HashAPIKey (l_mac lib) token (pepper sv) = Inr th"
    and "e_uuid env 0 \<notin> d_ID ` set (db_devices (sv_db sv))"
    and "virtualIPFromUUID (e_vip env) \<notin> d_VirtualIP ` set (db_devices (sv_db sv))"
    and d: "d = new_device env req invit (trim_space (drr_Endpoint req)) token th"
    and "finish (register_commit lib env (req, invit)) sv = (resp, sv')"
  shows "rs_status resp = 201 \<and> db_devices (sv_db sv') = db_devices (sv_db sv) @ [d\<lparr>d_DeviceToken := ''''\<rparr>]
    \<and> db_faults (sv_db sv') = [] \<and> pepper sv' = pepper sv"
proof -
  let ?s1 = "sv\<lparr>sv_db := (sv_db sv)\<lparr>db_devices := db_devices (sv_db sv) @ [d\<lparr>d_DeviceToken := ''''\<rparr>]\<rparr>\<rparr>"
  note c = create_device_done [OF assms(1-5) d]
  obtain y2 s2 where h: "SyncHub env ?s1 = (y2, s2)" by fastforce
  note h' = SyncHub_run [OF h] and db2 = SyncHub_quiet [OF _ h]
  obtain y3 s3 where m: "mark_used env invit s2 = (y3, s3)" by fastforce
  note m' = mark_used_run [OF m]
  have f2: "db_faults (sv_db s2) = []" using db2 assms(1) by simp
  then have f3: "db_faults (sv_db s3) = []"
    using m by (auto simp: mark_used_def run_defs MarkInvitationUsed_done split: if_splits)
  obtain z d4 where l: "ListRelays (sv_db s3) = (z, d4)" by fastforce
  have d4: "d4 = sv_db s3" using l f3 by (auto simp: ListRelays_def query_all_def)
  have run: "resp = writeJSON 201 (PRegistered \<lparr>resp_Device = wire_device d,
      resp_Relays = (case z of Inl _ \<Rightarrow> [] | Inr rs \<Rightarrow> rs), resp_Message = ''device registered''\<rparr>)" "sv' = s3\<lparr>sv_db := d4\<rparr>"
    using assms(7) c h h' m m' l
    by (simp_all add: register_commit_def finish_def then_act_def try_store_def return_act_def)
  have "pepper s3 = pepper s2" using m' by (metis pepper_def server.surjective server.update_convs(3) server.select_convs(1))
  moreover have "pepper s2 = pepper sv" using h' by (simp add: pepper_def)
  moreover have "db_devices (sv_db s3) = db_devices (sv_db s2)" using m' by (simp add: same_devices_def)
  ultimately show ?thesis using run d4 f3 db2 assms(1) by (simp add: pepper_def)
qed

lemma begin_demo:
  assumes "fs = [] \<or> \<not> hd fs" and "\<not> time_after (e_now env 1) (GoTime 9000000000)"
  shows "register_begin demo_lib env enrolling_request (inviting_server fs)
    = (Inr (demo_drr, demo_invitation), inviting_server (tl fs))"
  using demo_found [OF assms] by (simp add: register_begin_def then_act_def demo_checked return_act_def)

lemma demo_live_env: "\<not> time_after (e_now demo_env 1) (GoTime 9000000000)" "NewAPIKey (e_rand demo_env) = Some ''lb_AQID''"
  by (simp_all add: demo_env_def time_after_def demo_token [unfolded One_nat_def])

lemma demo_token_hash: "HashAPIKey (l_mac demo_lib) ''lb_AQID'' ''p'' = Inr ''plb_AQID''"
  by (simp add: HashAPIKey_def demo_token demo_lib_def)

lemma inviting_ok: "db_ok (sv_db (inviting_server fs))"
  using demo_db_ok
  by (simp add: db_ok_def inviting_server_def demo_db_def empty_db_def unique_on_def demo_invitation_def
      default_user_def default_group_def)

lemma demo_registered:
  obtains resp sv' where
    "finish (handleDeviceRegister demo_lib demo_env enrolling_request) (inviting_server []) = (resp, sv')"
    "rs_status resp = 201"
proof -
  obtain resp sv' where f: "finish (handleDeviceRegister demo_lib demo_env enrolling_request) (inviting_server []) = (resp, sv')"
    by fastforce
  then have c: "finish (register_commit demo_lib demo_env (demo_drr, demo_invitation)) (inviting_server []) = (resp, sv')"
    using begin_demo [of "[]" demo_env] demo_live_env(1)
    by (simp add: register_halves finish_def then_act_def)
  have "rs_status resp = 201"
    using commit_done [OF _ demo_live_env(2) _ _ _ refl c] demo_token_hash by simp
  with f that show ?thesis by blast
qed

theorem registration_adds_one_device_witness:
  "\<exists>resp sv' d. finish (handleDeviceRegister demo_lib demo_env enrolling_request) (inviting_server []) = (resp, sv')
     \<and> rs_status resp = 201 \<and> db_devices (sv_db sv') = [d\<lparr>d_DeviceToken := ''''\<rparr>]
     \<and> enrolled demo_lib demo_env (inviting_server []) demo_drr demo_invitation d"
proof -
  obtain resp sv' where f: "finish (handleDeviceRegister demo_lib demo_env enrolling_request) (inviting_server []) = (resp, sv')"
    and s: "rs_status resp = 201" by (rule demo_registered)
  from registration_adds_one_device [OF f] s obtain req invit d where
    dec: "decodeJSON jb_register enrolling_request = Some req" and o: "opens demo_lib (inviting_server []) (e_now demo_env 1) req invit"
    and e: "enrolled demo_lib demo_env (inviting_server []) req invit d"
    and rows: "db_devices (sv_db sv') = db_devices (sv_db (inviting_server [])) @ [d\<lparr>d_DeviceToken := ''''\<rparr>]"
    by blast
  have "req = demo_drr" using dec check_registration_InrD(2) [OF demo_checked] by simp
  moreover have "invit = demo_invitation" using o by (simp add: opens_def)
  ultimately show ?thesis using f s e rows by auto
qed

theorem one_time_key_used_once_witness:
  "\<exists>resp sv'. finish (handleDeviceRegister demo_lib demo_env enrolling_request) (inviting_server []) = (resp, sv')
     \<and> rs_status resp = 201
     \<and> rs_status (fst (finish (handleDeviceRegister demo_lib demo_env enrolling_request) sv')) \<noteq> 201"
proof -
  obtain resp sv' where f: "finish (handleDeviceRegister demo_lib demo_env enrolling_request) (inviting_server []) = (resp, sv')"
    and s: "rs_status resp = 201" by (rule demo_registered)
  obtain resp2 sv2 where g: "finish (handleDeviceRegister demo_lib demo_env enrolling_request) sv' = (resp2, sv2)"
    by fastforce
  have dec: "decodeJSON jb_register enrolling_request = Some demo_drr"
    using check_registration_InrD(2) [OF demo_checked] .
  have "rs_status resp2 \<noteq> 201"
    using one_time_key_used_once [OF inviting_ok demo_env_ok _ f s dec _ _ _ served.none dec _ g, of demo_invitation]
      demo_hash by (simp add: demo_invitation_def)
  with f s g show ?thesis by auto
qed

section \<open>How a one-time key is used twice\<close>

text \<open>
  C15: Two registrations that overlap can both use a one-time key: the invitation is checked
  before the device is stored and marked only after it, in separate statements, so when both
  requests have found the invitation unused, both are answered 201 and two devices are stored
  under its user.
\<close>

theorem overlapping_registrations_share_key:
  assumes "db_faults (sv_db sv) = []" and "\<not> i_Reusable i"
    and "register_begin lib env1 q1 sv = (Inr (req1, i), sv1)"
    and "register_begin lib env2 q2 sv1 = (Inr (req2, i), sv2)"
    and "NewAPIKey (e_rand env1) = Some t1" and "HashAPIKey (l_mac lib) t1 (pepper sv) = Inr h1"
    and "NewAPIKey (e_rand env2) = Some t2" and "HashAPIKey (l_mac lib) t2 (pepper sv) = Inr h2"
    and "e_uuid env1 0 \<notin> d_ID ` set (db_devices (sv_db sv))"
    and "e_uuid env2 0 \<notin> d_ID ` set (db_devices (sv_db sv))" and "e_uuid env1 0 \<noteq> e_uuid env2 0"
    and "virtualIPFromUUID (e_vip env1) \<notin> d_VirtualIP ` set (db_devices (sv_db sv))"
    and "virtualIPFromUUID (e_vip env2) \<notin> d_VirtualIP ` set (db_devices (sv_db sv))"
    and "e_vip env1 \<noteq> e_vip env2"
    and "finish (register_commit lib env1 (req1, i)) sv2 = (resp1, sv3)"
    and "finish (register_commit lib env2 (req2, i)) sv3 = (resp2, sv4)"
  shows "rs_status resp1 = 201 \<and> rs_status resp2 = 201
       \<and> (\<exists>d1 d2. db_devices (sv_db sv4) = db_devices (sv_db sv) @ [d1, d2]
            \<and> d_UserID d1 = i_UserID i \<and> d_UserID d2 = i_UserID i)"
proof -
  have begin_keeps: "sv_db sv' = sv_db s \<and> pepper sv' = pepper s"
    if f: "register_begin lib env q s = (Inr (req, j), sv')" and n: "db_faults (sv_db s) = []" for env q s req j sv'
  proof -
    obtain s1 where c: "check_registration q s = (Inr req, s1)" "find_invitation lib env req s1 = (Inr j, sv')"
      using f unfolding register_begin_def by (auto elim!: then_act_InrE dest!: return_act_InrD)
    have s1: "s1 = s" by (rule check_registration_InrD(1) [OF c(1)])
    obtain th where "GetInvitationByTokenHash th (sv_db s) = (Inr j, sv_db sv')"
      using c(2) unfolding find_invitation_def s1 by (auto elim!: then_act_InrE dest!: act_InrD)
    then have "sv_db sv' = sv_db s" by (rule no_fault_kept(1) [OF n])
    with found_opens(3) [OF c(2)] s1 show ?thesis by simp
  qed
  note k1 = begin_keeps [OF assms(3,1)]
  note k2 = begin_keeps [OF assms(4), unfolded k1 [THEN conjunct1], OF assms(1)]
  have eq2: "sv_db sv2 = sv_db sv" "pepper sv2 = pepper sv" using k1 k2 by simp_all
  let ?d1 = "new_device env1 req1 i (trim_space (drr_Endpoint req1)) t1 h1"
  let ?d2 = "new_device env2 req2 i (trim_space (drr_Endpoint req2)) t2 h2"
  have 1: "rs_status resp1 = 201 \<and> db_devices (sv_db sv3) = db_devices (sv_db sv) @ [?d1\<lparr>d_DeviceToken := ''''\<rparr>]
      \<and> db_faults (sv_db sv3) = [] \<and> pepper sv3 = pepper sv"
    using commit_done [OF _ assms(5) _ _ _ refl assms(15)] assms(1,6,9,12) by (simp add: eq2)
  have "virtualIPFromUUID (e_vip env1) \<noteq> virtualIPFromUUID (e_vip env2)"
    using virtualIP_inj assms(14) by blast
  then have 2: "rs_status resp2 = 201 \<and> db_devices (sv_db sv4) = db_devices (sv_db sv3) @ [?d2\<lparr>d_DeviceToken := ''''\<rparr>]"
    using commit_done [OF _ assms(7) _ _ _ refl assms(16)] assms(8,10,11,13) 1 by simp
  show ?thesis using 1 2 by simp
qed

theorem overlapping_registrations_share_key_witness:
  "\<exists>resp1 resp2 sv3 sv4.
     finish (register_commit demo_lib demo_env (demo_drr, demo_invitation)) (inviting_server []) = (resp1, sv3)
     \<and> finish (register_commit demo_lib (demo_env\<lparr>e_uuid := \<lambda>i. ''other'', e_vip := (5, 6)\<rparr>) (demo_drr, demo_invitation)) sv3 = (resp2, sv4)
     \<and> rs_status resp1 = 201 \<and> rs_status resp2 = 201 \<and> length (db_devices (sv_db sv4)) = 2"
proof -
  let ?e2 = "demo_env\<lparr>e_uuid := \<lambda>i. ''other'', e_vip := (5, 6)\<rparr>"
  obtain resp1 sv3 where c1: "finish (register_commit demo_lib demo_env (demo_drr, demo_invitation)) (inviting_server []) = (resp1, sv3)"
    by fastforce
  obtain resp2 sv4 where c2: "finish (register_commit demo_lib ?e2 (demo_drr, demo_invitation)) sv3 = (resp2, sv4)"
    by fastforce
  have b: "register_begin demo_lib demo_env enrolling_request (inviting_server []) = (Inr (demo_drr, demo_invitation), inviting_server [])"
    "register_begin demo_lib ?e2 enrolling_request (inviting_server []) = (Inr (demo_drr, demo_invitation), inviting_server [])"
    using begin_demo [of "[]" demo_env] begin_demo [of "[]" ?e2] demo_live_env by simp_all
  have r: "NewAPIKey (e_rand ?e2) = Some ''lb_AQID''" using demo_live_env by simp
  have "rs_status resp1 = 201 \<and> rs_status resp2 = 201
       \<and> (\<exists>d1 d2. db_devices (sv_db sv4) = db_devices (sv_db (inviting_server [])) @ [d1, d2]
            \<and> d_UserID d1 = i_UserID demo_invitation \<and> d_UserID d2 = i_UserID demo_invitation)"
    by (rule overlapping_registrations_share_key [OF _ _ b(1) b(2) demo_live_env(2) _ r _ _ _ _ _ _ _ c1 c2])
      (simp_all add: demo_token_hash demo_invitation_def, simp_all add: demo_env_def)
  with c1 c2 show ?thesis by auto
qed

text \<open>
  A registration whose last write, the marking of the one-time invitation, fails is still
  answered 201, and the invitation stays unused: at any time before its expiry the key opens
  it again for the next registration.
\<close>

theorem failed_mark_leaves_key_open:
  assumes "db_faults (sv_db sv) = [False, False, True]" and "sv_hub sv = None"
    and "finish (handleDeviceRegister lib env q) sv = (resp, sv')" and "rs_status resp = 201"
    and "decodeJSON jb_register q = Some req"
    and "opens lib sv now req i" and "\<not> i_Reusable i"
  shows "length (db_devices (sv_db sv')) = length (db_devices (sv_db sv)) + 1 \<and> opens lib sv' now req i"
proof -
  obtain x where h: "handleDeviceRegister lib env q sv = (x, sv')"
    and resp: "resp = (case x of Inl r \<Rightarrow> r | Inr r \<Rightarrow> r)"
    by (rule finish_cases [OF assms(3)])
  from h show ?thesis
  proof (cases rule: register_outcome)
    case (rejected r)
    with assms(4) show ?thesis by (simp add: resp)
  next
    case (accepted req0 invit sv2 d sv3 sv4 sv5 relays)
    obtain th where g: "GetInvitationByTokenHash th (sv_db sv) = (Inr invit, sv_db sv2)"
      and r2: "sv2 = sv\<lparr>sv_db := sv_db sv2\<rparr>"
      using accepted(2) unfolding find_invitation_def by (auto elim!: then_act_InrE dest!: act_InrD)
    have db2: "sv_db sv2 = (sv_db sv)\<lparr>db_faults := [False, True]\<rparr>"
      using g assms(1) by (simp add: GetInvitationByTokenHash_def query_row_def exec_stmt_def)
    obtain token dth u where "CreateDevice d (sv_db sv2) = (Inr u, sv_db sv3)" and r3: "sv3 = sv2\<lparr>sv_db := sv_db sv3\<rparr>"
      by (rule create_device_InrD [OF accepted(3)]) blast
    then have db3: "sv_db sv3 = (sv_db sv)\<lparr>db_faults := [True], db_devices := db_devices (sv_db sv) @ [d\<lparr>d_DeviceToken := ''''\<rparr>]\<rparr>"
      by (auto simp: db2 CreateDevice_def insert_into_def exec_stmt_def tbl_insert_def split: if_splits)
    have cfg2: "sv_hub sv2 = sv_hub sv" "pepper sv2 = pepper sv"
      using arg_cong [OF r2, of sv_hub] arg_cong [OF r2, of sv_cfg] by (simp_all add: pepper_def)
    have cfg3: "sv_hub sv3 = sv_hub sv" "pepper sv3 = pepper sv"
      using arg_cong [OF r3, of sv_hub] arg_cong [OF r3, of sv_cfg] cfg2 by (simp_all add: pepper_def)
    have sv4: "sv4 = sv3" using accepted(4) cfg3 assms(2) by (simp add: SyncHub_def)
    have d3: "db_invitations (sv_db sv3) = db_invitations (sv_db sv)" "db_faults (sv_db sv3) = [True]"
      by (simp_all add: db3)
    have m: "db_invitations (sv_db sv5) = db_invitations (sv_db sv)" "pepper sv5 = pepper sv"
      "db_devices (sv_db sv5) = db_devices (sv_db sv3)"
      using accepted(5) cfg3 d3 unfolding sv4
      by (auto simp: mark_used_def run_defs MarkInvitationUsed_def exec_quiet_def exec_stmt_def pepper_def
          split: if_splits)
    obtain d6 where "sv' = sv5\<lparr>sv_db := d6\<rparr>"
      using h accepted(1-5)
      by (auto simp: handleDeviceRegister_def then_act_def try_store_def return_act_def split: prod.splits)
    then have "pepper sv' = pepper sv" using m(2) by (simp add: pepper_def)
    moreover have "db_invitations (sv_db sv') = db_invitations (sv_db sv)"
      using same_tablesD(4) [OF accepted(6)] m(1) by simp
    moreover have "length (db_devices (sv_db sv')) = length (db_devices (sv_db sv)) + 1"
      using same_tablesD(6) [OF accepted(6)] m(3) by (simp add: db3)
    ultimately show ?thesis using assms(6) by (simp add: opens_def)
  qed
qed

theorem failed_mark_leaves_key_open_witness:
  "opens demo_lib (snd (finish (handleDeviceRegister demo_lib demo_env enrolling_request) (inviting_server [False, False, True])))
     (GoTime 2000000000) demo_drr demo_invitation"
proof -
  let ?sv = "inviting_server [False, False, True]"
  let ?d = "new_device demo_env demo_drr demo_invitation '''' ''lb_AQID'' ''plb_AQID''"
  obtain resp sv' where f: "finish (handleDeviceRegister demo_lib demo_env enrolling_request) ?sv = (resp, sv')"
    by fastforce
  have "create_device demo_lib demo_env demo_drr demo_invitation (inviting_server [False, True])
      = (Inr ?d, (inviting_server [True])\<lparr>sv_db := (sv_db (inviting_server [True]))\<lparr>db_devices := [?d\<lparr>d_DeviceToken := ''''\<rparr>]\<rparr>\<rparr>)"
    using demo_live_env(2) demo_token_hash
    by (simp add: create_device_def run_defs Let_def CreateDevice_def insert_into_def exec_stmt_def tbl_insert_def
        inviting_server_def demo_db_def empty_db_def pepper_def demo_server_def)
  moreover obtain y s5 where "mark_used demo_env demo_invitation
      ((inviting_server [True])\<lparr>sv_db := (sv_db (inviting_server [True]))\<lparr>db_devices := [?d\<lparr>d_DeviceToken := ''''\<rparr>]\<rparr>\<rparr>) = (y, s5)"
    by fastforce
  moreover from this have "y = Inr ()" by (blast dest: mark_used_run)
  ultimately have s: "rs_status resp = 201"
    using f demo_found [of "[False, False, True]" demo_env] demo_live_env(1)
    by (auto simp: handleDeviceRegister_def finish_def then_act_def demo_checked try_store_def return_act_def
        SyncHub_def split: prod.splits sum.splits)
  have dec: "decodeJSON jb_register enrolling_request = Some demo_drr"
    using check_registration_InrD(2) [OF demo_checked] .
  have "opens demo_lib ?sv (GoTime 2000000000) demo_drr demo_invitation"
    using demo_hash by (simp add: opens_def demo_invitation_def time_after_def)
  with failed_mark_leaves_key_open [OF _ _ f s dec] show ?thesis
    by (simp add: f demo_invitation_def)
qed

end
