(* ===== verification/Device_Access.thy ===== *)
theory Device_Access
  imports Enrollment
begin

text \<open>
  What an enrolled device can do and see: authentication by id and token, the peers in its
  network configuration, and the relay sessions it can open, all measured against the stored
  policies (\<open>may_reach\<close>).
\<close>

section \<open>Authentication\<close>

text \<open>The credentials of a device: its row's id and the digest of the token.\<close>

definition credentials_of :: "lib \<Rightarrow> server \<Rightarrow> string \<Rightarrow> string \<Rightarrow> device \<Rightarrow> bool" where
  "credentials_of lib sv did token d \<longleftrightarrow>
     d \<in> set (db_devices (sv_db sv)) \<and> d_ID d = did
     \<and> HashAPIKey (l_mac lib) token (pepper sv) = Inr (d_TokenHash d)"

lemma authenticate_InrD:
  assumes "authenticateDeviceCredentials lib q did sv = (Inr d, sv')"
  shows "credentials_of lib sv did (q_deviceToken q) d" "reads_only sv sv'" "did \<noteq> ''''"
proof -
  obtain th where h: "HashAPIKey (l_mac lib) (q_deviceToken q) (pepper sv) = Inr th"
    and g: "GetDeviceByIDAndTokenHash did th (sv_db sv) = (Inr d, sv_db sv')"
    and r: "sv' = sv\<lparr>sv_db := sv_db sv'\<rparr>" "did \<noteq> ''''"
    using assms unfolding authenticateDeviceCredentials_def
    by (auto elim!: then_act_InrE dest!: act_InrD)
  show "credentials_of lib sv did (q_deviceToken q) d"
    using GetDeviceByIDAndTokenHash_found [OF g] h by (simp add: credentials_of_def)
  show "reads_only sv sv'" using method_reads(9) [OF g] r by (simp add: reads_only_def)
  show "did \<noteq> ''''" by (rule r(2))
qed

lemma authenticateDevice_same: "authenticateDevice = authenticateDeviceCredentials"
  by (simp add: fun_eq_iff authenticateDevice_def authenticateDeviceCredentials_def)

lemma authenticate_InlD:
  assumes "authenticateDeviceCredentials lib q did sv = (Inl r, sv')"
  shows "reads_only sv sv'" "rs_status r = 401 \<or> rs_status r = 500"
proof -
  have "keeps_at reads_only (authenticateDeviceCredentials lib q did) sv"
    unfolding authenticateDeviceCredentials_def by (intro reads_rules reads_call) (erule method_reads)
  then show "reads_only sv sv'" using assms by (rule keeps_atD)
  show "rs_status r = 401 \<or> rs_status r = 500"
    using assms
    by (auto simp: authenticateDeviceCredentials_def run_defs credential_error_def hash_act_run
        split: if_splits sum.splits prod.splits)
qed

text \<open>The endpoints a device reaches with its own credentials, and the id each of them checks.\<close>

definition device_endpoints :: "endpoint list" where
  "device_endpoints = [DeviceHealth, DeviceNetworkConfig, RelaySessionCreate, RelayPending,
     RelayClientStream, RelayAgentStream]"

definition claimed_device :: "request \<Rightarrow> endpoint \<Rightarrow> string \<Rightarrow> string" where
  "claimed_device q ep pid =
     (case ep of
        RelaySessionCreate \<Rightarrow> (case decodeJSON jb_session q of
            None \<Rightarrow> '''' | Some req \<Rightarrow> trim_space (tsr_SourceDeviceID req))
      | RelayPending \<Rightarrow> device_of_request q (q_deviceIDQuery q)
      | RelayClientStream \<Rightarrow> device_of_request q (q_sourceQuery q)
      | RelayAgentStream \<Rightarrow> device_of_request q (q_deviceIDQuery q)
      | _ \<Rightarrow> pid)"

lemma UpdateDeviceHealth_missing:
  assumes "UpdateDeviceHealth now did th report s = (Inr d, s')"
  shows "\<exists>d \<in> set (db_devices s). d_ID d = did \<and> d_TokenHash d = th"
proof -
  obtain s1 where "exec_rows (\<lambda>s. tbl_count (\<lambda>d. d_ID d = did \<and> d_TokenHash d = th) (db_devices s))
      (\<lambda>s. s\<lparr>db_devices := tbl_update (\<lambda>d. d_ID d = did \<and> d_TokenHash d = th) (health_row now report) (db_devices s)\<rparr>) s = (Inr (), s1)"
    using assms by (auto simp: UpdateDeviceHealth_def Let_def then_stmt_def split: prod.splits sum.splits)
  then show ?thesis by (auto dest!: exec_rows_cases tbl_count_pos)
qed

lemma UpdateDeviceHealth_absent:
  assumes "UpdateDeviceHealth now did th report s = (x, s')"
    and "\<not> (\<exists>d \<in> set (db_devices s). d_ID d = did \<and> d_TokenHash d = th)"
  shows "\<exists>e. x = Inl e \<and> same_tables s s'"
proof -
  let ?sel = "\<lambda>d. d_ID d = did \<and> d_TokenHash d = th"
  obtain y s1 where e: "exec_rows (\<lambda>s. tbl_count ?sel (db_devices s))
      (\<lambda>s. s\<lparr>db_devices := tbl_update ?sel (health_row now report) (db_devices s)\<rparr>) s = (y, s1)" by fastforce
  have z: "tbl_count ?sel (db_devices s) = 0"
    using assms(2) tbl_count_pos [of ?sel "db_devices s"] by blast
  have n: "tbl_update ?sel (health_row now report) (db_devices s) = db_devices s"
    using assms(2) by (auto simp: tbl_update_def intro!: map_idI)
  have "(\<exists>e. y = Inl e) \<and> same_tables s s1"
    using e unfolding exec_rows_def
  proof (cases rule: exec_stmt_cases)
    case (2 s0)
    have d: "db_devices s = db_devices s0" using same_tablesD(6) [OF 2(1)] by simp
    have "y = Inl ErrNoRows" "s1 = s0" using 2(2) z n unfolding d by auto
    with 2(1) show ?thesis by simp
  qed auto
  with assms(1) e show ?thesis
    by (auto simp: UpdateDeviceHealth_def Let_def then_stmt_def)
qed

lemma reads_device_health:
  assumes "\<not> (\<exists>d. credentials_of lib sv pid (q_deviceToken q) d)"
    and "finish (handleDeviceHealth lib env q pid) sv = (resp, sv')"
  shows "reads_only sv sv' \<and> rs_status resp \<in> {400, 401, 500}"
proof -
  obtain x where h: "handleDeviceHealth lib env q pid sv = (x, sv')" and resp: "resp = (case x of Inl r \<Rightarrow> r | Inr r \<Rightarrow> r)"
    by (rule finish_cases [OF assms(2)])
  show ?thesis
  proof (cases "HashAPIKey (l_mac lib) (q_deviceToken q) (pepper sv)")
    case (Inl e)
    with h resp show ?thesis
      by (auto simp: handleDeviceHealth_def run_defs reads_only_def split: if_splits)
  next
    case (Inr th)
    have absent: "\<not> (\<exists>d \<in> set (db_devices (sv_db sv)). d_ID d = pid \<and> d_TokenHash d = th)"
      using assms(1) Inr by (auto simp: credentials_of_def)
    have upd: "\<exists>e. y = Inl e \<and> same_tables (sv_db sv) d"
      if "UpdateDeviceHealth now pid th rep (sv_db sv) = (y, d)" for now rep y d
      by (rule UpdateDeviceHealth_absent [OF that absent])
    show ?thesis
      using h resp Inr
      by (auto simp: handleDeviceHealth_def run_defs reads_only_def Let_def split: if_splits option.splits prod.splits
          sum.splits dest: upd)
  qed
qed

lemma reject_status: "decode_or get q m sv = (Inl r, sv') \<Longrightarrow> sv' = sv \<and> rs_status r = 400"
  by (auto simp: decode_or_def respond_def return_act_def split: option.splits)

text \<open>A session is opened only after its source was authenticated.\<close>

lemma session_create_outcome:
  assumes "handleTCPRelaySessionCreate lib env q sv = (x, sv')"
  obtains (refused) r where "x = Inl r" "rs_status r \<in> {400, 401, 500}" "reads_only sv sv'"
    | (passed) req source sv1 where "decodeJSON jb_session q = Some req"
        "authenticateDeviceCredentials lib q (trim_space (tsr_SourceDeviceID req)) sv = (Inr source, sv1)"
        "open_session lib env req source sv1 = (x, sv')"
proof (cases "decodeJSON jb_session q")
  case None
  then show thesis
    using assms refused by (auto simp: handleTCPRelaySessionCreate_def then_act_def decode_or_def respond_def reads.refl)
next
  case (Some req)
  obtain y sv1 where a: "authenticateDeviceCredentials lib q (trim_space (tsr_SourceDeviceID req)) sv = (y, sv1)" by fastforce
  note run = assms [unfolded handleTCPRelaySessionCreate_def then_act_def decode_or_def Some option.case return_act_def]
  show thesis
  proof (cases y)
    case (Inl r)
    then have "x = Inl r" "sv' = sv1" using run a by simp_all
    then show thesis using refused authenticate_InlD [OF a [unfolded Inl]] by auto
  next
    case (Inr source)
    then show thesis using passed [OF Some] run a by simp
  qed
qed

text \<open>A handler that authenticates first ends there when the credentials are those of no device.\<close>

lemma authentication_refused:
  assumes "then_act (authenticateDeviceCredentials lib q did) k sv = (x, sv')"
    and "\<not> (\<exists>d. credentials_of lib sv did (q_deviceToken q) d)"
  shows "\<exists>r. x = Inl r \<and> rs_status r \<in> {401, 500} \<and> reads_only sv sv'"
proof -
  obtain y sv1 where a: "authenticateDeviceCredentials lib q did sv = (y, sv1)" by fastforce
  then obtain r where y: "y = Inl r" using assms(2) authenticate_InrD(1) by (cases y) blast+
  then have "x = Inl r" "sv' = sv1" using assms(1) a by (simp_all add: then_act_def)
  then show ?thesis using authenticate_InlD [OF a [unfolded y]] by auto
qed

lemma device_handlers_refuse:
  assumes run: "handler_of lib env q ep pid sv = (x, sv')" and mem: "ep \<in> set device_endpoints" and other: "ep \<noteq> DeviceHealth"
    and no: "\<not> (\<exists>d. credentials_of lib sv (claimed_device q ep pid) (q_deviceToken q) d)"
  shows "\<exists>r. x = Inl r \<and> rs_status r \<in> {400, 401, 500} \<and> reads_only sv sv'"
proof (cases "ep = RelaySessionCreate")
  case True
  then have "handleTCPRelaySessionCreate lib env q sv = (x, sv')" using run by (simp add: handler_of_def)
  then show ?thesis
  proof (cases rule: session_create_outcome)
    case (passed req source sv1)
    then show ?thesis using no True authenticate_InrD(1) [OF passed(2)] by (auto simp: claimed_device_def)
  qed (auto simp: True)
next
  case False
  obtain k where "then_act (authenticateDeviceCredentials lib q (claimed_device q ep pid)) k sv = (x, sv')"
    using run mem other False
    by (auto simp: device_endpoints_def handler_of_def handleDeviceNetworkConfig_def handleTCPRelayPending_def
        handleTCPRelayClientStream_def handleTCPRelayAgentStream_def relay_stream_def claimed_device_def
        authenticateDevice_same Let_def)
  from authentication_refused [OF this no] show ?thesis by auto
qed

text \<open>
  C3: A device endpoint does nothing for a caller that does not hold the token of the device it
  speaks for: unless some stored device has the claimed id and the digest of the presented
  token, the request is answered with an error (400, 401 or 500) and no table, session,
  connection or command changes. So a deleted device is locked out at once.
\<close>

theorem device_requests_need_token:
  assumes "find_route q = Some (r, pid)" and "rt_endpoint r \<in> set device_endpoints"
    and "\<not> (\<exists>d. credentials_of lib sv (claimed_device q (rt_endpoint r) pid) (q_deviceToken q) d)"
    and "serve lib env q sv = (resp, sv')"
  shows "rs_status resp \<in> {400, 401, 500} \<and> same_tables (sv_db sv) (sv_db sv') \<and> sv' = sv\<lparr>sv_db := sv_db sv'\<rparr>"
proof -
  let ?ep = "rt_endpoint r"
  have open_guard: "rt_guard r = Open"
    using route_guards [OF find_route_SomeD(1) [OF assms(1)]] assms(2)
    by (auto simp: device_endpoints_def public_endpoints_def)
  obtain resp0 where f: "finish (handler_of lib env q ?ep pid) sv = (resp0, sv')" and st: "rs_status resp = rs_status resp0"
    using assms(1,4) open_guard by (auto simp: serve_def mux_def guarded_def split: prod.splits)
  have "reads_only sv sv' \<and> rs_status resp0 \<in> {400, 401, 500}"
  proof (cases "?ep = DeviceHealth")
    case True
    then show ?thesis using reads_device_health f assms(3) by (simp add: handler_of_def claimed_device_def)
  next
    case False
    obtain x where h: "handler_of lib env q ?ep pid sv = (x, sv')" and "resp0 = (case x of Inl r \<Rightarrow> r | Inr r \<Rightarrow> r)"
      by (rule finish_cases [OF f])
    with device_handlers_refuse [OF h assms(2) False assms(3)] show ?thesis by auto
  qed
  then show ?thesis by (simp add: st reads_only_def)
qed

theorem device_requests_need_token_witness:
  "rs_status (fst (serve demo_lib demo_env
     (demo_request ''GET'' [''api'', ''v1'', ''devices'', ''d'', ''network-config'']) demo_server)) \<in> {400, 401, 500}"
proof -
  let ?q = "demo_request ''GET'' [''api'', ''v1'', ''devices'', ''d'', ''network-config'']"
  let ?r = "mk_route ''GET'' (api [Lit ''devices'', Wild, Lit ''network-config'']) Open DeviceNetworkConfig"
  obtain resp sv' where s: "serve demo_lib demo_env ?q demo_server = (resp, sv')" by fastforce
  have route: "find_route ?q = Some (?r, ''d'')"
    by (simp add: find_route_def routes_def demo_request_def mk_route_def method_matches_def)
  have "rs_status resp \<in> {400, 401, 500} \<and> same_tables (sv_db demo_server) (sv_db sv') \<and> sv' = demo_server\<lparr>sv_db := sv_db sv'\<rparr>"
    by (rule device_requests_need_token [OF route _ _ s])
      (simp_all add: mk_route_def device_endpoints_def credentials_of_def demo_server_def demo_db_def empty_db_def)
  then show ?thesis by (simp add: s)
qed

section \<open>Network configuration\<close>

lemma network_config_found:
  assumes "finish (handleDeviceNetworkConfig lib q pid) sv = (resp, sv')"
    and "rs_body resp = PConfig nc"
  obtains d devices policies relays where "credentials_of lib sv pid (q_deviceToken q) d"
    "set devices = set (db_devices (sv_db sv))" "set policies = set (db_policies (sv_db sv))"
    "set relays = set (db_relays (sv_db sv))"
    "nc = \<lparr>nc_Device = wire_device d, nc_Peers = allowedPeers d devices policies
        @ (if sv_hub sv \<noteq> None then [NetworkPeer (sv_hub sv)] else []), nc_Policies = policies, nc_Relays = relays\<rparr>"
proof -
  obtain x where h: "handleDeviceNetworkConfig lib q pid sv = (x, sv')"
    and resp: "resp = (case x of Inl r \<Rightarrow> r | Inr r \<Rightarrow> r)"
    by (rule finish_cases [OF assms(1)])
  have noinl: "x \<noteq> Inl r" for r
  proof
    assume "x = Inl r"
    with h have "\<exists>n m. r = writeError n m"
      by (auto simp: handleDeviceNetworkConfig_def authenticateDevice_def run_defs hash_act_run credential_error_def
          Let_def split: if_splits sum.splits prod.splits)
    with assms(2) resp \<open>x = Inl r\<close> show False by auto
  qed
  then obtain r where x: "x = Inr r" by (cases x) auto
  obtain d sv1 devices policies relays sv2 sv3 where
    a: "authenticateDeviceCredentials lib q pid sv = (Inr d, sv1)" and
    l: "ListDevices (sv_db sv1) = (Inr devices, sv_db sv2)" "ListPolicies (sv_db sv2) = (Inr policies, sv_db sv3)"
      "ListRelays (sv_db sv3) = (Inr relays, sv_db sv')" and
    hubs: "sv2 = sv1\<lparr>sv_db := sv_db sv2\<rparr>" "sv3 = sv2\<lparr>sv_db := sv_db sv3\<rparr>" "sv' = sv3\<lparr>sv_db := sv_db sv'\<rparr>" and
    r: "r = (let peers = allowedPeers d devices policies;
           peers' = (if sv_hub sv' \<noteq> None then peers @ [NetworkPeer (sv_hub sv')] else peers)
       in writeJSON 200 (PConfig \<lparr>nc_Device = wire_device d, nc_Peers = peers',
            nc_Policies = policies, nc_Relays = relays\<rparr>))"
    using h unfolding x handleDeviceNetworkConfig_def authenticateDevice_same
    by (elim then_act_InrE) (auto dest!: act_InrD simp: get_act_def)
  have t1: "same_tables (sv_db sv) (sv_db sv1)" and sv1: "sv1 = sv\<lparr>sv_db := sv_db sv1\<rparr>"
    using authenticate_InrD(2) [OF a] by (simp_all add: reads_only_def)
  note t2 = method_reads(10) [OF l(1)] and t3 = method_reads(11) [OF l(2)] and t4 = method_reads(7) [OF l(3)]
  have hub: "sv_hub sv' = sv_hub sv"
    using arg_cong [OF sv1, of sv_hub] arg_cong [OF hubs(1), of sv_hub] arg_cong [OF hubs(2), of sv_hub]
      arg_cong [OF hubs(3), of sv_hub] by simp
  have sets: "set devices = set (db_devices (sv_db sv))" "set policies = set (db_policies (sv_db sv))"
    "set relays = set (db_relays (sv_db sv))"
    using ListDevices_result [OF l(1)] ListPolicies_result [OF l(2)] ListRelays_result [OF l(3)]
      same_tablesD [OF t1] same_tablesD [OF t2] same_tablesD [OF t3] by simp_all
  have nc: "nc = \<lparr>nc_Device = wire_device d, nc_Peers = allowedPeers d devices policies
      @ (if sv_hub sv \<noteq> None then [NetworkPeer (sv_hub sv)] else []), nc_Policies = policies, nc_Relays = relays\<rparr>"
    using assms(2) by (simp add: resp x r Let_def hub split: if_splits)
  show thesis by (rule that [OF authenticate_InrD(1) [OF a] sets nc])
qed

lemma network_config_result:
  assumes "finish (handleDeviceNetworkConfig lib q pid) sv = (resp, sv')"
    and "rs_body resp = PConfig nc"
  shows "\<exists>d. credentials_of lib sv pid (q_deviceToken q) d
       \<and> nc_Device nc = wire_device d
       \<and> set (nc_Peers nc) = peer_of ` {c \<in> set (db_devices (sv_db sv)). may_reach (db_policies (sv_db sv)) d c}
            \<union> (if sv_hub sv = None then {} else {NetworkPeer (sv_hub sv)})
       \<and> d_ID d \<notin> d_ID ` {c \<in> set (db_devices (sv_db sv)). may_reach (db_policies (sv_db sv)) d c}
       \<and> set (nc_Policies nc) = set (db_policies (sv_db sv)) \<and> set (nc_Relays nc) = set (db_relays (sv_db sv))"
proof -
  obtain d devices policies relays where c: "credentials_of lib sv pid (q_deviceToken q) d"
    and sets: "set devices = set (db_devices (sv_db sv))" "set policies = set (db_policies (sv_db sv))"
      "set relays = set (db_relays (sv_db sv))"
    and nc: "nc = \<lparr>nc_Device = wire_device d, nc_Peers = allowedPeers d devices policies
        @ (if sv_hub sv \<noteq> None then [NetworkPeer (sv_hub sv)] else []), nc_Policies = policies, nc_Relays = relays\<rparr>"
    by (rule network_config_found [OF assms])
  have reach: "may_reach policies = may_reach (db_policies (sv_db sv))"
    by (intro ext) (simp add: may_reach_def sets)
  have "set (allowedPeers d devices policies) = peer_of ` {c \<in> set (db_devices (sv_db sv)). may_reach (db_policies (sv_db sv)) d c}"
    by (auto simp: allowedPeers_eq sets reach)
  moreover have "d_ID d \<notin> d_ID ` {c \<in> set (db_devices (sv_db sv)). may_reach (db_policies (sv_db sv)) d c}"
    by (auto simp: may_reach_def)
  ultimately show ?thesis using c by (intro exI [of _ d]) (auto simp: nc sets)
qed

text \<open>
  C9: A network configuration is answered only to the device it belongs to, and lists exactly
  the peers the stored policies let that device reach, never the device itself, plus the hub
  when there is one; the device in it carries no token digest.
\<close>

theorem network_config_is_policy:
  assumes "finish (handleDeviceNetworkConfig lib q pid) sv = (resp, sv')"
    and "rs_body resp = PConfig nc"
  shows "\<exists>d. credentials_of lib sv pid (q_deviceToken q) d
       \<and> nc_Device nc = wire_device d
       \<and> set (nc_Peers nc) = peer_of ` {c \<in> set (db_devices (sv_db sv)). may_reach (db_policies (sv_db sv)) d c}
            \<union> (if sv_hub sv = None then {} else {NetworkPeer (sv_hub sv)})
       \<and> d_ID d \<notin> d_ID ` {c \<in> set (db_devices (sv_db sv)). may_reach (db_policies (sv_db sv)) d c}
       \<and> set (nc_Policies nc) = set (db_policies (sv_db sv)) \<and> set (nc_Relays nc) = set (db_relays (sv_db sv))"
  by (rule network_config_result [OF assms])

text \<open>A server with two devices whose token is \<open>k\<close>, and a policy between them.\<close>

definition demo_device :: "string \<Rightarrow> device" where
  "demo_device x = empty_device\<lparr>d_ID := x, d_Name := x, d_TokenHash := ''pk'', d_VirtualIP := ''ip-'' @ x,
     d_UserID := ''default-user'', d_GroupID := ''default''\<rparr>"

definition demo_policy :: network_policy where
  "demo_policy = \<lparr>p_ID = ''p'', p_Name = ''p'', p_SourceID = ''a'', p_TargetID = ''b'', p_Ports = Some [''22''],
     p_Protocol = ''udp'', p_Enabled = True, p_Description = '''', p_CreatedAt = zero_time, p_UpdatedAt = zero_time\<rparr>"

definition device_server :: "device list \<Rightarrow> server" where
  "device_server ds = demo_server\<lparr>sv_db := demo_db\<lparr>db_devices := ds, db_policies := [demo_policy]\<rparr>\<rparr>"

lemma device_server_simps [simp]:
  "pepper (device_server ds) = ''p''" "db_faults (sv_db (device_server ds)) = []"
  "db_devices (sv_db (device_server ds)) = ds" "db_policies (sv_db (device_server ds)) = [demo_policy]"
  "db_relays (sv_db (device_server ds)) = []" "sv_hub (device_server ds) = None"
  "(device_server ds)\<lparr>sv_db := sv_db (device_server ds)\<rparr> = device_server ds"
  "sv_broker (device_server ds) = NewTCPRelayBroker"
  by (simp_all add: device_server_def pepper_def demo_server_def demo_db_def empty_db_def)

lemma demo_device_simps [simp]: "d_ID (demo_device x) = x" "d_Name (demo_device x) = x"
  "d_TokenHash (demo_device x) = ''pk''" "d_VirtualIP (demo_device x) = ''ip-'' @ x"
  "d_CreatedAt (demo_device x) = zero_time" "d_GroupID (demo_device x) = ''default''"
  "d_UserID (demo_device x) = ''default-user''" "d_DeviceToken (demo_device x) = ''''"
  by (simp_all add: demo_device_def empty_device_def)

lemma demo_authenticated:
  assumes "q_deviceToken q = ''k''" and "x \<noteq> ''''" and "find (\<lambda>d. d_ID d = x \<and> d_TokenHash d = ''pk'') ds = Some d"
  shows "authenticateDeviceCredentials demo_lib q x (device_server ds) = (Inr d, device_server ds)"
  using assms
  by (simp add: authenticateDeviceCredentials_def run_defs demo_hash GetDeviceByIDAndTokenHash_def query_row_def)

lemma order_one: "order_desc key [x] = [x]"
  by (simp add: order_desc_def)

lemma demo_lists:
  "ListDevices (sv_db (device_server [d])) = (Inr [d], sv_db (device_server [d]))"
  "ListPolicies (sv_db (device_server ds)) = (Inr [demo_policy], sv_db (device_server ds))"
  "ListRelays (sv_db (device_server ds)) = (Inr [], sv_db (device_server ds))"
  by (simp_all add: ListDevices_def ListPolicies_def ListRelays_def query_all_def order_one)

theorem network_config_is_policy_witness:
  "\<exists>nc. rs_body (fst (finish (handleDeviceNetworkConfig demo_lib
       ((demo_request ''GET'' [])\<lparr>q_deviceToken := ''k''\<rparr>) ''a'') (device_server [demo_device ''a'']))) = PConfig nc
     \<and> nc_Peers nc = []"
proof -
  let ?q = "(demo_request ''GET'' [])\<lparr>q_deviceToken := ''k''\<rparr>" and ?sv = "device_server [demo_device ''a'']"
  obtain resp sv' where f: "finish (handleDeviceNetworkConfig demo_lib ?q ''a'') ?sv = (resp, sv')" by fastforce
  have "authenticateDeviceCredentials demo_lib ?q ''a'' ?sv = (Inr (demo_device ''a''), ?sv)"
    by (rule demo_authenticated) simp_all
  then have "\<exists>nc. rs_body resp = PConfig nc"
    using f by (auto simp: handleDeviceNetworkConfig_def authenticateDevice_same run_defs demo_lists Let_def)
  then obtain nc where nc: "rs_body resp = PConfig nc" by blast
  from network_config_is_policy [OF f nc] have "set (nc_Peers nc) = {}"
    by (auto simp: credentials_of_def may_reach_def)
  then show ?thesis by (auto simp: f nc)
qed

section \<open>Relay sessions\<close>

lemma reads_broker: "reads_only sv t \<Longrightarrow> sv_broker t = sv_broker sv"
proof -
  assume "reads_only sv t"
  then have "t = sv\<lparr>sv_db := sv_db t\<rparr>" by (simp add: reads_only_def)
  from arg_cong [OF this, of sv_broker] show ?thesis by simp
qed

lemma resolve_run:
  assumes "resolveRelayTarget lib source t sv = (x, sv')"
  obtains (refused) e where "x = Inr (Inl e)" "reads_only sv sv'"
    | (found) devices policies target allowed where "x = Inr (Inr (target, allowed))" "reads_only sv sv'" "t \<noteq> ''''"
      "set devices = set (db_devices (sv_db sv))" "set policies = set (db_policies (sv_db sv))"
      "devices = order_desc (\<lambda>d. formatTime (d_CreatedAt d)) (db_devices (sv_db sv))"
      "find (names_target lib t) devices = Some target" "allowed \<longleftrightarrow> target \<in> set devices
          \<and> (\<exists>c \<in> set devices. d_ID c = d_ID target \<and> may_reach policies source c)" "d_ID target \<noteq> ''''"
proof (cases "t = ''''")
  case True
  with assms have "x = Inr (Inl TargetRequired)" "sv' = sv"
    by (auto simp: resolveRelayTarget_def return_act_def)
  with refused show ?thesis by (simp add: reads.refl)
next
  case False
  obtain z1 d1 where l1: "ListDevices (sv_db sv) = (z1, d1)" by fastforce
  obtain z2 d2 where l2: "ListPolicies d1 = (z2, d2)" by fastforce
  note s1 = method_reads(10) [OF l1] and s2 = method_reads(11) [OF l2]
  note s12 = same_tables_trans [OF s1 s2]
  show ?thesis
  proof (cases "\<exists>ds ps. z1 = Inr ds \<and> z2 = Inr ps")
    case False
    then have "(\<exists>e. x = Inr (Inl e)) \<and> (sv' = sv\<lparr>sv_db := d1\<rparr> \<or> sv' = sv\<lparr>sv_db := d2\<rparr>)"
      using assms l1 l2 \<open>t \<noteq> ''''\<close>
      by (cases z1; cases z2) (auto simp: resolveRelayTarget_def run_defs)
    then show ?thesis using refused s1 s12 by (auto simp: reads_only_def)
  next
    case True
    then obtain ds ps where z: "z1 = Inr ds" "z2 = Inr ps" by blast
    have run: "x = Inr (resolve_in lib source t ds ps)" "sv' = sv\<lparr>sv_db := d2\<rparr>"
      using assms l1 l2 z \<open>t \<noteq> ''''\<close> by (simp_all add: resolveRelayTarget_def run_defs)
    have ro: "reads_only sv sv'" using run(2) s12 by (simp add: reads_only_def)
    have ds: "ds = order_desc (\<lambda>d. formatTime (d_CreatedAt d)) (db_devices (sv_db sv))"
      using ListDevices_result l1 z(1) by blast
    have ps: "set ps = set (db_policies (sv_db sv))"
      using ListPolicies_result l2 z(2) same_tablesD(7) [OF s1] by fastforce
    show ?thesis
    proof (cases "find (names_target lib t) ds")
      case None
      then have "resolve_in lib source t ds ps = Inl TargetNotFound"
        by (simp add: resolve_in_def Let_def empty_device_def)
      with run ro refused show ?thesis by simp
    next
      case (Some target)
      then have mem: "target \<in> set ds" by (auto dest: find_SomeD)
      show ?thesis
      proof (cases "d_ID target = ''''")
        case True
        then have "resolve_in lib source t ds ps = Inl TargetNotFound"
          using Some by (simp add: resolve_in_def Let_def)
        with run ro refused show ?thesis by simp
      next
        case False
        have "list_ex (\<lambda>peer. np_ID peer = d_ID target) (allowedPeers source ds ps)
            \<longleftrightarrow> (\<exists>c \<in> set ds. d_ID c = d_ID target \<and> may_reach ps source c)"
          by (auto simp: list_ex_iff allowedPeers_eq)
        then show ?thesis
          using found [of target _ ds ps] run ro Some False \<open>t \<noteq> ''''\<close> ds ps mem
          by (simp add: resolve_in_def Let_def)
      qed
    qed
  qed
qed

lemma resolve_permits:
  assumes "resolveRelayTarget lib source t sv = (Inr (Inr (target, True)), sv')" and "unique_on d_ID (db_devices (sv_db sv))"
  shows "reads_only sv sv' \<and> target \<in> set (db_devices (sv_db sv)) \<and> names_target lib t target
       \<and> may_reach (db_policies (sv_db sv)) source target"
  using assms(1)
proof (cases rule: resolve_run)
  case (found devices policies target' allowed)
  then have allowed: "\<exists>c \<in> set devices. d_ID c = d_ID target \<and> may_reach policies source c"
    and t: "target \<in> set (db_devices (sv_db sv))" "find (names_target lib t) devices = Some target" by auto
  from allowed obtain c where c: "c \<in> set (db_devices (sv_db sv))" "d_ID c = d_ID target" "may_reach policies source c"
    using found(4) by auto
  have "c = target" using unique_onD [OF assms(2) c(1) t(1) c(2)] .
  with c(3) found(5) have "may_reach (db_policies (sv_db sv)) source target" by (simp add: may_reach_def)
  with found(2) t show ?thesis by (auto dest: find_SomeD)
qed simp

text \<open>How the opening of a session ends once its source is authenticated.\<close>

lemma open_session_outcome:
  assumes "open_session lib env req source sv = (x, sv')"
  obtains (refused) r where "x = Inl r" "rs_status r \<noteq> 201" "reads_only sv sv'"
    | (opened) target s b sv2 where "x = Inr (writeJSON 201 (PSession s))" "sv' = sv2\<lparr>sv_broker := b\<rparr>"
        "resolveRelayTarget lib source (trim_space (tsr_Target req)) sv = (Inr (Inr (target, True)), sv2)"
        "Create (e_now env 1) (e_uuid env 0) source target (tsr_TargetPort req) (sv_broker sv2) = (s, b)"
        "1 \<le> tsr_TargetPort req" "tsr_TargetPort req \<le> 65535"
proof (cases "(tsr_Protocol req \<noteq> '''' \<and> tsr_Protocol req \<noteq> ''tcp'') \<or> tsr_TargetPort req < 1 \<or> tsr_TargetPort req > 65535")
  case True
  then have "(\<exists>m. x = Inl (writeError 400 m)) \<and> sv' = sv"
    using assms by (auto simp: open_session_def then_act_def reject_if_def respond_def return_act_def split: if_splits)
  then show thesis using refused by (auto simp: reads.refl)
next
  case False
  note simps = open_session_def then_act_def reject_if_def respond_def return_act_def broker_act_def
  obtain z sv2 where rs: "resolveRelayTarget lib source (trim_space (tsr_Target req)) sv = (z, sv2)" by fastforce
  from rs show thesis
  proof (cases rule: resolve_run)
    case (refused e)
    then have "x = Inl (writeError 400 (target_message e))" "sv' = sv2"
      using assms False rs by (auto simp: simps)
    then show thesis using that(1) refused(2) by simp
  next
    case (found devices policies target allowed)
    show thesis
    proof (cases allowed)
      case True
      obtain s b where c: "Create (e_now env 1) (e_uuid env 0) source target (tsr_TargetPort req) (sv_broker sv2) = (s, b)"
        by fastforce
      then show thesis using that(2) [of s b sv2 target] assms False rs found(1) True by (auto simp: simps)
    next
      case False
      then have "x = Inl (writeError 403 ''network policy does not allow this target'')" "sv' = sv2"
        using assms \<open>\<not> (_ \<or> _)\<close> found(1) rs by (auto simp: simps)
      then show thesis using that(1) found(2) by simp
    qed
  qed
qed

text \<open>
  C5: A relay session is opened only along a policy: an answer 201 means that the presented
  token is that of the source device, that the target is a stored device the request names (by
  id, address or name) and that an enabled policy lets the source reach it; the session in the
  answer is the one added to the broker, for these two devices and a port in range, for two
  minutes. Any other answer leaves the broker as it was, and no answer changes a table.
\<close>

theorem relay_session_follows_policy:
  assumes "db_ok (sv_db sv)"
    and "finish (handleTCPRelaySessionCreate lib env q) sv = (resp, sv')"
  shows "same_tables (sv_db sv) (sv_db sv')
       \<and> (rs_status resp \<noteq> 201 \<longrightarrow> sv_broker sv' = sv_broker sv)
       \<and> (rs_status resp = 201 \<longrightarrow> (\<exists>req source target s.
            decodeJSON jb_session q = Some req
            \<and> credentials_of lib sv (trim_space (tsr_SourceDeviceID req)) (q_deviceToken q) source
            \<and> target \<in> set (db_devices (sv_db sv)) \<and> names_target lib (trim_space (tsr_Target req)) target
            \<and> may_reach (db_policies (sv_db sv)) source target
            \<and> 1 \<le> tsr_TargetPort req \<and> tsr_TargetPort req \<le> 65535
            \<and> s = new_session (e_now env 1) (e_uuid env 0) source target (tsr_TargetPort req)
            \<and> rs_body resp = PSession s
            \<and> (s, sv_broker sv') = Create (e_now env 1) (e_uuid env 0) source target (tsr_TargetPort req) (sv_broker sv)))"
proof -
  obtain x where h: "handleTCPRelaySessionCreate lib env q sv = (x, sv')" and resp: "resp = (case x of Inl r \<Rightarrow> r | Inr r \<Rightarrow> r)"
    by (rule finish_cases [OF assms(2)])
  have keep: "same_tables (sv_db sv) (sv_db t) \<and> sv_broker t = sv_broker sv" if "reads_only sv t" for t
    using that reads_broker [OF that] by (simp add: reads_only_def)
  from h show ?thesis
  proof (cases rule: session_create_outcome)
    case (refused r)
    then show ?thesis using keep by (auto simp: resp)
  next
    case (passed req source sv1)
    note a = authenticate_InrD [OF passed(2)]
    note same = same_tablesD [OF conjunct1 [OF keep [OF a(2)]]]
    from passed(3) show ?thesis
    proof (cases rule: open_session_outcome)
      case (refused r)
      then show ?thesis using keep reads.trans [OF a(2) refused(3)] by (simp add: resp)
    next
      case (opened target s b sv2)
      have "unique_on d_ID (db_devices (sv_db sv1))" using assms(1) same by (simp add: db_ok_def)
      from resolve_permits [OF opened(3) this]
      have t: "reads_only sv1 sv2" "target \<in> set (db_devices (sv_db sv1))"
          "names_target lib (trim_space (tsr_Target req)) target" "may_reach (db_policies (sv_db sv1)) source target" by simp_all
      have s: "s = new_session (e_now env 1) (e_uuid env 0) source target (tsr_TargetPort req)"
        using opened(4) by (auto simp: Create_def Let_def)
      from keep [OF reads.trans [OF a(2) t(1)]]
      have "same_tables (sv_db sv) (sv_db sv')" and b: "sv_broker sv2 = sv_broker sv" by (simp_all add: opened(2))
      moreover have "resp = writeJSON 201 (PSession s)" "sv_broker sv' = b" using opened(1,2) by (simp_all add: resp)
      moreover have "(s, b) = Create (e_now env 1) (e_uuid env 0) source target (tsr_TargetPort req) (sv_broker sv)"
        using opened(4) b by simp
      moreover note opened(5,6) passed(1) a(1) s t(2-4) [unfolded same]
      ultimately show ?thesis by auto
    qed
  qed
qed

definition relay_request :: request where
  "relay_request = (demo_request ''POST'' [''api'', ''v1'', ''relay'', ''sessions''])\<lparr>q_deviceToken := ''k'',
     q_body := empty_body\<lparr>jb_session := Some \<lparr>tsr_SourceDeviceID = ''a'', tsr_Target = ''b'', tsr_TargetPort = 9999,
       tsr_Protocol = ''tcp''\<rparr>\<rparr>\<rparr>"

lemma trim_ab: "trim_space ''a'' = ''a''" "trim_space ''b'' = ''b''"
  by (rule trim_space_id, simp add: space_free_def space_encodings_def)+

theorem relay_session_follows_policy_witness:
  "\<exists>s. rs_body (fst (finish (handleTCPRelaySessionCreate demo_lib demo_env relay_request)
       (device_server [demo_device ''a'', demo_device ''b'']))) = PSession s \<and> ts_TargetPort s = 9999"
proof -
  let ?sv = "device_server [demo_device ''a'', demo_device ''b'']"
  obtain resp sv' where f: "finish (handleTCPRelaySessionCreate demo_lib demo_env relay_request) ?sv = (resp, sv')"
    by fastforce
  have a: "authenticateDeviceCredentials demo_lib relay_request ''a'' ?sv = (Inr (demo_device ''a''), ?sv)"
    by (intro demo_authenticated) (simp_all add: relay_request_def)
  have l: "ListDevices (sv_db ?sv) = (Inr [demo_device ''a'', demo_device ''b''], sv_db ?sv)"
    by (simp add: ListDevices_def query_all_def order_desc_def)
  have p: "db_ok (sv_db demo_server)" using demo_db_ok by (simp add: demo_server_def)
  have reach: "allowedPeers (demo_device ''a'') [demo_device ''a'', demo_device ''b''] [demo_policy] = [peer_of (demo_device ''b'')]"
    by (simp add: allowedPeers_eq may_reach_def demo_policy_def policyAllows_def)
  have find: "find (names_target demo_lib ''b'') [demo_device ''a'', demo_device ''b''] = Some (demo_device ''b'')"
    by (simp add: names_target_def ascii_lower_def is_ascii_def)
  have ri: "resolve_in demo_lib (demo_device ''a'') ''b'' [demo_device ''a'', demo_device ''b''] [demo_policy]
      = Inr (demo_device ''b'', True)"
    unfolding resolve_in_def find reach Let_def by simp
  have dec: "decodeJSON jb_session relay_request = Some \<lparr>tsr_SourceDeviceID = ''a'', tsr_Target = ''b'',
      tsr_TargetPort = 9999, tsr_Protocol = ''tcp''\<rparr>"
    by (simp add: decodeJSON_def relay_request_def empty_body_def)
  have rt: "resolveRelayTarget demo_lib (demo_device ''a'') ''b'' ?sv = (Inr (Inr (demo_device ''b'', True)), ?sv)"
    by (simp add: resolveRelayTarget_def then_act_def try_store_def l demo_lists return_act_def ri del: find.simps)
  have s: "rs_status resp = 201"
    using f
    by (auto simp: handleTCPRelaySessionCreate_def finish_def then_act_def decode_or_def dec return_act_def a trim_ab
        open_session_def reject_if_def rt broker_act_def split: prod.splits)
  have ok: "db_ok (sv_db ?sv)"
    using demo_db_ok by (simp add: device_server_def demo_server_def db_ok_def unique_on_def demo_db_def empty_db_def
        default_user_def default_group_def)
  from relay_session_follows_policy [OF ok f] s show ?thesis
    by (auto simp: f new_session_def dec)
qed

end
