(* ===== verification/Agent_State.thy ===== *)
theory Agent_State
  imports Models Go_Base64
begin

text \<open>
  internal/agent/state.go: the agent's state file and its WireGuard identity. The disk maps paths
  to files; a file holds the JSON document of a state or something \<open>encoding/json\<close> does not
  decode to one. Writing a state and reading it back loses the fields tagged \<open>json:"-"\<close>. Which
  operation on the file system fails, the name of the temporary file, the random bytes and the
  clock are arguments of each call; X25519 and SHA-256 are arguments of the operations that use
  them. A temporary file is removed on every path.
\<close>

section \<open>State and disk\<close>

record agent_state =
  as_Response :: device_registration_response
  as_PrivateKey :: string
  as_PublicKey :: string
  as_Fingerprint :: string
  as_SavedAt :: gotime

definition empty_response :: device_registration_response where
  "empty_response = \<lparr>resp_Device = empty_device, resp_Relays = [], resp_Message = ''''\<rparr>"

definition empty_state :: agent_state where
  "empty_state = \<lparr>as_Response = empty_response, as_PrivateKey = '''', as_PublicKey = '''',
     as_Fingerprint = '''', as_SavedAt = zero_time\<rparr>"

definition wire_response :: "device_registration_response \<Rightarrow> device_registration_response" where
  "wire_response r = r\<lparr>resp_Device := wire_device (resp_Device r)\<rparr>"

definition wire_state :: "agent_state \<Rightarrow> agent_state" where
  "wire_state st = st\<lparr>as_Response := wire_response (as_Response st)\<rparr>"

datatype agent_file = Undecodable | Document agent_state

type_synonym disk = "string \<Rightarrow> agent_file option"

datatype file_op = MkdirAll | CreateTemp | Chmod | Encode | CloseTemp | Rename

record os_env =
  oe_open_fails :: bool
  oe_fails :: "file_op \<Rightarrow> bool"
  oe_tmp :: string
  oe_now :: gotime
  oe_rand :: "nat list option"

datatype state_error = PathRequired | NotExist | OpenFailed | BadDocument | ErrNoDeviceCredentials
  | CredentialsRequired | FileOpFailed file_op | RandFailed | BadPrivateKey

section \<open>Reading and writing\<close>

definition readAgentState :: "os_env \<Rightarrow> disk \<Rightarrow> string \<Rightarrow> state_error + agent_state" where
  "readAgentState env disk path =
     (if oe_open_fails env then Inl OpenFailed
      else case disk path of
        None \<Rightarrow> Inl NotExist
      | Some Undecodable \<Rightarrow> Inl BadDocument
      | Some (Document st) \<Rightarrow> Inr st)"

text \<open>Both writers start from what is stored, and from the zero value when there is no file.\<close>

definition read_existing :: "os_env \<Rightarrow> disk \<Rightarrow> string \<Rightarrow> state_error + agent_state" where
  "read_existing env disk path =
     (case readAgentState env disk path of
        Inl e \<Rightarrow> if e \<noteq> NotExist then Inl e else Inr empty_state
      | Inr st \<Rightarrow> Inr st)"

text \<open>The steps in order; the deferred removal of the temporary file runs once it exists.\<close>

definition writeAgentState :: "os_env \<Rightarrow> string \<Rightarrow> agent_state \<Rightarrow> disk \<Rightarrow> (state_error + unit) \<times> disk" where
  "writeAgentState env path st disk =
     (if path = '''' then (Inl PathRequired, disk)
      else if oe_fails env MkdirAll then (Inl (FileOpFailed MkdirAll), disk)
      else
        (let st' = st\<lparr>as_SavedAt := oe_now env\<rparr>; tmp = oe_tmp env
         in if oe_fails env CreateTemp then (Inl (FileOpFailed CreateTemp), disk)
            else if oe_fails env Chmod then (Inl (FileOpFailed Chmod), disk(tmp := None))
            else if oe_fails env Encode then (Inl (FileOpFailed Encode), disk(tmp := None))
            else if oe_fails env CloseTemp then (Inl (FileOpFailed CloseTemp), disk(tmp := None))
            else if oe_fails env Rename then (Inl (FileOpFailed Rename), disk(tmp := None))
            else (Inr (), disk(tmp := None, path := Some (Document (wire_state st'))))))"

section \<open>The state store\<close>

record file_state_store =
  fs_path :: string

definition NewFileStateStore :: "string \<Rightarrow> file_state_store" where
  "NewFileStateStore path = \<lparr>fs_path = path\<rparr>"

definition Load ::
  "os_env \<Rightarrow> file_state_store option \<Rightarrow> disk \<Rightarrow> state_error + device_registration_response" where
  "Load env s disk =
     (case s of
        None \<Rightarrow> Inl PathRequired
      | Some fs \<Rightarrow>
          if fs_path fs = '''' then Inl PathRequired
          else case readAgentState env disk (fs_path fs) of
            Inl e \<Rightarrow> Inl e
          | Inr state \<Rightarrow>
              if d_ID (resp_Device (as_Response state)) = '''' \<or> d_DeviceToken (resp_Device (as_Response state)) = ''''
              then Inl ErrNoDeviceCredentials
              else Inr (as_Response state))"

definition Save ::
  "os_env \<Rightarrow> file_state_store option \<Rightarrow> device_registration_response \<Rightarrow> disk \<Rightarrow> (state_error + unit) \<times> disk" where
  "Save env s response disk =
     (case s of
        None \<Rightarrow> (Inl PathRequired, disk)
      | Some fs \<Rightarrow>
          if fs_path fs = '''' then (Inl PathRequired, disk)
          else if d_ID (resp_Device response) = '''' \<or> d_DeviceToken (resp_Device response) = ''''
          then (Inl CredentialsRequired, disk)
          else
            (let update = (\<lambda>existing. existing\<lparr>as_Response := response
                   \<lparr>resp_Device := (resp_Device response)\<lparr>d_TokenHash := ''''\<rparr>,
                    resp_Message := ''device state''\<rparr>\<rparr>)
             in case read_existing env disk (fs_path fs) of
                  Inl e \<Rightarrow> (Inl e, disk)
                | Inr existing \<Rightarrow> writeAgentState env (fs_path fs) (update existing) disk))"

section \<open>The identity\<close>

record identity =
  id_PrivateKey :: string
  id_PublicKey :: string
  id_Fingerprint :: string

fun firstNonEmpty :: "string list \<Rightarrow> string" where
  "firstNonEmpty [] = ''''"
| "firstNonEmpty (value # values) = (if value \<noteq> '''' then value else firstNonEmpty values)"

definition GenerateWireGuardPrivateKey :: "nat list option \<Rightarrow> string option" where
  "GenerateWireGuardPrivateKey raw = (case raw of None \<Rightarrow> None | Some key \<Rightarrow> Some (b64std_encode key))"

definition WireGuardPublicKey :: "(nat list \<Rightarrow> nat list option) \<Rightarrow> string \<Rightarrow> string option" where
  "WireGuardPublicKey x25519 privateKey =
     (case b64std_decode privateKey of
        None \<Rightarrow> None
      | Some privateBytes \<Rightarrow>
          if length privateBytes \<noteq> 32 then None
          else case x25519 privateBytes of
            None \<Rightarrow> None
          | Some publicBytes \<Rightarrow> Some (b64std_encode publicBytes))"

definition fingerprintFromPublicKey :: "(string \<Rightarrow> nat list) \<Rightarrow> string \<Rightarrow> string" where
  "fingerprintFromPublicKey sha256 publicKey = ''lb-'' @ b64url_encode (take 6 (sha256 publicKey))"

text \<open>The identity from the arguments and the stored state; then the whole operation.\<close>

definition derive_identity ::
  "(nat list \<Rightarrow> nat list option) \<Rightarrow> (string \<Rightarrow> nat list) \<Rightarrow> nat list option \<Rightarrow>
   agent_state \<Rightarrow> string \<Rightarrow> string \<Rightarrow> string \<Rightarrow> state_error + identity" where
  "derive_identity x25519 sha256 raw state privateKey publicKey fingerprint =
     (let priv0 = firstNonEmpty [privateKey, as_PrivateKey state];
          pub0 = firstNonEmpty [publicKey, as_PublicKey state];
          fp0 = firstNonEmpty [fingerprint, as_Fingerprint state]
      in case (if priv0 = '''' then GenerateWireGuardPrivateKey raw else Some priv0) of
           None \<Rightarrow> Inl RandFailed
         | Some priv \<Rightarrow>
             (case (if pub0 = '''' then WireGuardPublicKey x25519 priv else Some pub0) of
                None \<Rightarrow> Inl BadPrivateKey
              | Some pub \<Rightarrow> Inr \<lparr>id_PrivateKey = priv, id_PublicKey = pub,
                  id_Fingerprint = (if fp0 = '''' then fingerprintFromPublicKey sha256 pub else fp0)\<rparr>))"

definition store_identity :: "identity \<Rightarrow> agent_state \<Rightarrow> agent_state" where
  "store_identity ident state = state\<lparr>as_PrivateKey := id_PrivateKey ident,
     as_PublicKey := id_PublicKey ident, as_Fingerprint := id_Fingerprint ident\<rparr>"

definition EnsureIdentity ::
  "(nat list \<Rightarrow> nat list option) \<Rightarrow> (string \<Rightarrow> nat list) \<Rightarrow> os_env \<Rightarrow>
   string \<Rightarrow> string \<Rightarrow> string \<Rightarrow> string \<Rightarrow> disk \<Rightarrow> (state_error + identity) \<times> disk" where
  "EnsureIdentity x25519 sha256 env path privateKey publicKey fingerprint disk =
     (case (if path = '''' then Inr empty_state else read_existing env disk path) of
        Inl e \<Rightarrow> (Inl e, disk)
      | Inr state \<Rightarrow>
          (case derive_identity x25519 sha256 (oe_rand env) state privateKey publicKey fingerprint of
             Inl e \<Rightarrow> (Inl e, disk)
           | Inr ident \<Rightarrow>
               if path = '''' then (Inr ident, disk)
               else (case writeAgentState env path (store_identity ident state) disk of
                       (Inl e, disk') \<Rightarrow> (Inl e, disk')
                     | (Inr _, disk') \<Rightarrow> (Inr ident, disk'))))"

section \<open>Laws\<close>

lemma firstNonEmpty_pair: "firstNonEmpty [a, b] = (if a \<noteq> '''' then a else b)"
  by simp

lemma read_cases:
  "readAgentState env disk path = Inr st \<longleftrightarrow> \<not> oe_open_fails env \<and> disk path = Some (Document st)"
  "readAgentState env disk path = Inl NotExist \<longleftrightarrow> \<not> oe_open_fails env \<and> disk path = None"
  by (auto simp: readAgentState_def split: option.splits agent_file.splits)

text \<open>The file is replaced as a whole or not at all.\<close>

lemma write_cases:
  assumes "writeAgentState env path st disk = (x, disk')"
    and "disk (oe_tmp env) = None" and "oe_tmp env \<noteq> path"
  shows "(x = Inr () \<and> path \<noteq> '''' \<and> disk' = disk(path \<mapsto> Document (wire_state (st\<lparr>as_SavedAt := oe_now env\<rparr>))))
       \<or> (\<exists>e. x = Inl e \<and> disk' = disk)"
  using assms by (auto simp: writeAgentState_def Let_def fun_upd_idem split: if_splits)

definition responds :: "device_registration_response \<Rightarrow> device_registration_response" where
  "responds r = r\<lparr>resp_Device := (resp_Device r)\<lparr>d_TokenHash := ''''\<rparr>, resp_Message := ''device state''\<rparr>"

lemma wire_responds [simp]: "wire_response (responds r) = responds r"
  by (simp add: wire_response_def responds_def wire_device_def)

text \<open>The state an operation works on: the stored one, or the zero value when there is no file.\<close>

definition current_state :: "disk \<Rightarrow> string \<Rightarrow> agent_state" where
  "current_state disk path = (case disk path of Some (Document st) \<Rightarrow> st | _ \<Rightarrow> empty_state)"

lemma read_existing_InrD: "read_existing env disk path = Inr st \<Longrightarrow> st = current_state disk path"
  by (auto simp: read_existing_def readAgentState_def current_state_def
      split: if_splits option.splits agent_file.splits)

lemma Save_cases:
  assumes "Save env (Some (NewFileStateStore path)) r disk = (x, disk')"
    and "disk (oe_tmp env) = None" and "oe_tmp env \<noteq> path"
  obtains e where "x = Inl e" "disk' = disk"
  | "x = Inr ()" "path \<noteq> ''''" "d_ID (resp_Device r) \<noteq> ''''" "d_DeviceToken (resp_Device r) \<noteq> ''''"
      "disk' = disk(path \<mapsto> Document ((current_state disk path)\<lparr>as_SavedAt := oe_now env, as_Response := responds r\<rparr>))"
proof -
  let ?st = "(current_state disk path)\<lparr>as_Response := responds r\<rparr>"
  consider e where "x = Inl e" "disk' = disk"
    | "path \<noteq> ''''" "d_ID (resp_Device r) \<noteq> ''''" "d_DeviceToken (resp_Device r) \<noteq> ''''"
      "writeAgentState env path ?st disk = (x, disk')"
    using assms(1)
    by (auto simp: Save_def NewFileStateStore_def Let_def responds_def [symmetric]
        dest: read_existing_InrD split: if_splits sum.splits)
  then show ?thesis
  proof cases
    case 1
    then show ?thesis by (rule that(1))
  next
    case 2
    from write_cases [OF 2(4) assms(2,3)] 2(1-3) show ?thesis
      by (auto simp: wire_state_def intro: that)
  qed
qed

lemma EnsureIdentity_cases:
  assumes "EnsureIdentity x25519 sha256 env path priv pub fp disk = (x, disk')" and "path \<noteq> ''''"
    and "disk (oe_tmp env) = None" and "oe_tmp env \<noteq> path"
  obtains e where "x = Inl e" "disk' = disk"
  | ident where "x = Inr ident"
      "derive_identity x25519 sha256 (oe_rand env) (current_state disk path) priv pub fp = Inr ident"
      "disk' = disk(path \<mapsto> Document (wire_state ((store_identity ident (current_state disk path))\<lparr>as_SavedAt := oe_now env\<rparr>)))"
proof (cases "read_existing env disk path")
  case (Inl e)
  with assms(1,2) show ?thesis by (intro that(1) [of e]) (simp_all add: EnsureIdentity_def)
next
  case (Inr st)
  from read_existing_InrD [OF Inr] have st: "st = current_state disk path" .
  show ?thesis
  proof (cases "derive_identity x25519 sha256 (oe_rand env) st priv pub fp")
    case (Inl e)
    with assms(1,2) Inr show ?thesis by (intro that(1) [of e]) (simp_all add: EnsureIdentity_def)
  next
    case d: (Inr ident)
    obtain y disk1 where w: "writeAgentState env path (store_identity ident st) disk = (y, disk1)" by fastforce
    with assms(1,2) Inr d have e: "x = (case y of Inl e \<Rightarrow> Inl e | Inr _ \<Rightarrow> Inr ident)" "disk' = disk1"
      by (auto simp: EnsureIdentity_def split: sum.splits)
    from write_cases [OF w assms(3,4)] show ?thesis
    proof
      assume "\<exists>e. y = Inl e \<and> disk1 = disk"
      then show ?thesis using e by (auto intro: that(1))
    next
      assume "y = Inr () \<and> path \<noteq> '''' \<and> disk1 = disk(path \<mapsto> Document (wire_state ((store_identity ident st)\<lparr>as_SavedAt := oe_now env\<rparr>)))"
      then show ?thesis using e d st by (intro that(2) [of ident]) simp_all
    qed
  qed
qed

lemma current_state_upd [simp]: "current_state (disk(path \<mapsto> Document st)) path = st"
  by (simp add: current_state_def)

text \<open>The identity is written next to the registration that is there.\<close>

lemma EnsureIdentity_response:
  assumes "EnsureIdentity x25519 sha256 env path priv pub fp disk = (x, disk')"
    and "disk (oe_tmp env) = None" and "oe_tmp env \<noteq> path"
  shows "disk' = disk \<or>
    (\<exists>st. disk' path = Some (Document st) \<and> as_Response st = wire_response (as_Response (current_state disk path)))"
proof (cases "path = ''''")
  case True
  with assms(1) show ?thesis by (auto simp: EnsureIdentity_def split: sum.splits)
next
  case False
  from assms(1) False assms(2,3) show ?thesis
    by (cases rule: EnsureIdentity_cases) (auto simp: wire_state_def store_identity_def)
qed

section \<open>Properties\<close>

text \<open>
  C25: The state file is saved as a whole or not at all, and a saved registration is what the next
  start loads: without the token digest, with the message replaced, next to the WireGuard keys
  that were in the file before, and with every other file as it was. When any step of the save
  fails the disk is unchanged, so a registration saved earlier is still there.
\<close>

theorem saved_state_loads:
  assumes "Save env (Some (NewFileStateStore path)) r disk = (x, disk')"
    and "disk (oe_tmp env) = None" and "oe_tmp env \<noteq> path" and "\<not> oe_open_fails env'"
  shows "(x = Inr () \<longrightarrow> Load env' (Some (NewFileStateStore path)) disk' = Inr (responds r)
            \<and> (\<forall>p. p \<noteq> path \<longrightarrow> disk' p = disk p)
            \<and> as_PrivateKey (current_state disk' path) = as_PrivateKey (current_state disk path)
            \<and> as_PublicKey (current_state disk' path) = as_PublicKey (current_state disk path)
            \<and> as_Fingerprint (current_state disk' path) = as_Fingerprint (current_state disk path))
       \<and> (x \<noteq> Inr () \<longrightarrow> disk' = disk)"
  using assms(1-3)
proof (cases rule: Save_cases)
  case (1 e)
  then show ?thesis by simp
next
  case 2
  moreover have "d_ID (resp_Device (responds r)) \<noteq> ''''" "d_DeviceToken (resp_Device (responds r)) \<noteq> ''''"
    using 2 by (simp_all add: responds_def)
  ultimately show ?thesis
    using assms(4) by (simp add: Load_def NewFileStateStore_def readAgentState_def)
qed

definition demo_os :: os_env where
  "demo_os = \<lparr>oe_open_fails = False, oe_fails = (\<lambda>op. False), oe_tmp = ''tmp'', oe_now = GoTime 5,
     oe_rand = Some (replicate 32 7)\<rparr>"

definition demo_registration :: device_registration_response where
  "demo_registration = empty_response\<lparr>resp_Device := empty_device\<lparr>d_ID := ''d1'', d_DeviceToken := ''t1'',
     d_VirtualIP := ''10.88.1.2'', d_TokenHash := ''h''\<rparr>\<rparr>"

theorem saved_state_loads_witness:
  "Load demo_os (Some (NewFileStateStore ''s'')) (snd (Save demo_os (Some (NewFileStateStore ''s'')) demo_registration Map.empty))
     = Inr (responds demo_registration)"
proof -
  obtain x disk' where s: "Save demo_os (Some (NewFileStateStore ''s'')) demo_registration Map.empty = (x, disk')"
    by fastforce
  then have "x = Inr ()"
    by (simp add: Save_def NewFileStateStore_def demo_registration_def read_existing_def readAgentState_def
        demo_os_def writeAgentState_def Let_def)
  with saved_state_loads [OF s, of demo_os] have "Load demo_os (Some (NewFileStateStore ''s'')) disk' = Inr (responds demo_registration)"
    by (simp add: demo_os_def)
  then show ?thesis by (simp add: s)
qed

text \<open>A stored public key, if there is one, belongs to the stored private key.\<close>

definition keys_match :: "(nat list \<Rightarrow> nat list option) \<Rightarrow> agent_state \<Rightarrow> bool" where
  "keys_match x25519 st \<longleftrightarrow>
     as_PublicKey st = '''' \<or> WireGuardPublicKey x25519 (as_PrivateKey st) = Some (as_PublicKey st)"

lemma derive_fields:
  assumes "derive_identity x25519 sha256 raw st priv pub fp = Inr ident"
  shows "priv \<noteq> '''' \<Longrightarrow> id_PrivateKey ident = priv"
    "priv = '''' \<Longrightarrow> as_PrivateKey st \<noteq> '''' \<Longrightarrow> id_PrivateKey ident = as_PrivateKey st"
    "pub \<noteq> '''' \<Longrightarrow> id_PublicKey ident = pub"
    "pub = '''' \<Longrightarrow> as_PublicKey st \<noteq> '''' \<Longrightarrow> id_PublicKey ident = as_PublicKey st"
    "pub = '''' \<Longrightarrow> as_PublicKey st = '''' \<Longrightarrow> WireGuardPublicKey x25519 (id_PrivateKey ident) = Some (id_PublicKey ident)"
    "fp = '''' \<Longrightarrow> as_Fingerprint st \<noteq> '''' \<Longrightarrow> id_Fingerprint ident = as_Fingerprint st"
    "id_Fingerprint ident \<noteq> ''''"
  using assms by (auto simp: derive_identity_def Let_def fingerprintFromPublicKey_def split: option.splits if_splits)

lemma no_public_key_of_nothing: "WireGuardPublicKey x25519 '''' = None"
  by (simp add: WireGuardPublicKey_def b64std_decode_def)

text \<open>
  C27: With no public key configured the agent's two keys belong together, when they did in the
  state file, in every case but one: if a private key is configured (environment or default)
  while the state file already has a public key, the configured private key is used with the
  stored public key, whether or not it belongs to it.
\<close>

theorem identity_keys_match:
  assumes "EnsureIdentity x25519 sha256 env path priv '''' fp disk = (Inr ident, disk')" and "path \<noteq> ''''"
    and "disk (oe_tmp env) = None" and "oe_tmp env \<noteq> path"
    and "keys_match x25519 (current_state disk path)"
  shows "(priv = '''' \<or> as_PublicKey (current_state disk path) = '''' \<longrightarrow>
            WireGuardPublicKey x25519 (id_PrivateKey ident) = Some (id_PublicKey ident)
            \<and> keys_match x25519 (current_state disk' path))
       \<and> (priv \<noteq> '''' \<and> as_PublicKey (current_state disk path) \<noteq> '''' \<longrightarrow>
            id_PrivateKey ident = priv \<and> id_PublicKey ident = as_PublicKey (current_state disk path))"
  using assms(1-4)
proof (cases rule: EnsureIdentity_cases)
  case (1 e)
  then show ?thesis by simp
next
  case (2 i)
  let ?st = "current_state disk path"
  note d = derive_fields [OF 2(2)]
  have k: "keys_match x25519 (current_state disk' path)
      \<longleftrightarrow> id_PublicKey ident = '''' \<or> WireGuardPublicKey x25519 (id_PrivateKey ident) = Some (id_PublicKey ident)"
    using 2 by (simp add: keys_match_def store_identity_def wire_state_def)
  have m: "WireGuardPublicKey x25519 (id_PrivateKey ident) = Some (id_PublicKey ident)"
    if p: "priv = '''' \<or> as_PublicKey ?st = ''''"
  proof (cases "as_PublicKey ?st = ''''")
    case True
    then show ?thesis using d(5) 2(1) by simp
  next
    case False
    with p assms(5) have "priv = ''''" "WireGuardPublicKey x25519 (as_PrivateKey ?st) = Some (as_PublicKey ?st)"
      by (simp_all add: keys_match_def)
    then show ?thesis using d(2) d(4) [OF refl False] 2(1) no_public_key_of_nothing [of x25519] by fastforce
  qed
  show ?thesis using m k d(1) d(4) [OF refl] 2(1) by blast
qed

text \<open>An X25519 that returns its input, for the examples.\<close>

definition demo_curve :: "nat list \<Rightarrow> nat list option" where
  "demo_curve k = (if k = [] then None else Some k)"

definition demo_key :: string where "demo_key = b64std_encode (replicate 32 7)"

lemma demo_public: "WireGuardPublicKey demo_curve demo_key = Some demo_key"
  by (simp add: WireGuardPublicKey_def demo_key_def demo_curve_def b64std_roundtrip bytes_ok_def list_all_iff)

definition demo_disk :: disk where
  "demo_disk = [''s'' \<mapsto> Document (empty_state\<lparr>as_PrivateKey := demo_key, as_PublicKey := demo_key\<rparr>)]"

theorem identity_keys_match_witness:
  "\<exists>ident disk'. EnsureIdentity demo_curve (\<lambda>s. []) demo_os ''s'' ''other'' '''' '''' demo_disk = (Inr ident, disk')
     \<and> id_PrivateKey ident = ''other'' \<and> id_PublicKey ident = demo_key"
proof -
  have c: "current_state demo_disk ''s'' = empty_state\<lparr>as_PrivateKey := demo_key, as_PublicKey := demo_key\<rparr>"
    by (simp add: demo_disk_def)
  have n: "demo_key \<noteq> ''''" using demo_public no_public_key_of_nothing by fastforce
  obtain x disk' where e: "EnsureIdentity demo_curve (\<lambda>s. []) demo_os ''s'' ''other'' '''' '''' demo_disk = (x, disk')"
    by fastforce
  then have "\<exists>ident. x = Inr ident"
    using n by (auto simp: EnsureIdentity_def read_existing_def readAgentState_def demo_os_def demo_disk_def
        derive_identity_def Let_def writeAgentState_def)
  with e obtain ident where r: "EnsureIdentity demo_curve (\<lambda>s. []) demo_os ''s'' ''other'' '''' '''' demo_disk = (Inr ident, disk')"
    by blast
  from identity_keys_match [OF r] c n demo_public show ?thesis
    by (intro exI [of _ ident] exI [of _ disk']) (simp add: r, simp add: demo_os_def demo_disk_def keys_match_def)
qed

section \<open>The identity across restarts\<close>

text \<open>What later runs of the agent do to the state file, with nothing configured and any failures.\<close>

inductive later_runs ::
  "(nat list \<Rightarrow> nat list option) \<Rightarrow> (string \<Rightarrow> nat list) \<Rightarrow> string \<Rightarrow> disk \<Rightarrow> disk \<Rightarrow> bool"
  for x25519 sha256 path where
  start: "later_runs x25519 sha256 path disk disk"
| saved: "later_runs x25519 sha256 path disk disk1 \<Longrightarrow>
    Save env (Some (NewFileStateStore path)) r disk1 = (x, disk2) \<Longrightarrow>
    disk1 (oe_tmp env) = None \<Longrightarrow> oe_tmp env \<noteq> path \<Longrightarrow> later_runs x25519 sha256 path disk disk2"
| ensured: "later_runs x25519 sha256 path disk disk1 \<Longrightarrow>
    EnsureIdentity x25519 sha256 env path '''' '''' '''' disk1 = (x', disk2) \<Longrightarrow>
    disk1 (oe_tmp env) = None \<Longrightarrow> oe_tmp env \<noteq> path \<Longrightarrow> later_runs x25519 sha256 path disk disk2"

definition holds_identity :: "identity \<Rightarrow> agent_state \<Rightarrow> bool" where
  "holds_identity ident st \<longleftrightarrow> as_PrivateKey st = id_PrivateKey ident \<and> as_PublicKey st = id_PublicKey ident
     \<and> as_Fingerprint st = id_Fingerprint ident"

definition full_identity :: "identity \<Rightarrow> bool" where
  "full_identity ident \<longleftrightarrow> id_PrivateKey ident \<noteq> '''' \<and> id_PublicKey ident \<noteq> '''' \<and> id_Fingerprint ident \<noteq> ''''"

lemma derive_stored:
  assumes "holds_identity ident st" and "full_identity ident"
  shows "derive_identity x25519 sha256 raw st '''' '''' '''' = Inr ident"
  using assms by (simp add: derive_identity_def Let_def holds_identity_def full_identity_def)

lemma later_runs_hold:
  assumes "later_runs x25519 sha256 path disk disk'" and "full_identity ident" and "path \<noteq> ''''"
    and "holds_identity ident (current_state disk path)"
  shows "holds_identity ident (current_state disk' path)"
  using assms
proof (induction rule: later_runs.induct)
  case (start disk)
  then show ?case by blast
next
  case (saved disk disk1 env r x disk2)
  have h: "holds_identity ident (current_state disk1 path)" using saved by blast
  from saved.hyps(2-4) show ?case
  proof (cases rule: Save_cases)
    case (1 e)
    with h show ?thesis by simp
  next
    case 2
    then have "current_state disk2 path = (current_state disk1 path)\<lparr>as_SavedAt := oe_now env, as_Response := responds r\<rparr>"
      by (simp only: current_state_upd)
    with h show ?thesis by (simp add: holds_identity_def)
  qed
next
  case (ensured disk disk1 env x' disk2)
  from ensured.hyps(2) ensured.prems(2) ensured.hyps(3,4) show ?case
  proof (cases rule: EnsureIdentity_cases)
    case (1 e)
    with ensured show ?thesis by simp
  next
    case (2 i)
    have h: "holds_identity ident (current_state disk1 path)" using ensured by blast
    from derive_stored [OF h ensured.prems(1)] 2(2) have "i = ident" by simp
    from 2(3) have "current_state disk2 path = wire_state ((store_identity i (current_state disk1 path))\<lparr>as_SavedAt := oe_now env\<rparr>)"
      by (simp only: current_state_upd)
    with \<open>i = ident\<close> show ?thesis by (simp add: holds_identity_def wire_state_def store_identity_def)
  qed
qed

lemma derive_full:
  assumes "derive_identity x25519 sha256 raw st priv pub fp = Inr ident"
    and "raw \<noteq> Some []" and "\<And>k p. x25519 k = Some p \<Longrightarrow> p \<noteq> []"
  shows "full_identity ident"
proof -
  have ne: "b64std_encode bs = '''' \<longleftrightarrow> bs = []" for bs by (cases bs rule: b64std_encode.cases) auto
  have "id_PrivateKey ident \<noteq> ''''" "id_PublicKey ident \<noteq> ''''"
    using assms ne
    by (auto simp: derive_identity_def Let_def GenerateWireGuardPrivateKey_def WireGuardPublicKey_def
        split: option.splits if_splits)
  then show ?thesis using derive_fields(7) [OF assms(1)] by (simp add: full_identity_def)
qed

text \<open>
  C26: The identity of an agent survives restarts: once it was ensured and stored, then after any
  later runs with nothing configured (saving registrations, ensuring the identity again, some of
  it failing), ensuring it again gives the same keys and fingerprint and draws no random bytes.
\<close>

theorem identity_is_stable:
  assumes "EnsureIdentity x25519 sha256 env path priv pub fp disk = (Inr ident, disk1)" and "path \<noteq> ''''"
    and "disk (oe_tmp env) = None" and "oe_tmp env \<noteq> path"
    and "oe_rand env \<noteq> Some []" and "\<And>k p. x25519 k = Some p \<Longrightarrow> p \<noteq> []"
    and "later_runs x25519 sha256 path disk1 disk2"
    and "EnsureIdentity x25519 sha256 env' path '''' '''' '''' disk2 = (y, disk3)"
    and "disk2 (oe_tmp env') = None" and "oe_tmp env' \<noteq> path"
  shows "y = Inr ident \<or> (\<exists>e. y = Inl e \<and> e \<noteq> RandFailed \<and> e \<noteq> BadPrivateKey \<and> disk3 = disk2)"
  using assms(1-4)
proof (cases rule: EnsureIdentity_cases)
  case (1 e)
  then show ?thesis by simp
next
  case (2 i)
  have f: "full_identity ident" using derive_full [OF 2(2) assms(5,6)] 2(1) by simp
  have "holds_identity ident (current_state disk1 path)"
    using 2 by (simp add: holds_identity_def store_identity_def wire_state_def)
  from later_runs_hold [OF assms(7) f assms(2) this] have h: "holds_identity ident (current_state disk2 path)" .
  have d: "derive_identity x25519 sha256 (oe_rand env') (current_state disk2 path) '''' '''' '''' = Inr ident"
    by (rule derive_stored [OF h f])
  show ?thesis
    using assms(8,2,9,10)
  proof (cases rule: EnsureIdentity_cases)
    case (1 e)
    moreover have "e \<noteq> RandFailed \<and> e \<noteq> BadPrivateKey"
      using assms(2,8) d 1 read_existing_InrD
      by (force simp: EnsureIdentity_def read_existing_def readAgentState_def writeAgentState_def Let_def
          split: if_splits sum.splits option.splits agent_file.splits)
    ultimately show ?thesis by simp
  next
    case (2 i)
    with d show ?thesis by simp
  qed
qed

theorem identity_is_stable_witness:
  "\<exists>ident disk1 disk2. EnsureIdentity demo_curve (\<lambda>s. []) demo_os ''s'' '''' '''' '''' Map.empty = (Inr ident, disk1)
     \<and> EnsureIdentity demo_curve (\<lambda>s. []) demo_os ''s'' '''' '''' '''' disk1 = (Inr ident, disk2)"
proof -
  obtain x disk1 where e: "EnsureIdentity demo_curve (\<lambda>s. []) demo_os ''s'' '''' '''' '''' Map.empty = (x, disk1)"
    by fastforce
  obtain y disk2 where e2: "EnsureIdentity demo_curve (\<lambda>s. []) demo_os ''s'' '''' '''' '''' disk1 = (y, disk2)"
    by fastforce
  have g: "GenerateWireGuardPrivateKey (oe_rand demo_os) = Some demo_key"
    by (simp add: GenerateWireGuardPrivateKey_def demo_os_def demo_key_def)
  have n: "demo_key \<noteq> ''''" using demo_public no_public_key_of_nothing by fastforce
  then obtain i0 where d: "derive_identity demo_curve (\<lambda>s. []) (oe_rand demo_os) empty_state '''' '''' '''' = Inr i0"
    using g demo_public by (auto simp: derive_identity_def Let_def empty_state_def)
  have r: "read_existing demo_os Map.empty ''s'' = Inr empty_state"
    by (simp add: read_existing_def readAgentState_def demo_os_def)
  obtain st where w: "writeAgentState demo_os ''s'' (store_identity i0 empty_state) Map.empty = (Inr (), [''s'' \<mapsto> Document st])"
    by (simp add: writeAgentState_def Let_def demo_os_def)
  have i: "x = Inr i0" and disk1: "disk1 = [''s'' \<mapsto> Document st]"
    using e by (simp_all add: EnsureIdentity_def r d w)
  have t: "disk1 ''tmp'' = None" and st: "disk1 ''s'' = Some (Document st)" by (simp_all add: disk1)
  have s: "y = Inr i0 \<or> (\<exists>e. y = Inl e \<and> e \<noteq> RandFailed \<and> e \<noteq> BadPrivateKey \<and> disk2 = disk1)"
    using e i t by (intro identity_is_stable [OF _ _ _ _ _ _ later_runs.start e2])
      (auto simp: demo_os_def demo_curve_def split: if_splits)
  have "y = Inl e \<longrightarrow> e = RandFailed \<or> e = BadPrivateKey" for e
    using e2 st by (auto simp: EnsureIdentity_def read_existing_def readAgentState_def demo_os_def
        derive_identity_def Let_def writeAgentState_def split: option.splits if_splits)
  with s have "y = Inr i0" by blast
  with e e2 i show ?thesis by blast
qed

end
