(* ===== verification/Agent_Wireguard.thy ===== *)
theory Agent_Wireguard
  imports Command_Trace Models Config
begin

text \<open>
  internal/agent/wireguard.go: how the agent turns a network configuration into an interface.
  The operating system's name and the outcome of creating the key file are arguments; what the
  agent does is the trace of commands of \<open>Command_Trace\<close>. The commands of one application are a
  row that stops at the first failure of one whose error the code returns.
\<close>

section \<open>Peers\<close>

fun routed_elsewhere :: "string \<Rightarrow> string list \<Rightarrow> bool" where
  "routed_elsewhere own [] = False"
| "routed_elsewhere own (allowedIP # rest) =
     (if allowedIP \<noteq> '''' \<and> allowedIP \<noteq> own then True else routed_elsewhere own rest)"

fun hubOnlyPeers :: "network_peer list \<Rightarrow> network_peer list" where
  "hubOnlyPeers [] = []"
| "hubOnlyPeers (peer # peers) =
     (if np_ID peer = ''linkbit-hub'' then peer # hubOnlyPeers peers
      else if routed_elsewhere (np_VirtualIP peer @ ''/32'') (np_AllowedIPs peer) then peer # hubOnlyPeers peers
      else hubOnlyPeers peers)"

definition hasHubPeer :: "network_peer list \<Rightarrow> bool" where
  "hasHubPeer peers \<longleftrightarrow> length (hubOnlyPeers peers) > 0"

section \<open>Commands\<close>

definition allowed_ips :: "network_peer \<Rightarrow> string list" where
  "allowed_ips peer = (if np_AllowedIPs peer = [] then [np_VirtualIP peer @ ''/32''] else np_AllowedIPs peer)"

definition peer_commands :: "string \<Rightarrow> network_peer \<Rightarrow> string list list" where
  "peer_commands iface peer =
     [[''wg'', ''set'', iface, ''peer'', np_PublicKey peer, ''allowed-ips''] @ allowed_ips peer]
     @ (if np_Endpoint peer \<noteq> '''' then
          [[''wg'', ''set'', iface, ''peer'', np_PublicKey peer, ''endpoint'', np_Endpoint peer],
           [''wg'', ''set'', iface, ''peer'', np_PublicKey peer, ''persistent-keepalive'', ''10'']]
        else [])"

text \<open>The loop over the peers: the commands it runs and the routes it collects.\<close>

fun peer_rows :: "string \<Rightarrow> network_peer list \<Rightarrow> string list list \<times> string list" where
  "peer_rows iface [] = ([], [])"
| "peer_rows iface (peer # peers) =
     (if np_PublicKey peer = '''' \<or> np_VirtualIP peer = '''' then peer_rows iface peers
      else (case peer_rows iface peers of
              (cmds, routes) \<Rightarrow> (peer_commands iface peer @ cmds, allowed_ips peer @ routes)))"

fun warmWireGuardHub :: "network_peer list \<Rightarrow> string list list" where
  "warmWireGuardHub [] = []"
| "warmWireGuardHub (peer # peers) =
     (if np_ID peer = ''linkbit-hub'' \<and> np_VirtualIP peer \<noteq> ''''
      then [[''ping'', ''-c'', ''3'', ''-W'', ''1'', np_VirtualIP peer]]
      else warmWireGuardHub peers)"

definition chosen_peers :: "network_peer list \<Rightarrow> network_peer list" where
  "chosen_peers peers = (if hasHubPeer peers then hubOnlyPeers peers else peers)"

definition apply_row :: "agent_config \<Rightarrow> network_config \<Rightarrow> string \<Rightarrow> (bool \<times> string list) list" where
  "apply_row cfg network keyFile =
     (let iface = ac_WireGuardInterface cfg; must = map (Pair True); peers = chosen_peers (nc_Peers network)
      in case peer_rows iface peers of (cmds, routes) \<Rightarrow>
           [(False, [''ip'', ''link'', ''del'', iface]),
            (True, [''ip'', ''link'', ''add'', ''dev'', iface, ''type'', ''wireguard''])]
           @ (if keyFile \<noteq> '''' then [(True, [''wg'', ''set'', iface, ''private-key'', keyFile])] else [])
           @ [(True, [''ip'', ''address'', ''add'', d_VirtualIP (nc_Device network) @ ''/32'', ''dev'', iface])]
           @ must cmds
           @ [(True, [''ip'', ''link'', ''set'', ''dev'', iface, ''mtu'', ''1180'']),
              (True, [''ip'', ''link'', ''set'', ''up'', ''dev'', iface])]
           @ must (map (\<lambda>route. [''ip'', ''route'', ''replace'', route, ''dev'', iface]) routes)
           @ map (Pair False) (warmWireGuardHub peers))"

section \<open>The manager\<close>

text \<open>Its configuration and what runs its commands: the given runner, or the machine's own.\<close>

record wireguard_manager =
  wm_cfg :: agent_config
  wm_runner :: runner

definition NewWireGuardManager :: "runner \<Rightarrow> agent_config \<Rightarrow> runner option \<Rightarrow> wireguard_manager" where
  "NewWireGuardManager exec_runner cfg run =
     \<lparr>wm_cfg = cfg, wm_runner = (case run of None \<Rightarrow> exec_runner | Some r \<Rightarrow> r)\<rparr>"

datatype tunnel_error = LinuxOnly | PrivateKeyRequired | InterfaceRequired | VirtualIPRequired
  | KeyFileFailed | CommandFailed

definition validateNetworkConfig :: "agent_config \<Rightarrow> network_config \<Rightarrow> tunnel_error option" where
  "validateNetworkConfig cfg network =
     (if ac_WireGuardInterface cfg = '''' then Some InterfaceRequired
      else if d_VirtualIP (nc_Device network) = '''' then Some VirtualIPRequired
      else None)"

definition applyCommands ::
  "runner \<Rightarrow> agent_config \<Rightarrow> network_config \<Rightarrow> string \<Rightarrow> event list \<Rightarrow> tunnel_error option \<times> event list" where
  "applyCommands run cfg network keyFile tr =
     (if ac_WireGuardInterface cfg = '''' then (Some InterfaceRequired, tr)
      else if d_VirtualIP (nc_Device network) = '''' then (Some VirtualIPRequired, tr)
      else (case run_all run (apply_row cfg network keyFile) tr of
              (ok, tr') \<Rightarrow> (if ok then None else Some CommandFailed, tr')))"

definition Apply ::
  "string \<Rightarrow> runner \<Rightarrow> string option \<Rightarrow> agent_config \<Rightarrow> network_config \<Rightarrow> event list \<Rightarrow> tunnel_error option \<times> event list" where
  "Apply goos run tempfile cfg network tr =
     (if ac_WireGuardDryRun cfg then (validateNetworkConfig cfg network, tr)
      else if goos \<noteq> ''linux'' then (Some LinuxOnly, tr)
      else if ac_WireGuardPrivateKey cfg = '''' then (Some PrivateKeyRequired, tr)
      else case tempfile of
        None \<Rightarrow> (Some KeyFileFailed, tr)
      | Some keyFile \<Rightarrow>
          (case applyCommands run cfg network keyFile
                  (tr @ [KeyFile keyFile (ac_WireGuardPrivateKey cfg @ [CHR 0x0A])]) of
             (err, tr') \<Rightarrow> (err, tr' @ [Removed keyFile])))"

definition Destroy ::
  "string \<Rightarrow> runner \<Rightarrow> agent_config \<Rightarrow> event list \<Rightarrow> tunnel_error option \<times> event list" where
  "Destroy goos run cfg tr =
     (if ac_WireGuardInterface cfg = '''' then (Some InterfaceRequired, tr)
      else if ac_WireGuardDryRun cfg then (None, tr)
      else if goos = ''linux'' then
        (case runCommand run [''ip'', ''link'', ''del'', ac_WireGuardInterface cfg] tr of
           (ok, tr') \<Rightarrow> (if ok then None else Some CommandFailed, tr'))
      else (None, tr))"

section \<open>Which peers are configured\<close>

definition is_hub :: "network_peer \<Rightarrow> bool" where
  "is_hub peer \<longleftrightarrow> np_ID peer = ''linkbit-hub''
     \<or> (\<exists>a \<in> set (np_AllowedIPs peer). a \<noteq> '''' \<and> a \<noteq> np_VirtualIP peer @ ''/32'')"

lemma routed_elsewhere_iff: "routed_elsewhere own ips \<longleftrightarrow> (\<exists>a \<in> set ips. a \<noteq> '''' \<and> a \<noteq> own)"
  by (induction ips) auto

lemma hubOnlyPeers_eq: "hubOnlyPeers peers = filter is_hub peers"
  by (induction peers) (auto simp: is_hub_def routed_elsewhere_iff)

lemma chosen_peers_eq:
  "chosen_peers peers = (if \<exists>p \<in> set peers. is_hub p then filter is_hub peers else peers)"
  by (auto simp: chosen_peers_def hasHubPeer_def hubOnlyPeers_eq filter_empty_conv)

definition usable_peer :: "network_peer \<Rightarrow> bool" where
  "usable_peer p \<longleftrightarrow> np_PublicKey p \<noteq> '''' \<and> np_VirtualIP p \<noteq> ''''"

lemma peer_rows_eq:
  "peer_rows iface peers = (concat (map (peer_commands iface) (filter usable_peer peers)),
                            concat (map allowed_ips (filter usable_peer peers)))"
  by (induction peers) (auto simp: usable_peer_def)

text \<open>The peers an application configures: with a hub among them only the hubs.\<close>

definition configured :: "network_config \<Rightarrow> network_peer list" where
  "configured network = filter usable_peer
     (if \<exists>p \<in> set (nc_Peers network). is_hub p then filter is_hub (nc_Peers network) else nc_Peers network)"

lemma peer_rows_configured:
  "peer_rows iface (chosen_peers (nc_Peers network)) =
     (concat (map (peer_commands iface) (configured network)), concat (map allowed_ips (configured network)))"
  by (simp add: peer_rows_eq chosen_peers_eq configured_def)

lemma warm_commands: "c \<in> set (warmWireGuardHub peers) \<Longrightarrow> hd c = ''ping''"
  by (induction peers) (auto split: if_splits)

lemma route_commands:
  "(b, [''ip'', ''route'', ''replace'', r, ''dev'', ac_WireGuardInterface cfg]) \<in> set (apply_row cfg network keyFile)
     \<longleftrightarrow> b \<and> (\<exists>p \<in> set (configured network). r \<in> set (allowed_ips p))"
  by (auto simp: apply_row_def Let_def peer_rows_configured peer_commands_def dest: warm_commands split: if_splits)

section \<open>Properties\<close>

lemma Apply_started:
  assumes "Apply ''linux'' run (Some keyFile) cfg network [] = (err, tr)"
    and "\<not> ac_WireGuardDryRun cfg" and "ac_WireGuardPrivateKey cfg \<noteq> ''''" and "ac_WireGuardInterface cfg \<noteq> ''''"
    and "d_VirtualIP (nc_Device network) \<noteq> ''''"
  obtains ok tr' where "run_all run (apply_row cfg network keyFile) [KeyFile keyFile (ac_WireGuardPrivateKey cfg @ [CHR 0x0A])] = (ok, tr')"
    "tr = tr' @ [Removed keyFile]" "err = (if ok then None else Some CommandFailed)"
  using assms by (auto simp: Apply_def applyCommands_def split: prod.splits)

text \<open>
  C24: Applying a network configuration leaves a definite trace: the private key file is written
  first and removed last on every path, and in between run the commands of the configuration,
  all of them when it succeeds and otherwise those up to the first one that failed and had to
  succeed. After a success the routes are exactly the allowed addresses of the configured peers:
  the usable ones, and only the hubs among them when there is a hub.
\<close>

theorem agent_apply_trace:
  assumes "Apply ''linux'' run (Some keyFile) cfg network [] = (err, tr)"
    and "\<not> ac_WireGuardDryRun cfg" and "ac_WireGuardPrivateKey cfg \<noteq> ''''" and "ac_WireGuardInterface cfg \<noteq> ''''"
    and "d_VirtualIP (nc_Device network) \<noteq> ''''"
    and "start = KeyFile keyFile (ac_WireGuardPrivateKey cfg @ [CHR 0x0A])"
    and "row = apply_row cfg network keyFile"
  shows "(\<exists>n \<le> length row. tr = start # map Ran (take n (map snd row)) @ [Removed keyFile]
            \<and> (if err = None then n = length row
               else err = Some CommandFailed \<and> 0 < n \<and> stops_at run [start] row (n - 1))
            \<and> (\<forall>m < n. stops_at run [start] row m \<longrightarrow> err \<noteq> None \<and> m = n - 1))
       \<and> (err = None \<longrightarrow> (\<forall>r. Ran [''ip'', ''route'', ''replace'', r, ''dev'', ac_WireGuardInterface cfg] \<in> set tr
            \<longleftrightarrow> (\<exists>p \<in> set (configured network). r \<in> set (allowed_ips p))))"
proof -
  obtain ok tr' where r: "run_all run row [start] = (ok, tr')" and tr: "tr = tr' @ [Removed keyFile]"
    and err: "err = (if ok then None else Some CommandFailed)"
    using Apply_started [OF assms(1-5)] assms(6,7) by metis
  from run_all_trace [OF r] obtain n where n: "tr' = [start] @ map Ran (take n (map snd row))" "n \<le> length row"
    "if ok then n = length row \<and> (\<forall>m < n. \<not> stops_at run [start] row m)
     else 0 < n \<and> stops_at run [start] row (n - 1) \<and> (\<forall>m < n - 1. \<not> stops_at run [start] row m)" by blast
  have "\<forall>m < n. stops_at run [start] row m \<longrightarrow> err \<noteq> None \<and> m = n - 1"
  proof (intro allI impI)
    fix m assume m: "m < n" "stops_at run [start] row m"
    show "err \<noteq> None \<and> m = n - 1"
    proof (cases ok)
      case True
      with n(3) m show ?thesis by simp
    next
      case False
      with n(3) have "\<forall>m < n - 1. \<not> stops_at run [start] row m" by simp
      with m have "m = n - 1" using less_antisym [of m "n - 1"] by fastforce
      with False err show ?thesis by simp
    qed
  qed
  moreover have "Ran c \<in> set tr \<longleftrightarrow> (\<exists>b. (b, c) \<in> set row)" if "err = None" for c
  proof -
    from that err n(3) have "n = length row" by (cases ok) simp_all
    then have "tr = [start] @ map Ran (map snd row) @ [Removed keyFile]" using n(1) tr by simp
    then show ?thesis by (auto simp: assms(6) image_iff) force
  qed
  moreover have "tr = start # map Ran (take n (map snd row)) @ [Removed keyFile]"
    using n(1) tr by simp
  moreover have "if err = None then n = length row else err = Some CommandFailed \<and> 0 < n \<and> stops_at run [start] row (n - 1)"
    using n(3) err by (cases ok) simp_all
  moreover have "(\<exists>b. (b, [''ip'', ''route'', ''replace'', r, ''dev'', ac_WireGuardInterface cfg]) \<in> set row)
      \<longleftrightarrow> (\<exists>p \<in> set (configured network). r \<in> set (allowed_ips p))" for r
    unfolding assms(7) route_commands by blast
  ultimately show ?thesis using n(2) by blast
qed

definition demo_agent_config :: agent_config where
  "demo_agent_config = (LoadAgent concat None None (\<lambda>k. ''''))\<lparr>ac_WireGuardPrivateKey := ''key''\<rparr>"

definition demo_peer :: "string \<Rightarrow> string \<Rightarrow> string list \<Rightarrow> network_peer" where
  "demo_peer pid ip ips = \<lparr>np_ID = pid, np_Name = pid, np_VirtualIP = ip, np_PublicKey = ''pk'',
     np_Endpoint = '''', np_AllowedIPs = ips\<rparr>"

definition demo_network :: "network_peer list \<Rightarrow> network_config" where
  "demo_network peers = \<lparr>nc_Device = empty_device\<lparr>d_VirtualIP := ''10.88.1.2''\<rparr>, nc_Peers = peers,
     nc_Policies = [], nc_Relays = []\<rparr>"

theorem agent_apply_trace_witness:
  "Ran [''ip'', ''route'', ''replace'', ''10.88.3.4/32'', ''dev'', ''linkbit0'']
     \<in> set (snd (Apply ''linux'' (\<lambda>tr c. True) (Some ''/tmp/k'') demo_agent_config
                  (demo_network [demo_peer ''d2'' ''10.88.3.4'' []]) []))"
proof -
  let ?net = "demo_network [demo_peer ''d2'' ''10.88.3.4'' []]"
  obtain err tr where a: "Apply ''linux'' (\<lambda>tr c. True) (Some ''/tmp/k'') demo_agent_config ?net [] = (err, tr)"
    by fastforce
  have c: "\<not> ac_WireGuardDryRun demo_agent_config" "ac_WireGuardPrivateKey demo_agent_config \<noteq> ''''"
    "ac_WireGuardInterface demo_agent_config = ''linkbit0''" "d_VirtualIP (nc_Device ?net) \<noteq> ''''"
    by (simp_all add: demo_agent_config_def LoadAgent_def getenvBool_def getenv_def Let_def demo_network_def)
  have ok: "err = None"
    by (rule Apply_started [OF a c(1,2)]) (use c in auto)
  have cf: "configured ?net = [demo_peer ''d2'' ''10.88.3.4'' []]"
    by (simp add: configured_def demo_network_def demo_peer_def is_hub_def usable_peer_def)
  from cf have "\<exists>p \<in> set (configured ?net). ''10.88.3.4/32'' \<in> set (allowed_ips p)"
    by (simp add: allowed_ips_def demo_peer_def)
  with ok have "Ran [''ip'', ''route'', ''replace'', ''10.88.3.4/32'', ''dev'', ''linkbit0''] \<in> set tr"
    using agent_apply_trace [OF a c(1,2) _ c(4) refl refl, unfolded c(3)] by blast
  then show ?thesis by (simp only: a snd_conv)
qed

end
