(* ===== verification/Agent_Client.thy ===== *)
theory Agent_Client
  imports Models Go_Net
begin

text \<open>
  internal/agent/client.go, internal/agent/health.go and the two JSON calls of
  internal/agent/tcp_relay.go: the agent's HTTP client. A call builds a request, hands it to the
  transport (an argument: the controller's answer, or None when the request could not be built,
  sent or answered) and reads the reply, which carries what \<open>encoding/json\<close> decodes its body to
  for each type the client asks for.
\<close>

section \<open>Requests and replies\<close>

datatype request_body = NoBody | HealthBody device_health_report | RegisterBody device_registration_request
  | SessionBody tcp_relay_session_request | RelayBody relay_node

record http_request =
  hr_method :: string
  hr_url :: string
  hr_headers :: "(string \<times> string) list"
  hr_body :: request_body

record http_reply =
  hp_status :: nat
  hp_device :: "device option"
  hp_config :: "network_config option"
  hp_registration :: "device_registration_response option"
  hp_session :: "tcp_relay_session option"
  hp_sessions :: "tcp_relay_session list option"

type_synonym transport = "http_request \<Rightarrow> http_reply option"

datatype client_error = FieldsRequired | RequestFailed | BadStatus nat | BadReply

definition read_reply :: "(http_reply \<Rightarrow> 'a option) \<Rightarrow> http_reply option \<Rightarrow> client_error + 'a" where
  "read_reply get resp =
     (case resp of
        None \<Rightarrow> Inl RequestFailed
      | Some r \<Rightarrow>
          if hp_status r < 200 \<or> hp_status r > 299 then Inl (BadStatus (hp_status r))
          else case get r of None \<Rightarrow> Inl BadReply | Some out \<Rightarrow> Inr out)"

section \<open>The client\<close>

record http_client =
  hc_controllerURL :: string
  hc_publicKey :: string
  hc_fingerprint :: string
  hc_endpoint :: string
  hc_deviceID :: string
  hc_deviceToken :: string

definition NewHTTPRegistrationClient :: "string \<Rightarrow> string \<Rightarrow> string \<Rightarrow> string \<Rightarrow> http_client" where
  "NewHTTPRegistrationClient controllerURL publicKey fingerprint endpoint =
     \<lparr>hc_controllerURL = trim_right controllerURL ''/'', hc_publicKey = publicKey,
      hc_fingerprint = fingerprint, hc_endpoint = endpoint, hc_deviceID = '''', hc_deviceToken = ''''\<rparr>"

definition SetDeviceCredentials :: "string \<Rightarrow> string \<Rightarrow> http_client \<Rightarrow> http_client" where
  "SetDeviceCredentials deviceID deviceToken c = c\<lparr>hc_deviceID := deviceID, hc_deviceToken := deviceToken\<rparr>"

definition health_request :: "http_client \<Rightarrow> device_health_report \<Rightarrow> http_request" where
  "health_request c report =
     \<lparr>hr_method = ''POST'', hr_url = hc_controllerURL c @ ''/api/v1/devices/'' @ hc_deviceID c @ ''/health'',
      hr_headers = [(''Content-Type'', ''application/json''), (''X-Linkbit-Device-Token'', hc_deviceToken c)],
      hr_body = HealthBody report\<rparr>"

definition ReportHealth :: "transport \<Rightarrow> device_health_report \<Rightarrow> http_client \<Rightarrow> client_error + device" where
  "ReportHealth send report c =
     (if hc_controllerURL c = '''' \<or> hc_deviceID c = '''' \<or> hc_deviceToken c = '''' then Inl FieldsRequired
      else read_reply hp_device (send (health_request c report)))"

definition config_request :: "http_client \<Rightarrow> http_request" where
  "config_request c =
     \<lparr>hr_method = ''GET'', hr_url = hc_controllerURL c @ ''/api/v1/devices/'' @ hc_deviceID c @ ''/network-config'',
      hr_headers = [(''X-Linkbit-Device-Token'', hc_deviceToken c)], hr_body = NoBody\<rparr>"

definition GetNetworkConfig :: "transport \<Rightarrow> http_client \<Rightarrow> client_error + network_config" where
  "GetNetworkConfig send c =
     (if hc_controllerURL c = '''' \<or> hc_deviceID c = '''' \<or> hc_deviceToken c = '''' then Inl FieldsRequired
      else read_reply hp_config (send (config_request c)))"

definition register_request :: "http_client \<Rightarrow> string \<Rightarrow> string \<Rightarrow> http_request" where
  "register_request c enrollmentKey deviceName =
     \<lparr>hr_method = ''POST'', hr_url = hc_controllerURL c @ ''/api/v1/devices/register'',
      hr_headers = [(''Content-Type'', ''application/json'')],
      hr_body = RegisterBody \<lparr>drr_EnrollmentKey = enrollmentKey, drr_Name = deviceName,
        drr_PublicKey = hc_publicKey c, drr_Fingerprint = hc_fingerprint c, drr_Endpoint = hc_endpoint c\<rparr>\<rparr>"

definition Register ::
  "transport \<Rightarrow> string \<Rightarrow> string \<Rightarrow> http_client \<Rightarrow> (client_error + device_registration_response) \<times> http_client" where
  "Register send enrollmentKey deviceName c =
     (if hc_controllerURL c = '''' then (Inl FieldsRequired, c)
      else case read_reply hp_registration (send (register_request c enrollmentKey deviceName)) of
        Inl e \<Rightarrow> (Inl e, c)
      | Inr out \<Rightarrow> (Inr out, c\<lparr>hc_deviceID := d_ID (resp_Device out),
          hc_deviceToken := d_DeviceToken (resp_Device out)\<rparr>))"

section \<open>Relay calls\<close>

text \<open>\<open>url.QueryEscape\<close> and \<open>url.PathEscape\<close>.\<close>

definition unreserved :: "char \<Rightarrow> bool" where
  "unreserved c \<longleftrightarrow> c \<in> set ''ABCDEFGHIJKLMNOPQRSTUVWXYZabcdefghijklmnopqrstuvwxyz0123456789-_.~''"

definition hex_digit :: "nat \<Rightarrow> char" where
  "hex_digit n = ''0123456789ABCDEF'' ! n"

definition percent :: "char \<Rightarrow> string" where
  "percent c = [CHR ''%'', hex_digit (of_char c div 16), hex_digit (of_char c mod 16)]"

definition query_escape :: "string \<Rightarrow> string" where
  "query_escape s = concat (map (\<lambda>c. if unreserved c then [c] else if c = CHR '' '' then ''+'' else percent c) s)"

definition path_escape :: "string \<Rightarrow> string" where
  "path_escape s = concat (map (\<lambda>c. if unreserved c \<or> c \<in> set ''$&+:=@'' then [c] else percent c) s)"

definition session_request :: "http_client \<Rightarrow> tcp_relay_session_request \<Rightarrow> http_request" where
  "session_request c req =
     \<lparr>hr_method = ''POST'', hr_url = hc_controllerURL c @ ''/api/v1/relay/sessions'',
      hr_headers = [(''Content-Type'', ''application/json''), (''X-Linkbit-Device-Token'', hc_deviceToken c)],
      hr_body = SessionBody (if tsr_SourceDeviceID req = '''' then req\<lparr>tsr_SourceDeviceID := hc_deviceID c\<rparr> else req)\<rparr>"

definition CreateRelaySession ::
  "transport \<Rightarrow> tcp_relay_session_request \<Rightarrow> http_client \<Rightarrow> client_error + tcp_relay_session" where
  "CreateRelaySession send req c = read_reply hp_session (send (session_request c req))"

definition pending_request :: "http_client \<Rightarrow> http_request" where
  "pending_request c =
     \<lparr>hr_method = ''GET'',
      hr_url = hc_controllerURL c @ ''/api/v1/relay/sessions/pending?wait=25&deviceId='' @ query_escape (hc_deviceID c),
      hr_headers = [(''X-Linkbit-Device-Token'', hc_deviceToken c)], hr_body = NoBody\<rparr>"

definition PendingRelaySessions :: "transport \<Rightarrow> http_client \<Rightarrow> client_error + tcp_relay_session list" where
  "PendingRelaySessions send c =
     (if hc_deviceID c = '''' \<or> hc_deviceToken c = '''' then Inl FieldsRequired
      else read_reply hp_sessions (send (pending_request c)))"

section \<open>Health reports\<close>

text \<open>
  The reporter shares the service's client by pointer, so a report reads the credentials the
  client has at that time: the client is an argument, \<open>rep_client\<close> says whether there is one.
\<close>

record health_reporter =
  rep_client :: bool
  rep_endpoint :: string

definition NewControllerHealthReporter :: "bool \<Rightarrow> string list \<Rightarrow> health_reporter" where
  "NewControllerHealthReporter has_client endpoint =
     \<lparr>rep_client = has_client, rep_endpoint = (if length endpoint > 0 then endpoint ! 0 else '''')\<rparr>"

definition online_report :: "string \<Rightarrow> device_health_report" where
  "online_report endpoint = \<lparr>dhr_Status = DeviceStatusOnline, dhr_LatencyMS = 0, dhr_PeersReachable = 0,
     dhr_PeersTotal = 0, dhr_Endpoint = endpoint\<rparr>"

definition CheckAndReport ::
  "transport \<Rightarrow> http_client \<Rightarrow> device_registration_response \<Rightarrow> health_reporter \<Rightarrow> client_error option" where
  "CheckAndReport send c registration r =
     (if \<not> rep_client r \<or> d_ID (resp_Device registration) = '''' then None
      else case ReportHealth send (online_report (rep_endpoint r)) c of
        Inl e \<Rightarrow> Some e
      | Inr _ \<Rightarrow> None)"

end
