(* ===== verification/Relay_Stream.thy ===== *)
theory Relay_Stream
  imports Agent_Client Go_IP
begin

text \<open>
  The byte-level half of internal/agent/tcp_relay.go: parsing a forward target, dialing the
  controller, the upgrade of the connection to a raw stream and the reads after it. Dialing,
  the TLS handshake, the write of the request and what the controller sends back are arguments.
\<close>

section \<open>Forward targets\<close>

datatype target_parse_error = BadAddress addr_error | PortRange | HostRequired

definition ParseRelayTarget :: "string \<Rightarrow> target_parse_error + string \<times> int" where
  "ParseRelayTarget value =
     (case split_host_port value of
        Inl e \<Rightarrow> Inl (BadAddress e)
      | Inr (host, portValue) \<Rightarrow>
          (case atoi portValue of
             None \<Rightarrow> Inl PortRange
           | Some port \<Rightarrow>
               if port < 1 \<or> port > 65535 then Inl PortRange
               else if host = '''' then Inl HostRequired
               else Inr (host, port)))"

section \<open>The upgrade\<close>

datatype conn_state = NotDialed | ConnOpen | ConnClosed

datatype stream_error = CredentialsMissing | BadURL | DialFailed | HandshakeFailed | WriteError
  | ReadError | UpgradeRefused string

record relay_net =
  rn_dial :: "string \<Rightarrow> bool"
  rn_handshake :: "string \<Rightarrow> bool"
  rn_write :: "string \<Rightarrow> bool"
  rn_bytes :: string
  rn_ahead :: nat

text \<open>The connection after the upgrade: bytes the reader already took, and the rest.\<close>

record buffered_conn =
  bc_buffered :: string
  bc_rest :: string

definition crlf :: string where "crlf = [CHR 0x0D, CHR 0x0A]"

fun read_line :: "string \<Rightarrow> (string \<times> string) option" where
  "read_line [] = None"
| "read_line (c # cs) =
     (if c = CHR 0x0A then Some ([c], cs)
      else case read_line cs of None \<Rightarrow> None | Some (line, rest) \<Rightarrow> Some (c # line, rest))"

lemma read_line_shorter: "read_line s = Some (line, rest) \<Longrightarrow> length rest < length s"
  by (induction s arbitrary: line) (fastforce split: if_splits option.splits)+

function skip_headers :: "string \<Rightarrow> string option" where
  "skip_headers s =
     (case read_line s of
        None \<Rightarrow> None
      | Some (line, rest) \<Rightarrow> if line = crlf then Some rest else skip_headers rest)"
  by pat_completeness auto

termination
  by (relation "measure length") (auto dest: read_line_shorter)

declare skip_headers.simps [simp del]

definition read_upgrade :: "string \<Rightarrow> stream_error + string" where
  "read_upgrade s =
     (case read_line s of
        None \<Rightarrow> Inl ReadError
      | Some (statusLine, rest) \<Rightarrow>
          if \<not> contains_string statusLine ''101'' then Inl (UpgradeRefused (trim_space statusLine))
          else case skip_headers rest of None \<Rightarrow> Inl ReadError | Some stream \<Rightarrow> Inr stream)"

definition dial_address :: "string \<Rightarrow> string \<Rightarrow> string" where
  "dial_address scheme host =
     (if CHR '':'' \<notin> set host
      then (if scheme = ''https'' then join_host_port host ''443'' else join_host_port host ''80'')
      else host)"

definition upgrade_request :: "http_client \<Rightarrow> string \<Rightarrow> string \<Rightarrow> string" where
  "upgrade_request c requestPath host =
     ''GET '' @ requestPath @ '' HTTP/1.1'' @ crlf @ ''Host: '' @ host @ crlf @ ''Connection: Upgrade'' @ crlf
     @ ''Upgrade: linkbit-relay'' @ crlf @ ''X-Linkbit-Device-ID: '' @ hc_deviceID c @ crlf
     @ ''X-Linkbit-Device-Token: '' @ hc_deviceToken c @ crlf @ crlf"

definition dialRelayUpgrade ::
  "url_parser \<Rightarrow> relay_net \<Rightarrow> string \<Rightarrow> http_client \<Rightarrow> (stream_error + buffered_conn) \<times> conn_state" where
  "dialRelayUpgrade url_parse net requestPath c =
     (if hc_controllerURL c = '''' \<or> hc_deviceID c = '''' \<or> hc_deviceToken c = ''''
      then (Inl CredentialsMissing, NotDialed)
      else case url_parse (hc_controllerURL c) of
        None \<Rightarrow> (Inl BadURL, NotDialed)
      | Some (scheme, host) \<Rightarrow>
          if \<not> rn_dial net (dial_address scheme host) then (Inl DialFailed, NotDialed)
          else if scheme = ''https'' \<and> \<not> rn_handshake net (fst (url_host_port host))
          then (Inl HandshakeFailed, ConnClosed)
          else if \<not> rn_write net (upgrade_request c requestPath host) then (Inl WriteError, ConnClosed)
          else (case read_upgrade (rn_bytes net) of
                  Inl e \<Rightarrow> (Inl e, ConnClosed)
                | Inr stream \<Rightarrow> (Inr \<lparr>bc_buffered = take (rn_ahead net) stream,
                    bc_rest = drop (rn_ahead net) stream\<rparr>, ConnOpen)))"

definition AttachRelayClient ::
  "url_parser \<Rightarrow> relay_net \<Rightarrow> string \<Rightarrow> http_client \<Rightarrow> (stream_error + buffered_conn) \<times> conn_state" where
  "AttachRelayClient url_parse net sessionID c = dialRelayUpgrade url_parse net
     (''/api/v1/relay/client/'' @ path_escape sessionID @ ''?sourceDeviceId='' @ query_escape (hc_deviceID c)) c"

definition AttachRelayAgent ::
  "url_parser \<Rightarrow> relay_net \<Rightarrow> string \<Rightarrow> http_client \<Rightarrow> (stream_error + buffered_conn) \<times> conn_state" where
  "AttachRelayAgent url_parse net sessionID c = dialRelayUpgrade url_parse net
     (''/api/v1/relay/agent/'' @ path_escape sessionID @ ''?deviceId='' @ query_escape (hc_deviceID c)) c"

text \<open>
  A read into a buffer of \<open>n\<close> bytes: from the reader while it holds bytes, else from the
  connection, which gives at most \<open>m\<close> bytes at a time.
\<close>

definition Read :: "nat \<Rightarrow> nat \<Rightarrow> buffered_conn \<Rightarrow> string \<times> buffered_conn" where
  "Read n m c =
     (if length (bc_buffered c) > 0
      then (take n (bc_buffered c), c\<lparr>bc_buffered := drop n (bc_buffered c)\<rparr>)
      else (take (min n m) (bc_rest c), c\<lparr>bc_rest := drop (min n m) (bc_rest c)\<rparr>))"

fun reads :: "(nat \<times> nat) list \<Rightarrow> buffered_conn \<Rightarrow> string \<times> buffered_conn" where
  "reads [] c = ('''', c)"
| "reads ((n, m) # ops) c =
     (case Read n m c of (out, c') \<Rightarrow> case reads ops c' of (out', c'') \<Rightarrow> (out @ out', c''))"

text \<open>What the controller writes when it hands over a connection.\<close>

definition upgrade_answer :: string where
  "upgrade_answer = ''HTTP/1.1 101 Switching Protocols'' @ crlf @ ''Connection: Upgrade'' @ crlf
     @ ''Upgrade: linkbit-relay'' @ crlf @ crlf"

section \<open>Properties\<close>

lemma read_line_append: "CHR 0x0A \<notin> set l \<Longrightarrow> read_line (l @ CHR 0x0A # rest) = Some (l @ [CHR 0x0A], rest)"
  by (induction l) auto

lemma read_line_crlf:
  "CHR 0x0A \<notin> set l \<Longrightarrow> read_line (l @ crlf @ rest) = Some (l @ crlf, rest)"
  using read_line_append [of "l @ [CHR 0x0D]" rest] by (simp add: crlf_def)

lemma read_upgrade_answer: "read_upgrade (upgrade_answer @ stream) = Inr stream"
proof -
  have r: "read_line (upgrade_answer @ stream) = Some (''HTTP/1.1 101 Switching Protocols'' @ crlf,
      ''Connection: Upgrade'' @ crlf @ ''Upgrade: linkbit-relay'' @ crlf @ crlf @ stream)"
    using read_line_crlf [of "''HTTP/1.1 101 Switching Protocols''"] by (simp add: upgrade_answer_def)
  have c: "contains_string (''HTTP/1.1 101 Switching Protocols'' @ crlf) ''101''"
    using contains_middle [of "''HTTP/1.1 ''" "''101''" "'' Switching Protocols'' @ crlf"] by simp
  have n: "''Connection: Upgrade'' @ crlf \<noteq> crlf" "''Upgrade: linkbit-relay'' @ crlf \<noteq> crlf" by (simp_all add: crlf_def)
  have "skip_headers (''Connection: Upgrade'' @ crlf @ ''Upgrade: linkbit-relay'' @ crlf @ crlf @ stream) = Some stream"
    using read_line_crlf [of "''Connection: Upgrade''"] read_line_crlf [of "''Upgrade: linkbit-relay''"]
      read_line_crlf [of "[]"] n
    by (simp add: skip_headers.simps)
  with r c show ?thesis by (simp add: read_upgrade_def)
qed

definition unread :: "buffered_conn \<Rightarrow> string" where
  "unread c = bc_buffered c @ bc_rest c"

lemma Read_in_order: "Read n m c = (out, c') \<Longrightarrow> out @ unread c' = unread c"
  by (auto simp: Read_def unread_def split: if_splits)

lemma reads_in_order: "reads ops c = (out, c') \<Longrightarrow> out @ unread c' = unread c"
proof (induction ops arbitrary: c out c')
  case Nil
  then show ?case by simp
next
  case (Cons op ops)
  obtain n m where op: "op = (n, m)" by fastforce
  obtain o1 c1 where r: "Read n m c = (o1, c1)" by fastforce
  obtain o2 where s: "reads ops c1 = (o2, c')" "out = o1 @ o2"
    using Cons.prems op r by (auto split: prod.splits)
  then show ?case using Cons.IH [OF s(1)] Read_in_order [OF r] by simp
qed

lemma open_iff_connected:
  "snd (dialRelayUpgrade url_parse net path c) = ConnOpen \<longleftrightarrow> (\<exists>conn. fst (dialRelayUpgrade url_parse net path c) = Inr conn)"
  by (simp add: dialRelayUpgrade_def split: option.splits prod.splits sum.splits)

text \<open>
  C29: The relay stream starts right after the controller's upgrade answer and loses nothing: when
  the controller answers an attachment with its 101 answer followed by the relayed bytes, the
  agent gets a connection, and however much of those bytes its reader had already taken and
  whatever the sizes of the reads, they come out in order and exactly once. A connection is kept
  open exactly when one is returned.
\<close>

theorem upgrade_stream_exact:
  assumes "hc_controllerURL c \<noteq> ''''" and "hc_deviceID c \<noteq> ''''" and "hc_deviceToken c \<noteq> ''''"
    and "url_parse (hc_controllerURL c) = Some (scheme, host)" and "rn_dial net (dial_address scheme host)"
    and "scheme = ''https'' \<longrightarrow> rn_handshake net (fst (url_host_port host))"
    and "rn_write net (upgrade_request c path host)" and "rn_bytes net = upgrade_answer @ stream"
  shows "(\<exists>conn. dialRelayUpgrade url_parse net path c = (Inr conn, ConnOpen)
            \<and> (\<forall>ops out conn'. reads ops conn = (out, conn') \<longrightarrow> out @ unread conn' = stream))
       \<and> (\<forall>net' path'. snd (dialRelayUpgrade url_parse net' path' c) = ConnOpen
            \<longleftrightarrow> (\<exists>conn. fst (dialRelayUpgrade url_parse net' path' c) = Inr conn))"
proof -
  let ?conn = "\<lparr>bc_buffered = take (rn_ahead net) stream, bc_rest = drop (rn_ahead net) stream\<rparr>"
  have "dialRelayUpgrade url_parse net path c = (Inr ?conn, ConnOpen)"
    using assms by (simp add: dialRelayUpgrade_def read_upgrade_answer)
  moreover have "unread ?conn = stream" by (simp add: unread_def)
  ultimately show ?thesis using reads_in_order open_iff_connected by metis
qed

definition demo_client :: http_client where
  "demo_client = SetDeviceCredentials ''d1'' ''t1'' (NewHTTPRegistrationClient ''https://c.example/'' ''pk'' ''fp'' '''')"

theorem upgrade_stream_exact_witness:
  "\<exists>conn. fst (AttachRelayAgent (\<lambda>u. Some (''https'', ''c.example''))
      \<lparr>rn_dial = (\<lambda>a. True), rn_handshake = (\<lambda>n. True), rn_write = (\<lambda>s. True),
       rn_bytes = upgrade_answer @ ''abcdef'', rn_ahead = 4\<rparr> ''s1'' demo_client) = Inr conn
     \<and> fst (reads [(3, 8), (3, 8), (3, 8)] conn) = ''abcdef''"
proof -
  let ?net = "\<lparr>rn_dial = (\<lambda>a. True), rn_handshake = (\<lambda>n. True), rn_write = (\<lambda>s. True),
       rn_bytes = upgrade_answer @ ''abcdef'', rn_ahead = 4\<rparr>"
  let ?url = "\<lambda>u. Some (''https'', ''c.example'')"
  have c: "hc_controllerURL demo_client \<noteq> ''''" "hc_deviceID demo_client \<noteq> ''''" "hc_deviceToken demo_client \<noteq> ''''"
    by (simp_all add: demo_client_def SetDeviceCredentials_def NewHTTPRegistrationClient_def trim_right_def)
  obtain conn where d: "dialRelayUpgrade ?url ?net
      (''/api/v1/relay/agent/'' @ path_escape ''s1'' @ ''?deviceId='' @ query_escape (hc_deviceID demo_client)) demo_client
        = (Inr conn, ConnOpen)"
    and r: "\<And>ops out conn'. reads ops conn = (out, conn') \<Longrightarrow> out @ unread conn' = ''abcdef''"
    using upgrade_stream_exact [OF c, of ?url "''https''" "''c.example''" ?net _ "''abcdef''"] by force
  have "conn = \<lparr>bc_buffered = ''abcd'', bc_rest = ''ef''\<rparr>"
    using d by (simp add: dialRelayUpgrade_def c read_upgrade_answer)
  then have "reads [(3, 8), (3, 8), (3, 8)] conn = (''abcdef'', \<lparr>bc_buffered = '''', bc_rest = ''''\<rparr>)"
    by (simp add: Read_def)
  with d r show ?thesis by (intro exI [of _ conn]) (simp add: AttachRelayAgent_def)
qed

lemma split_bracketed_host:
  assumes "CHR '':'' \<in> set v6" and "CHR '']'' \<notin> set v6"
  shows "split_host_port (CHR ''['' # v6 @ '']'') = Inl MissingPort"
proof -
  let ?hp = "CHR ''['' # v6 @ '']''"
  obtain i where "last_index_byte ?hp CHR '':'' = Some i"
    using assms(1) last_index_byte_None_iff [of ?hp "CHR '':''"] by fastforce
  moreover have "index_byte ?hp CHR '']'' = Some (length v6 + 1)"
    using index_byte_append [of "CHR '']''" "CHR ''['' # v6" "[]"] assms(2) by simp
  ultimately show ?thesis by (simp add: split_host_port_def)
qed

text \<open>
  The agent dials the controller of its URL: a host without a port gets the port of the
  scheme and a host with a port is used as it is. An IPv6 host without a port is not handled: the
  address has no port and cannot be dialed, so the TCP relay never works for such a controller.
\<close>

theorem relay_dial_address:
  assumes "CHR '':'' \<notin> set name" and "CHR ''['' \<notin> set name" and "CHR '']'' \<notin> set name"
    and "CHR '':'' \<notin> set port" and "CHR ''['' \<notin> set port" and "CHR '']'' \<notin> set port"
    and "CHR '':'' \<in> set v6" and "CHR '']'' \<notin> set v6"
  shows "split_host_port (dial_address scheme name) = Inr (name, if scheme = ''https'' then ''443'' else ''80'')
       \<and> split_host_port (dial_address scheme (name @ CHR '':'' # port)) = Inr (name, port)
       \<and> split_host_port (dial_address scheme (CHR ''['' # v6 @ '']'')) = Inl MissingPort"
  using assms split_join_host_port [of name "''443''"] split_join_host_port [of name "''80''"]
    split_join_host_port [of name port] split_bracketed_host [of v6]
  by (simp add: dial_address_def) (simp add: join_host_port_def)

theorem relay_dial_address_witness:
  "split_host_port (dial_address ''https'' ''[::1]'') = Inl MissingPort"
  using relay_dial_address [of "''c.example''" "''8443''" "''::1''" "''https''"] by simp

text \<open>
  A forward target is accepted exactly when it is an address with a non-empty host and a port
  from 1 to 65535, and joining an accepted target again gives an address that parses to the same
  host and port.
\<close>

theorem ParseRelayTarget_roundtrip:
  "(ParseRelayTarget value = Inr (host, port) \<longleftrightarrow>
      host \<noteq> '''' \<and> 1 \<le> port \<and> port \<le> 65535
      \<and> (\<exists>p. split_host_port value = Inr (host, p) \<and> atoi p = Some port))
   \<and> (ParseRelayTarget value = Inr (host, port) \<longrightarrow>
      ParseRelayTarget (join_host_port host (itoa port)) = Inr (host, port))"
proof (rule conjI [OF _ impI])
  show e: "ParseRelayTarget value = Inr (host, port) \<longleftrightarrow>
      host \<noteq> '''' \<and> 1 \<le> port \<and> port \<le> 65535
      \<and> (\<exists>p. split_host_port value = Inr (host, p) \<and> atoi p = Some port)"
    by (auto simp: ParseRelayTarget_def split: sum.splits option.splits if_splits)
  assume "ParseRelayTarget value = Inr (host, port)"
  then obtain p where s: "split_host_port value = Inr (host, p)"
    and r: "1 \<le> port" "port \<le> 65535" "host \<noteq> ''''" using e by blast
  have i: "itoa port = dec_string (nat port)" using r by (simp add: itoa_def)
  have "split_host_port (join_host_port host (itoa port)) = Inr (host, itoa port)"
    using split_host_port_InrD [OF s] by (intro split_join_host_port) (simp_all add: i)
  moreover have "atoi (itoa port) = Some port" using r by (intro atoi_itoa) auto
  ultimately show "ParseRelayTarget (join_host_port host (itoa port)) = Inr (host, port)"
    using r by (simp add: ParseRelayTarget_def)
qed

theorem ParseRelayTarget_roundtrip_witness:
  "ParseRelayTarget (join_host_port ''fe80::1'' (itoa 22)) = Inr (''fe80::1'', 22)"
proof -
  have s: "split_host_port ''[fe80::1]:22'' = Inr (''fe80::1'', ''22'')"
    using split_join_host_port [of "''fe80::1''" "''22''"] by (simp add: join_host_port_def)
  have a: "atoi ''22'' = Some 22" unfolding atoi_def by (simp add: digit_of_def)
  have "ParseRelayTarget ''[fe80::1]:22'' = Inr (''fe80::1'', 22)" by (simp add: ParseRelayTarget_def s a)
  with ParseRelayTarget_roundtrip [of "''[fe80::1]:22''" "''fe80::1''" 22] show ?thesis by blast
qed

end
