(* ===== verification/Agent_Relay.thy ===== *)
theory Agent_Relay
  imports Relay_Stream Broker_Props
begin

text \<open>
  The two ends of the TCP relay in internal/agent/tcp_relay.go: the target, which polls the
  controller for sessions and serves each of them in a goroutine of its own, and the forwarder,
  which opens a session per accepted connection. Polls, local dials and attachments are
  arguments. The goroutines are the steps of \<open>tstep\<close>: the polling loop marks one session at a
  time under the lock, a handler clears its mark when it ends, in any interleaving. Copying
  bytes between connections is the subject of \<open>Relay_Proxy\<close>.
\<close>

section \<open>The target\<close>

record relay_target =
  tg_poll :: int
  tg_active :: "string list"

definition NewTCPRelayTarget :: "int \<Rightarrow> relay_target" where
  "NewTCPRelayTarget poll = \<lparr>tg_poll = (if poll \<le> 0 then 2 * second else poll), tg_active = []\<rparr>"

definition markActive :: "string \<Rightarrow> relay_target \<Rightarrow> bool \<times> relay_target" where
  "markActive sid t =
     (if sid \<in> set (tg_active t) then (False, t) else (True, t\<lparr>tg_active := sid # tg_active t\<rparr>))"

definition clearActive :: "string \<Rightarrow> relay_target \<Rightarrow> relay_target" where
  "clearActive sid t = t\<lparr>tg_active := removeAll sid (tg_active t)\<rparr>"

text \<open>One pass over the polled sessions; the ones a handler is started for.\<close>

fun start_handlers :: "tcp_relay_session list \<Rightarrow> relay_target \<Rightarrow> tcp_relay_session list \<times> relay_target" where
  "start_handlers [] t = ([], t)"
| "start_handlers (session # sessions) t =
     (case markActive (ts_ID session) t of
        (False, t') \<Rightarrow> start_handlers sessions t'
      | (True, t') \<Rightarrow> (case start_handlers sessions t' of (started, t'') \<Rightarrow> (session # started, t'')))"

definition check ::
  "client_error + tcp_relay_session list \<Rightarrow> relay_target \<Rightarrow> (client_error + tcp_relay_session list) \<times> relay_target" where
  "check polled t =
     (case polled of
        Inl e \<Rightarrow> (Inl e, t)
      | Inr sessions \<Rightarrow> (case start_handlers sessions t of (started, t') \<Rightarrow> (Inr started, t')))"

datatype handle_error = InvalidPort | LocalDialFailed | AttachFailed stream_error

definition handle ::
  "(string \<Rightarrow> bool) \<Rightarrow> (string \<Rightarrow> stream_error + buffered_conn) \<Rightarrow> tcp_relay_session \<Rightarrow> handle_error + buffered_conn" where
  "handle dial attach_agent session =
     (if ts_TargetPort session < 1 \<or> ts_TargetPort session > 65535 then Inl InvalidPort
      else if \<not> dial (join_host_port ''127.0.0.1'' (itoa (ts_TargetPort session))) then Inl LocalDialFailed
      else case attach_agent (ts_ID session) of Inl e \<Rightarrow> Inl (AttachFailed e) | Inr relay \<Rightarrow> Inr relay)"

text \<open>
  The polling loop: one round is a poll, the handlers that ended since the last one, and whether
  the context is done at the end of it. What it does is the sleeps and the started sessions.
\<close>

record poll_round =
  pr_ended :: "string list"
  pr_poll :: "client_error + tcp_relay_session list"
  pr_done :: bool

datatype target_action = Slept int | Started tcp_relay_session | Returned

fun target_run :: "poll_round list \<Rightarrow> relay_target \<Rightarrow> target_action list" where
  "target_run [] t = []"
| "target_run (r # rs) t =
     (case check (pr_poll r) (foldr clearActive (pr_ended r) t) of
        (Inl _, t') \<Rightarrow> if pr_done r then [Returned] else Slept (tg_poll t') # target_run rs t'
      | (Inr started, t') \<Rightarrow>
          map Started started @ (if pr_done r then [Returned] else target_run rs t'))"

section \<open>The forwarder\<close>

text \<open>A forwarder around a client, with the given logger or the default one.\<close>

record ('c, 'l) tcp_forwarder =
  tf_client :: 'c
  tf_logger :: 'l

definition NewTCPForwarder :: "'l \<Rightarrow> 'c \<Rightarrow> 'l option \<Rightarrow> ('c, 'l) tcp_forwarder" where
  "NewTCPForwarder default_logger client logger =
     \<lparr>tf_client = client, tf_logger = (case logger of None \<Rightarrow> default_logger | Some l \<Rightarrow> l)\<rparr>"

datatype forward_error = ListenAddrRequired | TargetPortRequired | ListenFailed | ContextDone | AcceptFailed

definition forward_handle ::
  "(tcp_relay_session_request \<Rightarrow> client_error + tcp_relay_session) \<Rightarrow> (string \<Rightarrow> stream_error + buffered_conn) \<Rightarrow>
   string \<Rightarrow> int \<Rightarrow> string \<Rightarrow> buffered_conn option" where
  "forward_handle create attach_client target targetPort sourceDeviceID =
     (case create \<lparr>tsr_SourceDeviceID = sourceDeviceID, tsr_Target = target,
                   tsr_TargetPort = targetPort, tsr_Protocol = ''tcp''\<rparr> of
        Inl _ \<Rightarrow> None
      | Inr session \<Rightarrow> (case attach_client (ts_ID session) of Inl _ \<Rightarrow> None | Inr relay \<Rightarrow> Some relay))"

text \<open>Each result of \<open>Accept\<close>, with whether the context was done; how many connections were handed on.\<close>

fun accept_loop :: "(bool \<times> bool) list \<Rightarrow> nat \<Rightarrow> forward_error option \<times> nat" where
  "accept_loop [] n = (None, n)"
| "accept_loop ((accepted, ctx_done) # rest) n =
     (if \<not> accepted then (Some (if ctx_done then ContextDone else AcceptFailed), n)
      else accept_loop rest (Suc n))"

definition ListenAndServe ::
  "(string \<Rightarrow> bool) \<Rightarrow> (bool \<times> bool) list \<Rightarrow> string \<Rightarrow> string \<Rightarrow> int \<Rightarrow> forward_error option \<times> nat" where
  "ListenAndServe listen accepts listenAddr target targetPort =
     (if listenAddr = '''' then (Some ListenAddrRequired, 0)
      else if target = '''' \<or> targetPort < 1 \<or> targetPort > 65535 then (Some TargetPortRequired, 0)
      else if \<not> listen listenAddr then (Some ListenFailed, 0)
      else accept_loop accepts 0)"

section \<open>Goroutines\<close>

text \<open>The target with the sessions its loop has still to look at and the running handlers.\<close>

record tsys =
  z_target :: relay_target
  z_todo :: "tcp_relay_session list"
  z_running :: "tcp_relay_session list"

inductive tstep :: "tsys \<Rightarrow> tsys \<Rightarrow> bool" where
  polled: "z_todo z = [] \<Longrightarrow> tstep z (z\<lparr>z_todo := sessions\<rparr>)"
| skipped: "z_todo z = s # rest \<Longrightarrow> markActive (ts_ID s) (z_target z) = (False, t) \<Longrightarrow>
    tstep z (z\<lparr>z_todo := rest, z_target := t\<rparr>)"
| started: "z_todo z = s # rest \<Longrightarrow> markActive (ts_ID s) (z_target z) = (True, t) \<Longrightarrow>
    tstep z (z\<lparr>z_todo := rest, z_target := t, z_running := s # z_running z\<rparr>)"
| ended: "s \<in> set (z_running z) \<Longrightarrow>
    tstep z (z\<lparr>z_target := clearActive (ts_ID s) (z_target z), z_running := remove1 s (z_running z)\<rparr>)"

inductive treach :: "int \<Rightarrow> tsys \<Rightarrow> bool" for poll where
  init: "treach poll \<lparr>z_target = NewTCPRelayTarget poll, z_todo = [], z_running = []\<rparr>"
| step: "treach poll z \<Longrightarrow> tstep z z' \<Longrightarrow> treach poll z'"

definition handlers_inv :: "tsys \<Rightarrow> bool" where
  "handlers_inv z \<longleftrightarrow> distinct (map ts_ID (z_running z))
     \<and> set (tg_active (z_target z)) = ts_ID ` set (z_running z)"

lemma handlers_inv_step: "tstep z z' \<Longrightarrow> handlers_inv z \<Longrightarrow> handlers_inv z'"
proof (induction rule: tstep.induct)
  case (ended s z)
  then have "ts_ID s \<notin> ts_ID ` set (remove1 s (z_running z))"
    by (auto simp: handlers_inv_def distinct_map dest: inj_onD)
  moreover have "set (z_running z) = insert s (set (remove1 s (z_running z)))"
    using ended by (auto simp: handlers_inv_def distinct_map)
  moreover have "distinct (map ts_ID (remove1 s (z_running z)))"
    using ended by (auto simp: handlers_inv_def distinct_map intro: inj_on_subset)
  ultimately show ?case using ended by (auto simp: handlers_inv_def clearActive_def)
qed (auto simp: handlers_inv_def markActive_def split: if_splits)

lemma handlers_inv_reach: "treach poll z \<Longrightarrow> handlers_inv z"
proof (induction rule: treach.induct)
  case init
  then show ?case by (simp add: handlers_inv_def NewTCPRelayTarget_def)
qed (rule handlers_inv_step)

text \<open>
  C28: The target never serves a session twice at the same time: in every state its goroutines can
  reach, the running handlers belong to different sessions and the active marks are exactly
  theirs. A polled session is skipped only while a handler for it is running, and otherwise a
  handler is started.
\<close>

theorem one_handler_per_session:
  assumes "treach poll z"
  shows "distinct (map ts_ID (z_running z)) \<and> set (tg_active (z_target z)) = ts_ID ` set (z_running z)
       \<and> (z_todo z = s # rest \<longrightarrow> (\<exists>z'. tstep z z' \<and> z_todo z' = rest
            \<and> (\<exists>h \<in> set (z_running z'). ts_ID h = ts_ID s)
            \<and> (s \<in> set (z_running z') \<or> ts_ID s \<in> ts_ID ` set (z_running z))))"
proof -
  have inv: "handlers_inv z" by (rule handlers_inv_reach [OF assms])
  moreover have "\<exists>z'. tstep z z' \<and> z_todo z' = rest \<and> (\<exists>h \<in> set (z_running z'). ts_ID h = ts_ID s)
      \<and> (s \<in> set (z_running z') \<or> ts_ID s \<in> ts_ID ` set (z_running z))" if td: "z_todo z = s # rest"
  proof (cases "ts_ID s \<in> set (tg_active (z_target z))")
    case True
    then have m: "markActive (ts_ID s) (z_target z) = (False, z_target z)" by (simp add: markActive_def)
    have "ts_ID s \<in> ts_ID ` set (z_running z)" using True inv by (simp add: handlers_inv_def)
    with tstep.skipped [OF td m] show ?thesis
      by (intro exI [of _ "z\<lparr>z_todo := rest, z_target := z_target z\<rparr>"]) auto
  next
    case False
    then have m: "markActive (ts_ID s) (z_target z) = (True, (z_target z)\<lparr>tg_active := ts_ID s # tg_active (z_target z)\<rparr>)"
      by (simp add: markActive_def)
    from tstep.started [OF td m] show ?thesis
      by (intro exI [of _ "z\<lparr>z_todo := rest, z_target := (z_target z)\<lparr>tg_active := ts_ID s # tg_active (z_target z)\<rparr>,
            z_running := s # z_running z\<rparr>"]) auto
  qed
  ultimately show ?thesis by (simp add: handlers_inv_def)
qed

theorem one_handler_per_session_witness:
  "\<exists>z. treach 0 z \<and> z_running z = [demo_session] \<and> tg_active (z_target z) = [ts_ID demo_session]
     \<and> z_todo z = [demo_session] \<and> (\<exists>z'. tstep z z' \<and> z_todo z' = [])"
proof -
  let ?t = "NewTCPRelayTarget 0"
  let ?m = "?t\<lparr>tg_active := [ts_ID demo_session]\<rparr>"
  let ?z = "\<lparr>z_target = ?m, z_todo = [demo_session], z_running = [demo_session]\<rparr>"
  have "treach 0 \<lparr>z_target = ?t, z_todo = [], z_running = []\<rparr>" by (rule treach.init)
  from treach.step [OF this tstep.polled [of _ "[demo_session, demo_session]"]]
  have "treach 0 \<lparr>z_target = ?t, z_todo = [demo_session, demo_session], z_running = []\<rparr>" by simp
  from treach.step [OF this tstep.started [of _ demo_session "[demo_session]" ?m]]
  have r: "treach 0 ?z" by (simp add: markActive_def NewTCPRelayTarget_def)
  from one_handler_per_session [OF r, of demo_session "[]"] have "\<exists>z'. tstep ?z z' \<and> z_todo z' = []" by auto
  with r show ?thesis by (intro exI [of _ ?z]) simp
qed

lemma active_not_started:
  "ts_ID ` set sessions \<subseteq> set (tg_active t) \<Longrightarrow> start_handlers sessions t = ([], t)"
  by (induction sessions) (auto simp: markActive_def)

text \<open>
  The controller does not hold a poll while a session waits for its agent connection, and the
  target does not pause after a poll that succeeded. So from the moment a handler is started for
  a session until it has attached (up to ten seconds for the local dial), every poll is answered
  at once with that session, which the target skips without sleeping: it polls in a busy loop.
\<close>

theorem pending_session_spins:
  assumes "session_of b sid = Some st" and "st_agent st = None" and "\<not> expired now st"
    and "ts_TargetDeviceID (st_session st) = dev" and "keys_distinct b"
    and "wait_poll now dev wait b = (w, b')"
  shows "\<exists>sessions. w = Answered sessions \<and> st_session st \<in> set sessions \<and> session_of b' sid = Some st
       \<and> (\<forall>n t. ts_ID ` set sessions \<subseteq> set (tg_active t) \<longrightarrow>
            target_run (replicate n \<lparr>pr_ended = [], pr_poll = Inr sessions, pr_done = False\<rparr>) t = [])"
proof -
  obtain pending where p: "Pending now dev b = (pending, cleanupLocked now b)"
    by (simp add: Pending_def Let_def)
  have s: "session_of (cleanupLocked now b) sid = Some st"
    using assms(1,3,5) by (simp add: session_of_cleanup)
  then have "st_session st \<in> set pending"
    using p assms(2,4) map_of_SomeD
    by (force simp: Pending_def Let_def session_of_def)
  then have "w = Answered pending" "b' = cleanupLocked now b"
    using assms(6) p by (auto simp: wait_poll_def split: if_splits)
  moreover have "target_run (replicate n \<lparr>pr_ended = [], pr_poll = Inr ss, pr_done = False\<rparr>) t = []"
    if "ts_ID ` set ss \<subseteq> set (tg_active t)" for n ss t
    using that active_not_started [OF that] by (induction n) (simp_all add: check_def)
  ultimately show ?thesis using s \<open>st_session st \<in> set pending\<close> by auto
qed

theorem pending_session_spins_witness:
  "\<exists>sessions. fst (wait_poll zero_time ''bob'' 25 (y_broker created_system)) = Answered sessions
     \<and> target_run (replicate 1000 \<lparr>pr_ended = [], pr_poll = Inr sessions, pr_done = False\<rparr>)
         \<lparr>tg_poll = 2, tg_active = map ts_ID sessions\<rparr> = []"
proof -
  obtain w b' where w: "wait_poll zero_time ''bob'' 25 (y_broker created_system) = (w, b')" by fastforce
  have s: "session_of (y_broker created_system) (ts_ID demo_session) = Some (snd (hd (b_sessions (y_broker created_system))))"
    "st_agent (snd (hd (b_sessions (y_broker created_system)))) = None" "\<not> expired zero_time (snd (hd (b_sessions (y_broker created_system))))"
    "ts_TargetDeviceID (st_session (snd (hd (b_sessions (y_broker created_system))))) = ''bob''" "keys_distinct (y_broker created_system)"
    by (simp_all add: created_system_def session_of_def keys_distinct_def expired_def zero_time_def time_after_def)
  from pending_session_spins [OF s w] obtain sessions where "w = Answered sessions"
    "\<forall>n t. ts_ID ` set sessions \<subseteq> set (tg_active t) \<longrightarrow>
       target_run (replicate n \<lparr>pr_ended = [], pr_poll = Inr sessions, pr_done = False\<rparr>) t = []" by blast
  then show ?thesis by (intro exI [of _ sessions]) (simp add: w)
qed

end
