(* ===== verification/Agent_Service.thy ===== *)
theory Agent_Service
  imports Agent_State Agent_Wireguard Agent_Relay
begin

text \<open>
  internal/agent/agent.go: the life of an agent. A run loads or obtains the device, fetches the
  network configuration, applies it, and then reports health: once, or on every tick until its
  context ends. The world it acts on is the disk, the credentials of its HTTP client (shared with
  the reporter), the trace of commands and whether the relay target was started; what answers it
  gets and what fails is given by \<open>run_env\<close>. The HTTP client implements all the optional
  interfaces the service asks for.
\<close>

section \<open>The service\<close>

record service =
  ag_cfg :: agent_config
  ag_registration :: bool
  ag_tunnel :: bool
  ag_health :: "health_reporter option"
  ag_state :: "file_state_store option"
  ag_device :: device_registration_response

definition NewService ::
  "agent_config \<Rightarrow> bool \<Rightarrow> bool \<Rightarrow> health_reporter option \<Rightarrow> service option" where
  "NewService cfg registration tunnel health =
     (if ac_ControllerURL cfg = '''' then None
      else Some \<lparr>ag_cfg = cfg, ag_registration = registration, ag_tunnel = tunnel, ag_health = health,
        ag_state = (if ac_StatePath cfg \<noteq> '''' then Some (NewFileStateStore (ac_StatePath cfg)) else None),
        ag_device = empty_response\<rparr>)"

record world =
  w_disk :: disk
  w_client :: http_client
  w_trace :: "event list"
  w_relay :: "relay_target option"

text \<open>A tick carries what answers its report; None is the end of the context.\<close>

record run_env =
  re_load :: os_env
  re_save :: os_env
  re_register :: transport
  re_config :: transport
  re_report :: transport
  re_goos :: string
  re_run :: runner
  re_keyFile :: "string option"
  re_ticks :: "transport option list"

datatype run_error = EnrollmentKeyRequired | RegisterFailed client_error | SaveFailed state_error
  | ConfigFailed client_error | TunnelFailed tunnel_error | ReportFailed client_error | ContextEnded

datatype outcome = Finished "run_error option" | TickerPanic | StillRunning

section \<open>Stages of a run\<close>

definition load_device :: "run_env \<Rightarrow> service \<Rightarrow> world \<Rightarrow> service \<times> world" where
  "load_device env s w =
     (case ag_state s of
        None \<Rightarrow> (s, w)
      | Some fs \<Rightarrow>
          (case Load (re_load env) (Some fs) (w_disk w) of
             Inl _ \<Rightarrow> (s, w)
           | Inr registration \<Rightarrow>
               (s\<lparr>ag_device := registration\<rparr>,
                w\<lparr>w_client := SetDeviceCredentials (d_ID (resp_Device registration))
                    (d_DeviceToken (resp_Device registration)) (w_client w)\<rparr>)))"

definition register_device :: "run_env \<Rightarrow> service \<Rightarrow> world \<Rightarrow> (run_error + service) \<times> world" where
  "register_device env s w =
     (if d_ID (resp_Device (ag_device s)) \<noteq> '''' then (Inr s, w)
      else if ac_EnrollmentKey (ag_cfg s) = '''' then (Inl EnrollmentKeyRequired, w)
      else case Register (re_register env) (ac_EnrollmentKey (ag_cfg s)) (ac_DeviceName (ag_cfg s)) (w_client w) of
        (Inl e, c) \<Rightarrow> (Inl (RegisterFailed e), w\<lparr>w_client := c\<rparr>)
      | (Inr registration, c) \<Rightarrow>
          (let s' = s\<lparr>ag_device := registration\<rparr>; w' = w\<lparr>w_client := c\<rparr>
           in case ag_state s of
                None \<Rightarrow> (Inr s', w')
              | Some fs \<Rightarrow>
                  (case Save (re_save env) (Some fs) registration (w_disk w') of
                     (Inl e, d) \<Rightarrow> (Inl (SaveFailed e), w'\<lparr>w_disk := d\<rparr>)
                   | (Inr _, d) \<Rightarrow> (Inr s', w'\<lparr>w_disk := d\<rparr>))))"

definition obtain_device :: "run_env \<Rightarrow> service \<Rightarrow> world \<Rightarrow> (run_error + service) \<times> world" where
  "obtain_device env s w =
     (if \<not> ag_registration s then (Inr s, w)
      else case load_device env s w of (s', w') \<Rightarrow> register_device env s' w')"

definition start_tunnel :: "run_env \<Rightarrow> service \<Rightarrow> world \<Rightarrow> run_error option \<times> world" where
  "start_tunnel env s w =
     (case (if ag_registration s then GetNetworkConfig (re_config env) (w_client w)
            else Inr \<lparr>nc_Device = resp_Device (ag_device s), nc_Peers = [], nc_Policies = [],
                   nc_Relays = resp_Relays (ag_device s)\<rparr>) of
        Inl e \<Rightarrow> (Some (ConfigFailed e), w)
      | Inr network \<Rightarrow>
          (case Apply (re_goos env) (re_run env) (re_keyFile env) (ag_cfg s) network (w_trace w) of
             (Some e, tr) \<Rightarrow> (Some (TunnelFailed e), w\<lparr>w_trace := tr\<rparr>)
           | (None, tr) \<Rightarrow> (None, w\<lparr>w_trace := tr\<rparr>)))"

definition start_relay :: "service \<Rightarrow> world \<Rightarrow> world" where
  "start_relay s w =
     (if ac_RelayEnabled (ag_cfg s) \<and> \<not> ac_RunOnce (ag_cfg s) \<and> ag_registration s
      then w\<lparr>w_relay := Some (NewTCPRelayTarget (ac_RelayPollEvery (ag_cfg s)))\<rparr> else w)"

definition report :: "transport \<Rightarrow> service \<Rightarrow> world \<Rightarrow> client_error option" where
  "report send s w =
     (case ag_health s of None \<Rightarrow> None | Some r \<Rightarrow> CheckAndReport send (w_client w) (ag_device s) r)"

text \<open>Reports on ticks are only logged; the loop ends with the context.\<close>

fun health_loop :: "transport option list \<Rightarrow> service \<Rightarrow> world \<Rightarrow> outcome \<times> client_error option list" where
  "health_loop [] s w = (StillRunning, [])"
| "health_loop (None # ticks) s w = (Finished (Some ContextEnded), [])"
| "health_loop (Some send # ticks) s w =
     (case health_loop ticks s w of (out, reports) \<Rightarrow> (out, report send s w # reports))"

definition serve_health :: "run_env \<Rightarrow> service \<Rightarrow> world \<Rightarrow> outcome" where
  "serve_health env s w =
     (if ac_RunOnce (ag_cfg s) then Finished (map_option ReportFailed (report (re_report env) s w))
      else if ac_HealthEvery (ag_cfg s) \<le> 0 then TickerPanic
      else fst (health_loop (re_ticks env) s w))"

text \<open>The deferred removal of the tunnel, on return and on panic.\<close>

definition deferred_destroy :: "run_env \<Rightarrow> service \<Rightarrow> outcome \<Rightarrow> world \<Rightarrow> world" where
  "deferred_destroy env s out w =
     (if ag_tunnel s \<and> out \<noteq> StillRunning
      then w\<lparr>w_trace := snd (Destroy (re_goos env) (re_run env) (ag_cfg s) (w_trace w))\<rparr> else w)"

definition Run :: "run_env \<Rightarrow> service \<Rightarrow> world \<Rightarrow> outcome \<times> world" where
  "Run env s w =
     (case obtain_device env s w of
        (Inl e, w1) \<Rightarrow> (Finished (Some e), w1)
      | (Inr s1, w1) \<Rightarrow>
          (case (if ag_tunnel s1 then start_tunnel env s1 w1 else (None, w1)) of
             (Some e, w2) \<Rightarrow> (Finished (Some e), w2)
           | (None, w2) \<Rightarrow>
               (let w3 = start_relay s1 w2; out = serve_health env s1 w3
                in (out, deferred_destroy env s1 out w3))))"

section \<open>Obtaining the device\<close>

lemma load_device_cases:
  obtains "load_device env s w = (s, w)"
  | fs registration where "ag_state s = Some fs" "Load (re_load env) (Some fs) (w_disk w) = Inr registration"
      "load_device env s w = (s\<lparr>ag_device := registration\<rparr>,
         w\<lparr>w_client := SetDeviceCredentials (d_ID (resp_Device registration))
              (d_DeviceToken (resp_Device registration)) (w_client w)\<rparr>)"
  by (cases "ag_state s"; cases "Load (re_load env) (ag_state s) (w_disk w)") (auto simp: load_device_def)

lemma load_device_same: "load_device env s w = (s', w') \<Longrightarrow> ag_state s' = ag_state s \<and> ag_cfg s' = ag_cfg s
    \<and> w_disk w' = w_disk w \<and> w_trace w' = w_trace w \<and> ag_tunnel s' = ag_tunnel s"
  by (cases rule: load_device_cases [of env s w]) auto

lemma Load_InrD:
  "Load env (Some fs) disk = Inr r \<Longrightarrow> \<not> oe_open_fails env \<and> fs_path fs \<noteq> ''''
     \<and> d_ID (resp_Device r) \<noteq> '''' \<and> d_DeviceToken (resp_Device r) \<noteq> ''''
     \<and> (\<forall>env'. \<not> oe_open_fails env' \<longrightarrow> Load env' (Some fs) disk = Inr r)"
  by (auto simp: Load_def readAgentState_def split: if_splits sum.splits option.splits agent_file.splits)

lemma Register_InrD:
  assumes "Register send key name c = (Inr r, c')"
  shows "hc_deviceID c' = d_ID (resp_Device r)" "hc_deviceToken c' = d_DeviceToken (resp_Device r)"
    "read_reply hp_registration (send (register_request c key name)) = Inr r"
  using assms by (auto simp: Register_def split: if_splits sum.splits)

text \<open>How a device was obtained: loaded, registered and saved, registered without a state store, or had.\<close>

lemma register_device_cases:
  assumes "register_device env s w = (Inr s1, w1)" and "d_ID (resp_Device (ag_device s)) = ''''"
    and "ag_state s = Some fs"
  obtains r c d where "Register (re_register env) (ac_EnrollmentKey (ag_cfg s)) (ac_DeviceName (ag_cfg s)) (w_client w) = (Inr r, c)"
    "Save (re_save env) (Some fs) r (w_disk w) = (Inr (), d)"
    "s1 = s\<lparr>ag_device := r\<rparr>" "w1 = w\<lparr>w_client := c, w_disk := d\<rparr>"
  using assms by (auto simp: register_device_def Let_def split: if_splits sum.splits prod.splits)

text \<open>The credentials and the address of a device, which a state file keeps.\<close>

definition same_device :: "device_registration_response \<Rightarrow> device_registration_response \<Rightarrow> bool" where
  "same_device r r' \<longleftrightarrow> d_ID (resp_Device r) = d_ID (resp_Device r')
     \<and> d_DeviceToken (resp_Device r) = d_DeviceToken (resp_Device r')
     \<and> d_VirtualIP (resp_Device r) = d_VirtualIP (resp_Device r')"

lemma same_device_wire [simp]: "same_device (wire_response r) r' \<longleftrightarrow> same_device r r'"
  by (simp add: same_device_def wire_response_def wire_device_def)

lemma same_device_refl [simp]: "same_device r r" "same_device (responds r) r"
  by (simp_all add: same_device_def responds_def)

definition holds_device :: "string \<Rightarrow> disk \<Rightarrow> device_registration_response \<Rightarrow> bool" where
  "holds_device path disk r \<longleftrightarrow> path \<noteq> '''' \<and> d_ID (resp_Device r) \<noteq> '''' \<and> d_DeviceToken (resp_Device r) \<noteq> ''''
     \<and> (\<exists>st. disk path = Some (Document st) \<and> same_device (as_Response st) r)"

lemma ensured_holds:
  assumes "EnsureIdentity x25519 sha256 env path priv pub fp disk = (x, disk')"
    and "disk (oe_tmp env) = None" and "oe_tmp env \<noteq> path" and "holds_device path disk r"
  shows "holds_device path disk' r"
  using EnsureIdentity_response [OF assms(1-3)] assms(4) by (auto simp: holds_device_def current_state_def)

lemma loads_again:
  assumes "holds_device path (w_disk w) r" and "ag_registration s" and "ag_state s = Some (NewFileStateStore path)"
    and "\<not> oe_open_fails (re_load env)"
  shows "\<exists>r'. obtain_device env s w = (Inr (s\<lparr>ag_device := r'\<rparr>),
            w\<lparr>w_client := SetDeviceCredentials (d_ID (resp_Device r')) (d_DeviceToken (resp_Device r')) (w_client w)\<rparr>)
       \<and> same_device r' r"
proof -
  obtain st where st: "path \<noteq> ''''" "w_disk w path = Some (Document st)" "same_device (as_Response st) r"
      "d_ID (resp_Device (as_Response st)) \<noteq> ''''" "d_DeviceToken (resp_Device (as_Response st)) \<noteq> ''''"
    using assms(1) by (auto simp: holds_device_def same_device_def)
  then have "Load (re_load env) (Some (NewFileStateStore path)) (w_disk w) = Inr (as_Response st)"
    using assms(4) by (simp add: Load_def NewFileStateStore_def readAgentState_def)
  then show ?thesis
    using st assms(2,3)
    by (intro exI [of _ "as_Response st"]) (simp add: obtain_device_def load_device_def register_device_def)
qed

text \<open>A device a run obtained with its state file is in that file when the run has it.\<close>

lemma obtained_holds:
  assumes "obtain_device env s w = (Inr s1, w1)" and "ag_registration s"
    and "ag_state s = Some (NewFileStateStore path)" and "d_ID (resp_Device (ag_device s)) = ''''"
    and "w_disk w (oe_tmp (re_save env)) = None" and "oe_tmp (re_save env) \<noteq> path"
  shows "holds_device path (w_disk w1) (ag_device s1)
       \<and> hc_deviceID (w_client w1) = d_ID (resp_Device (ag_device s1))
       \<and> hc_deviceToken (w_client w1) = d_DeviceToken (resp_Device (ag_device s1))"
proof -
  let ?fs = "NewFileStateStore path"
  obtain s0 w0 where l: "load_device env s w = (s0, w0)" and g: "register_device env s0 w0 = (Inr s1, w1)"
    using assms(1,2) by (auto simp: obtain_device_def split: prod.splits)
  show ?thesis
  proof (cases rule: load_device_cases [of env s w])
    case 1
    with l have s0: "s0 = s" "w0 = w" by simp_all
    from register_device_cases [OF g [unfolded s0] assms(4,3)] obtain r c d where
      r: "Register (re_register env) (ac_EnrollmentKey (ag_cfg s)) (ac_DeviceName (ag_cfg s)) (w_client w) = (Inr r, c)"
      and sv: "Save (re_save env) (Some ?fs) r (w_disk w) = (Inr (), d)"
      and e: "s1 = s\<lparr>ag_device := r\<rparr>" "w1 = w\<lparr>w_client := c, w_disk := d\<rparr>" by blast
    from sv assms(5,6) have "holds_device path d r"
      by (cases rule: Save_cases) (simp_all add: holds_device_def)
    with e Register_InrD [OF r] show ?thesis by simp
  next
    case (2 fs r)
    then have fs: "fs = ?fs" and s0: "s0 = s\<lparr>ag_device := r\<rparr>" "w_disk w0 = w_disk w"
      "w_client w0 = SetDeviceCredentials (d_ID (resp_Device r)) (d_DeviceToken (resp_Device r)) (w_client w)"
      using l assms(3) by auto
    note lr = Load_InrD [OF 2(2)]
    have e: "s1 = s0" "w1 = w0" using g lr s0 by (simp_all add: register_device_def)
    have "holds_device path (w_disk w) r"
      using 2(2) fs by (auto simp: holds_device_def Load_def NewFileStateStore_def readAgentState_def
          split: if_splits sum.splits option.splits agent_file.splits)
    with e s0 show ?thesis by (simp add: SetDeviceCredentials_def)
  qed
qed

text \<open>
  What later starts do to the disk: \<open>EnsureIdentity\<close>, which the program calls before every run and
  which writes the state file anew, with anything configured and any outcome, and runs that can
  open the file.
\<close>

inductive restarts :: "string \<Rightarrow> disk \<Rightarrow> disk \<Rightarrow> bool" for path where
  none: "restarts path disk disk"
| ensured: "restarts path disk disk1 \<Longrightarrow>
    EnsureIdentity x25519 sha256 env path priv pub fp disk1 = (x, disk2) \<Longrightarrow>
    disk1 (oe_tmp env) = None \<Longrightarrow> oe_tmp env \<noteq> path \<Longrightarrow> restarts path disk disk2"
| obtained: "restarts path disk (w_disk w) \<Longrightarrow> obtain_device env s w = (x, w') \<Longrightarrow> ag_registration s \<Longrightarrow>
    ag_state s = Some (NewFileStateStore path) \<Longrightarrow> \<not> oe_open_fails (re_load env) \<Longrightarrow> restarts path disk (w_disk w')"

lemma restarts_hold: "restarts path disk disk' \<Longrightarrow> holds_device path disk r \<Longrightarrow> holds_device path disk' r"
proof (induction rule: restarts.induct)
  case (ensured disk disk1 x25519 sha256 env priv pub fp x disk2)
  then show ?case using ensured_holds by blast
next
  case (obtained disk w env s x w')
  then have "holds_device path (w_disk w) r" by blast
  from loads_again [OF this obtained.hyps(3-5)] obtained.hyps(2) have "w_disk w' = w_disk w" by auto
  with \<open>holds_device path (w_disk w) r\<close> show ?case by simp
qed

text \<open>
  C21: An agent keeps its device across restarts: once a run obtained a device with its state file,
  then after any number of later starts, each of which first writes the state file anew with the
  agent's identity (whatever keys are configured and whatever fails) and then runs, every run that
  can open the file obtains the same device again, with the same id, token and virtual address and
  with the client holding these credentials, without an enrollment key, without asking the
  controller and without writing the file.
\<close>

theorem restart_reuses_device:
  assumes "obtain_device env s w = (Inr s1, w1)" and "ag_registration s"
    and "ag_state s = Some (NewFileStateStore path)" and "d_ID (resp_Device (ag_device s)) = ''''"
    and "w_disk w (oe_tmp (re_save env)) = None" and "oe_tmp (re_save env) \<noteq> path"
    and "restarts path (w_disk w1) (w_disk w2)"
    and "ag_registration s2" and "ag_state s2 = Some (NewFileStateStore path)"
    and "\<not> oe_open_fails (re_load env2)"
  shows "\<exists>r. obtain_device env2 s2 w2 = (Inr (s2\<lparr>ag_device := r\<rparr>),
            w2\<lparr>w_client := SetDeviceCredentials (d_ID (resp_Device r)) (d_DeviceToken (resp_Device r)) (w_client w2)\<rparr>)
       \<and> d_ID (resp_Device r) = d_ID (resp_Device (ag_device s1))
       \<and> d_DeviceToken (resp_Device r) = d_DeviceToken (resp_Device (ag_device s1))
       \<and> d_VirtualIP (resp_Device r) = d_VirtualIP (resp_Device (ag_device s1))
       \<and> hc_deviceID (w_client w1) = d_ID (resp_Device r) \<and> hc_deviceToken (w_client w1) = d_DeviceToken (resp_Device r)"
proof -
  note first = obtained_holds [OF assms(1-6)]
  from loads_again [OF restarts_hold [OF assms(7) conjunct1 [OF first]] assms(8-10)] first
  show ?thesis by (auto simp: same_device_def)
qed

text \<open>A state file without a device, and that an identity written to it leaves it so.\<close>

definition no_device :: "string \<Rightarrow> disk \<Rightarrow> bool" where
  "no_device path disk \<longleftrightarrow>
     (case disk path of
        Some (Document st) \<Rightarrow> d_ID (resp_Device (as_Response st)) = '''' \<or> d_DeviceToken (resp_Device (as_Response st)) = ''''
      | _ \<Rightarrow> True)"

lemma no_device_loads: "no_device path disk \<Longrightarrow> \<exists>e. Load env (Some (NewFileStateStore path)) disk = Inl e"
  by (auto simp: no_device_def Load_def NewFileStateStore_def readAgentState_def split: option.splits agent_file.splits)

lemma Load_no_device:
  "Load env (Some (NewFileStateStore path)) disk = Inl e \<Longrightarrow> \<not> oe_open_fails env \<Longrightarrow> path \<noteq> '''' \<Longrightarrow> no_device path disk"
  by (auto simp: no_device_def Load_def NewFileStateStore_def readAgentState_def
      split: option.splits agent_file.splits if_splits)

lemma ensured_no_device:
  assumes "EnsureIdentity x25519 sha256 env path priv pub fp disk = (x, disk')"
    and "disk (oe_tmp env) = None" and "oe_tmp env \<noteq> path" and "no_device path disk"
  shows "no_device path disk'"
proof -
  let ?r = "as_Response (current_state disk path)"
  have "d_ID (resp_Device ?r) = '''' \<or> d_DeviceToken (resp_Device ?r) = ''''"
    using assms(4) by (auto simp: no_device_def current_state_def empty_state_def empty_response_def empty_device_def
        split: option.splits agent_file.splits)
  with EnsureIdentity_response [OF assms(1-3)] assms(4) show ?thesis
    by (auto simp: no_device_def wire_response_def wire_device_def)
qed

lemma obtain_registers:
  assumes "no_device path (w_disk w)" and "ag_state s = Some (NewFileStateStore path)" and "ag_registration s"
  shows "obtain_device env s w = register_device env s w"
  using no_device_loads [OF assms(1), of "re_load env"] assms(2,3) by (auto simp: obtain_device_def load_device_def)

lemma Run_SaveFailed:
  assumes "Run env s w = (Finished (Some (SaveFailed e)), w')"
  shows "obtain_device env s w = (Inl (SaveFailed e), w')"
proof -
  have no_save: "serve_health env s1 w3 \<noteq> Finished (Some (SaveFailed e))"
    "start_tunnel env s1 w1 \<noteq> (Some (SaveFailed e), w2)" for s1 w1 w2 w3
  proof -
    have "fst (health_loop ts s1 w3) \<noteq> Finished (Some (SaveFailed e))" for ts
      by (induction ts s1 w3 rule: health_loop.induct) (auto split: prod.splits)
    then show "serve_health env s1 w3 \<noteq> Finished (Some (SaveFailed e))" by (auto simp: serve_health_def)
    show "start_tunnel env s1 w1 \<noteq> (Some (SaveFailed e), w2)"
      by (auto simp: start_tunnel_def split: sum.splits prod.splits option.splits)
  qed
  then show ?thesis
    using assms by (auto simp: Run_def Let_def split: sum.splits prod.splits option.splits if_splits)
qed

text \<open>A save that fails comes after a registration that was answered, and leaves the file as it was.\<close>

lemma failed_save:
  assumes "obtain_device env s w = (Inl (SaveFailed e), w')" and "ag_state s = Some (NewFileStateStore path)"
    and "w_disk w (oe_tmp (re_save env)) = None" and "oe_tmp (re_save env) \<noteq> path"
  obtains r c where
    "Register (re_register env) (ac_EnrollmentKey (ag_cfg s)) (ac_DeviceName (ag_cfg s)) (w_client w) = (Inr r, c)"
    "w' = w\<lparr>w_client := c\<rparr>" "\<exists>e'. Load (re_load env) (Some (NewFileStateStore path)) (w_disk w) = Inl e'"
proof -
  obtain s0 w0 where l: "load_device env s w = (s0, w0)" and g: "register_device env s0 w0 = (Inl (SaveFailed e), w')"
    using assms(1) by (auto simp: obtain_device_def split: prod.splits if_splits)
  show thesis
  proof (cases "Load (re_load env) (Some (NewFileStateStore path)) (w_disk w)")
    case (Inl e')
    then have "s0 = s" "w0 = w" using l assms(2) by (simp_all add: load_device_def)
    then obtain r c d where r: "Register (re_register env) (ac_EnrollmentKey (ag_cfg s)) (ac_DeviceName (ag_cfg s)) (w_client w) = (Inr r, c)"
      and sv: "Save (re_save env) (Some (NewFileStateStore path)) r (w_disk w) = (Inl e, d)"
      and w': "w' = w\<lparr>w_client := c, w_disk := d\<rparr>"
      using g assms(2) by (auto simp: register_device_def Let_def split: if_splits sum.splits prod.splits)
    from sv assms(3,4) have "d = w_disk w" by (cases rule: Save_cases) auto
    then have "w' = w\<lparr>w_client := c\<rparr>" by (simp add: w')
    with r Inl show thesis by (intro that) auto
  next
    case (Inr r)
    then have "d_ID (resp_Device (ag_device s0)) \<noteq> ''''" using l assms(2) Load_InrD [OF Inr] by (auto simp: load_device_def)
    with g show thesis by (simp add: register_device_def)
  qed
qed

text \<open>
  C22: When a registration cannot be saved (a full disk, say), the run ends with that error after
  the controller has answered the registration: no interface was touched, and nothing of the
  answer is on disk, so the token of the device is lost. The next start, which first stores its
  identity, therefore asks the controller for another registration: it sends a second request with
  its enrollment key and takes the device of the answer, or ends with the controller's refusal.
\<close>

theorem failed_save_loses_device:
  assumes "Run env s w = (Finished (Some (SaveFailed e)), w')"
    and "ag_state s = Some (NewFileStateStore path)" and "path \<noteq> ''''" and "\<not> oe_open_fails (re_load env)"
    and "w_disk w (oe_tmp (re_save env)) = None" and "oe_tmp (re_save env) \<noteq> path"
    and "EnsureIdentity x25519 sha256 ienv path priv pub fp (w_disk w') = (Inr ident, w_disk w2)"
    and "w_disk w' (oe_tmp ienv) = None" and "oe_tmp ienv \<noteq> path"
    and "ag_registration s2" and "ag_state s2 = Some (NewFileStateStore path)" and "d_ID (resp_Device (ag_device s2)) = ''''"
    and "ac_EnrollmentKey (ag_cfg s2) \<noteq> ''''" and "hc_controllerURL (w_client w2) \<noteq> ''''"
    and "obtain_device env2 s2 w2 = (result, w3)"
  shows "w_disk w' = w_disk w \<and> w_trace w' = w_trace w
       \<and> (\<exists>r. read_reply hp_registration (re_register env (register_request (w_client w)
                (ac_EnrollmentKey (ag_cfg s)) (ac_DeviceName (ag_cfg s)))) = Inr r
              \<and> hc_deviceID (w_client w') = d_ID (resp_Device r))
       \<and> (case read_reply hp_registration (re_register env2 (register_request (w_client w2)
                (ac_EnrollmentKey (ag_cfg s2)) (ac_DeviceName (ag_cfg s2)))) of
            Inl refusal \<Rightarrow> result = Inl (RegisterFailed refusal)
          | Inr r2 \<Rightarrow> hc_deviceID (w_client w3) = d_ID (resp_Device r2)
              \<and> (\<forall>s3. result = Inr s3 \<longrightarrow> ag_device s3 = r2))"
proof -
  from failed_save [OF Run_SaveFailed [OF assms(1)] assms(2,5,6)] obtain r c e' where
    r: "Register (re_register env) (ac_EnrollmentKey (ag_cfg s)) (ac_DeviceName (ag_cfg s)) (w_client w) = (Inr r, c)"
    and w': "w' = w\<lparr>w_client := c\<rparr>" and l: "Load (re_load env) (Some (NewFileStateStore path)) (w_disk w) = Inl e'" by blast
  have "no_device path (w_disk w')" using Load_no_device [OF l assms(4,3)] by (simp add: w')
  from ensured_no_device [OF assms(7-9) this] have "no_device path (w_disk w2)" .
  from obtain_registers [OF this assms(11,10)] assms(15) have "register_device env2 s2 w2 = (result, w3)" by simp
  then have "case read_reply hp_registration (re_register env2 (register_request (w_client w2)
                (ac_EnrollmentKey (ag_cfg s2)) (ac_DeviceName (ag_cfg s2)))) of
            Inl refusal \<Rightarrow> result = Inl (RegisterFailed refusal)
          | Inr r2 \<Rightarrow> hc_deviceID (w_client w3) = d_ID (resp_Device r2)
              \<and> (\<forall>s3. result = Inr s3 \<longrightarrow> ag_device s3 = r2)"
    using assms(11-14) by (auto simp: register_device_def Register_def Let_def split: sum.splits prod.splits)
  with w' Register_InrD [OF r] show ?thesis by simp
qed

section \<open>The tunnel's life\<close>

lemma Apply_outcome:
  assumes "Apply ''linux'' run keyFile cfg network tr = (err, tr')" and "\<not> ac_WireGuardDryRun cfg"
  shows "err = Some CommandFailed \<Longrightarrow> \<exists>f. keyFile = Some f \<and> last tr' = Removed f"
  using assms by (auto simp: Apply_def split: if_splits option.splits prod.splits)

lemma Destroy_last:
  assumes "\<not> ac_WireGuardDryRun cfg" and "ac_WireGuardInterface cfg \<noteq> ''''"
  shows "last (snd (Destroy ''linux'' run cfg tr)) = Ran [''ip'', ''link'', ''del'', ac_WireGuardInterface cfg]"
  using assms by (simp add: Destroy_def runCommand_def)

lemma register_device_same:
  assumes "register_device env s w = (Inr s1, w1)"
  shows "ag_cfg s1 = ag_cfg s \<and> ag_tunnel s1 = ag_tunnel s"
  using assms by (auto simp: register_device_def Let_def split: if_splits sum.splits prod.splits option.splits)

lemma obtain_device_same: "obtain_device env s w = (Inr s1, w1) \<Longrightarrow> ag_cfg s1 = ag_cfg s \<and> ag_tunnel s1 = ag_tunnel s"
  using load_device_same register_device_same
  by (fastforce simp: obtain_device_def split: if_splits prod.splits)

lemma serve_health_outcomes:
  "serve_health env s w = out \<Longrightarrow> out \<in> {StillRunning, TickerPanic, Finished None, Finished (Some ContextEnded)}
     \<or> (\<exists>e. out = Finished (Some (ReportFailed e)))"
proof -
  have "fst (health_loop ts s w) \<in> {StillRunning, Finished (Some ContextEnded)}" for ts
    by (induction ts s w rule: health_loop.induct) (auto split: prod.splits)
  then show "serve_health env s w = out \<Longrightarrow> ?thesis" by (fastforce simp: serve_health_def split: if_splits)
qed

text \<open>
  C23: A run that got past applying the configuration removes its interface when it ends, however
  it ends: reported once, cancelled, failed to report, or panicked because the health interval
  is not positive. But when applying fails half way, because a command failed, the run ends
  without removing anything: the last thing it does is to delete the key file, and the interface
  stays as far as it was configured.
\<close>

theorem tunnel_lifecycle:
  assumes "Run env s w = (out, w')" and "ag_tunnel s" and "re_goos env = ''linux''"
    and "\<not> ac_WireGuardDryRun (ag_cfg s)" and "ac_WireGuardInterface (ag_cfg s) \<noteq> ''''"
  shows "(out \<in> {TickerPanic, Finished None, Finished (Some ContextEnded)} \<or> (\<exists>e. out = Finished (Some (ReportFailed e))) \<longrightarrow>
            last (w_trace w') = Ran [''ip'', ''link'', ''del'', ac_WireGuardInterface (ag_cfg s)])
       \<and> (out = Finished (Some (TunnelFailed CommandFailed)) \<longrightarrow>
            (\<exists>f. re_keyFile env = Some f \<and> last (w_trace w') = Removed f))"
proof -
  have reg: "e \<noteq> ContextEnded \<and> (\<forall>x. e \<noteq> ReportFailed x) \<and> (\<forall>x. e \<noteq> TunnelFailed x)"
    if "obtain_device env s w = (Inl e, w1)" for e w1
    using that by (auto simp: obtain_device_def register_device_def Let_def split: if_splits sum.splits prod.splits option.splits)
  show ?thesis
  proof (cases "obtain_device env s w")
    case o: (Pair x w1)
    show ?thesis
    proof (cases x)
      case (Inl e)
      with o assms(1) reg [of e w1] show ?thesis by (auto simp: Run_def)
    next
      case (Inr s1)
      with o have c: "ag_cfg s1 = ag_cfg s" "ag_tunnel s1" using obtain_device_same assms(2) by blast+
      obtain y w2 where t: "start_tunnel env s1 w1 = (y, w2)" by fastforce
      show ?thesis
      proof (cases y)
        case (Some e)
        then have out: "out = Finished (Some e)" "w' = w2" using assms(1) o Inr c t by (simp_all add: Run_def)
        have "(\<exists>x. e = ConfigFailed x) \<or> (\<exists>x. e = TunnelFailed x)"
          using t Some by (auto simp: start_tunnel_def split: sum.splits prod.splits option.splits)
        moreover have "\<exists>f. re_keyFile env = Some f \<and> last (w_trace w2) = Removed f" if "e = TunnelFailed CommandFailed"
          using t Some that assms(3,4) c Apply_outcome [of "re_run env" "re_keyFile env" "ag_cfg s"]
          by (fastforce simp: start_tunnel_def split: sum.splits prod.splits option.splits)
        ultimately show ?thesis using out by auto
      next
        case None
        let ?w3 = "start_relay s1 w2"
        have out: "out = serve_health env s1 ?w3" "w' = deferred_destroy env s1 out ?w3"
          using assms(1) o Inr c t None by (auto simp: Run_def Let_def)
        have "last (w_trace w') = Ran [''ip'', ''link'', ''del'', ac_WireGuardInterface (ag_cfg s)]" if "out \<noteq> StillRunning"
          using that out(2) c assms(3-5) Destroy_last [of "ag_cfg s"] by (simp add: deferred_destroy_def)
        moreover have "out \<noteq> Finished (Some (TunnelFailed CommandFailed))"
          using serve_health_outcomes [OF out(1) [symmetric]] by auto
        ultimately show ?thesis by auto
      qed
    qed
  qed
qed

section \<open>Examples\<close>

definition demo_service :: "bool \<Rightarrow> service" where
  "demo_service once = \<lparr>ag_cfg = demo_agent_config\<lparr>ac_EnrollmentKey := ''key'', ac_RunOnce := once\<rparr>,
     ag_registration = True, ag_tunnel = True, ag_health = None, ag_state = Some (NewFileStateStore ''s''),
     ag_device = empty_response\<rparr>"

definition demo_reply :: http_reply where
  "demo_reply = \<lparr>hp_status = 201, hp_device = None, hp_config = Some (demo_network []),
     hp_registration = Some demo_registration, hp_session = None, hp_sessions = None\<rparr>"

definition demo_run :: "os_env \<Rightarrow> run_env" where
  "demo_run save = \<lparr>re_load = demo_os, re_save = save, re_register = (\<lambda>q. Some demo_reply),
     re_config = (\<lambda>q. Some demo_reply), re_report = (\<lambda>q. None), re_goos = ''linux'', re_run = (\<lambda>tr c. True),
     re_keyFile = Some ''/tmp/k'', re_ticks = [None]\<rparr>"

definition demo_world :: world where
  "demo_world = \<lparr>w_disk = Map.empty, w_client = NewHTTPRegistrationClient ''http://c'' ''pk'' ''fp'' '''',
     w_trace = [], w_relay = None\<rparr>"

lemma demo_url_set: "hc_controllerURL (w_client demo_world) \<noteq> ''''"
  by (simp add: demo_world_def NewHTTPRegistrationClient_def trim_right_def)

lemma demo_register:
  "Register (re_register (demo_run save)) key name (w_client demo_world)
     = (Inr demo_registration, (w_client demo_world)\<lparr>hc_deviceID := ''d1'', hc_deviceToken := ''t1''\<rparr>)"
  using demo_url_set by (simp add: Register_def demo_run_def demo_reply_def read_reply_def demo_registration_def)

lemma demo_nothing_loaded: "load_device (demo_run save) (demo_service once) demo_world = (demo_service once, demo_world)"
  by (simp add: load_device_def demo_service_def Load_def NewFileStateStore_def readAgentState_def demo_run_def
      demo_os_def demo_world_def)

lemma demo_service_fields:
  "ag_cfg (demo_service once) = demo_agent_config\<lparr>ac_EnrollmentKey := ''key'', ac_RunOnce := once\<rparr>"
  "ag_registration (demo_service once)" "ag_tunnel (demo_service once)" "ag_health (demo_service once) = None"
  "ag_state (demo_service once) = Some (NewFileStateStore ''s'')"
  "d_ID (resp_Device (ag_device (demo_service once))) = ''''"
  by (simp_all add: demo_service_def empty_response_def empty_device_def)

lemma demo_run_fields:
  "re_save (demo_run save) = save" "re_load (demo_run save) = demo_os" "re_goos (demo_run save) = ''linux''"
  "re_keyFile (demo_run save) = Some ''/tmp/k''" "re_run (demo_run save) = (\<lambda>tr c. True)"
  "re_config (demo_run save) = (\<lambda>q. Some demo_reply)" "w_disk demo_world = Map.empty" "w_trace demo_world = []"
  by (simp_all add: demo_run_def demo_world_def)

lemma demo_obtain:
  assumes "Save save (Some (NewFileStateStore ''s'')) demo_registration Map.empty = (x, d)"
  shows "obtain_device (demo_run save) (demo_service once) demo_world =
     (case x of Inl e \<Rightarrow> Inl (SaveFailed e) | Inr _ \<Rightarrow> Inr ((demo_service once)\<lparr>ag_device := demo_registration\<rparr>),
      demo_world\<lparr>w_client := (w_client demo_world)\<lparr>hc_deviceID := ''d1'', hc_deviceToken := ''t1''\<rparr>, w_disk := d\<rparr>)"
  using assms
  by (simp add: obtain_device_def demo_nothing_loaded register_device_def demo_service_fields demo_register
      demo_run_fields Let_def split: sum.splits)

lemma demo_save:
  "\<exists>d. Save demo_os (Some (NewFileStateStore ''s'')) demo_registration Map.empty = (Inr (), d)"
  by (simp add: Save_def NewFileStateStore_def read_existing_def readAgentState_def writeAgentState_def Let_def
      demo_os_def demo_registration_def wire_state_def wire_response_def wire_device_def responds_def)

lemma demo_save_fails:
  "Save (demo_os\<lparr>oe_fails := (\<lambda>op. op = Rename)\<rparr>) (Some (NewFileStateStore ''s'')) demo_registration Map.empty
     = (Inl (FileOpFailed Rename), Map.empty)"
  by (simp add: Save_def NewFileStateStore_def demo_registration_def read_existing_def readAgentState_def
      demo_os_def writeAgentState_def Let_def fun_upd_def)

text \<open>A start after a disk: the identity is stored in the state file.\<close>

lemma demo_ensured:
  "\<exists>disk'. EnsureIdentity (\<lambda>k. Some k) (\<lambda>p. [1]) demo_os ''s'' ''priv'' ''pub'' ''fp'' Map.empty
     = (Inr \<lparr>id_PrivateKey = ''priv'', id_PublicKey = ''pub'', id_Fingerprint = ''fp''\<rparr>, disk')"
  by (simp add: EnsureIdentity_def read_existing_def readAgentState_def derive_identity_def writeAgentState_def Let_def demo_os_def)

theorem failed_save_loses_device_witness:
  "\<exists>w2 w3. fst (Run (demo_run (demo_os\<lparr>oe_fails := (\<lambda>op. op = Rename)\<rparr>)) (demo_service True) demo_world)
      = Finished (Some (SaveFailed (FileOpFailed Rename)))
     \<and> w_disk (snd (Run (demo_run (demo_os\<lparr>oe_fails := (\<lambda>op. op = Rename)\<rparr>)) (demo_service True) demo_world)) = Map.empty
     \<and> (\<exists>ident. EnsureIdentity (\<lambda>k. Some k) (\<lambda>p. [1]) demo_os ''s'' ''priv'' ''pub'' ''fp'' Map.empty = (Inr ident, w_disk w2))
     \<and> snd (obtain_device (demo_run demo_os) (demo_service True) w2) = w3 \<and> hc_deviceID (w_client w3) = ''d1''"
proof -
  let ?env = "demo_run (demo_os\<lparr>oe_fails := (\<lambda>op. op = Rename)\<rparr>)"
  obtain w' where r: "Run ?env (demo_service True) demo_world = (Finished (Some (SaveFailed (FileOpFailed Rename))), w')"
    and w': "w_disk w' = Map.empty"
    by (simp add: Run_def demo_obtain [OF demo_save_fails])
  obtain disk' ident where e: "EnsureIdentity (\<lambda>k. Some k) (\<lambda>p. [1]) demo_os ''s'' ''priv'' ''pub'' ''fp'' (w_disk w') = (Inr ident, disk')"
    using demo_ensured w' by auto
  let ?w2 = "demo_world\<lparr>w_disk := disk'\<rparr>"
  obtain result w3 where o: "obtain_device (demo_run demo_os) (demo_service True) ?w2 = (result, w3)" by fastforce
  have d: "EnsureIdentity (\<lambda>k. Some k) (\<lambda>p. [1]) demo_os ''s'' ''priv'' ''pub'' ''fp'' (w_disk w') = (Inr ident, w_disk ?w2)"
    using e by simp
  have url: "hc_controllerURL (w_client ?w2) \<noteq> ''''" using demo_url_set by simp
  have key: "ac_EnrollmentKey (ag_cfg (demo_service True)) \<noteq> ''''" by (simp add: demo_service_fields)
  have os: "\<not> oe_open_fails (re_load ?env)" "w_disk demo_world (oe_tmp (re_save ?env)) = None" "oe_tmp (re_save ?env) \<noteq> ''s''"
    "w_disk w' (oe_tmp demo_os) = None" "oe_tmp demo_os \<noteq> ''s''"
    by (simp_all add: demo_run_fields w') (simp_all add: demo_os_def)
  have reply: "read_reply hp_registration (re_register (demo_run demo_os) q) = Inr demo_registration" for q
    by (simp add: demo_run_def demo_reply_def read_reply_def)
  from failed_save_loses_device [OF r demo_service_fields(5) _ os(1-3) d os(4,5) demo_service_fields(2,5,6) key url o]
  have "hc_deviceID (w_client w3) = d_ID (resp_Device demo_registration)" by (simp add: reply)
  then have "hc_deviceID (w_client w3) = ''d1''" by (simp add: demo_registration_def)
  with r w' e o show ?thesis by (intro exI [of _ ?w2] exI [of _ w3]) auto
qed

theorem restart_reuses_device_witness:
  "\<exists>s1 w1 disk2 r w3. obtain_device (demo_run demo_os) (demo_service False) demo_world = (Inr s1, w1)
     \<and> EnsureIdentity (\<lambda>k. Some k) (\<lambda>p. [1]) (demo_os\<lparr>oe_tmp := ''t''\<rparr>) ''s'' ''other'' ''pub'' ''fp'' (w_disk w1) = disk2
     \<and> obtain_device ((demo_run demo_os)\<lparr>re_register := (\<lambda>q. None)\<rparr>) (demo_service False) (demo_world\<lparr>w_disk := snd disk2\<rparr>)
         = (Inr ((demo_service False)\<lparr>ag_device := r\<rparr>), w3)
     \<and> d_ID (resp_Device r) = ''d1'' \<and> d_DeviceToken (resp_Device r) = ''t1''"
proof -
  let ?env = "(demo_run demo_os)\<lparr>re_register := (\<lambda>q. None)\<rparr>"
  obtain d where sv: "Save demo_os (Some (NewFileStateStore ''s'')) demo_registration Map.empty = (Inr (), d)"
    using demo_save by blast
  then have t: "d ''t'' = None" "oe_tmp (demo_os\<lparr>oe_tmp := ''t''\<rparr>) \<noteq> ''s''"
    by (cases rule: Save_cases; simp add: demo_os_def)+
  from demo_obtain [OF sv, of False] obtain w1 where
    o: "obtain_device (demo_run demo_os) (demo_service False) demo_world = (Inr ((demo_service False)\<lparr>ag_device := demo_registration\<rparr>), w1)"
    and w1: "w_disk w1 = d"
    by simp
  obtain x disk2 where en: "EnsureIdentity (\<lambda>k. Some k) (\<lambda>p. [1]) (demo_os\<lparr>oe_tmp := ''t''\<rparr>) ''s'' ''other'' ''pub'' ''fp'' (w_disk w1) = (x, disk2)"
    by fastforce
  have "restarts ''s'' (w_disk w1) disk2"
    by (rule restarts.ensured [OF restarts.none en]) (use t w1 in simp_all)
  then have later: "restarts ''s'' (w_disk w1) (w_disk (demo_world\<lparr>w_disk := disk2\<rparr>))" by simp
  have e: "\<not> oe_open_fails (re_load ?env)" "w_disk demo_world (oe_tmp (re_save (demo_run demo_os))) = None"
    "oe_tmp (re_save (demo_run demo_os)) \<noteq> ''s''"
    by (simp_all add: demo_run_fields) (simp_all add: demo_os_def demo_run_def)
  note f = demo_service_fields(2,5) [of False]
  from restart_reuses_device [OF o demo_service_fields(2,5,6) e(2,3) later f e(1)]
  obtain r w3 where "obtain_device ?env (demo_service False) (demo_world\<lparr>w_disk := disk2\<rparr>)
      = (Inr ((demo_service False)\<lparr>ag_device := r\<rparr>), w3)"
    and "d_ID (resp_Device r) = d_ID (resp_Device demo_registration)"
    and "d_DeviceToken (resp_Device r) = d_DeviceToken (resp_Device demo_registration)"
    by (elim exE conjE) simp
  then have "obtain_device ?env (demo_service False) (demo_world\<lparr>w_disk := disk2\<rparr>)
      = (Inr ((demo_service False)\<lparr>ag_device := r\<rparr>), w3)" "d_ID (resp_Device r) = ''d1''" "d_DeviceToken (resp_Device r) = ''t1''"
    by (simp_all add: demo_registration_def)
  with o en show ?thesis by (metis snd_conv)
qed

theorem tunnel_lifecycle_witness:
  "last (w_trace (snd (Run (demo_run demo_os) (demo_service True) demo_world)))
     = Ran [''ip'', ''link'', ''del'', ''linkbit0'']"
proof -
  have cfg: "ac_WireGuardInterface demo_agent_config = ''linkbit0''" "\<not> ac_WireGuardDryRun demo_agent_config"
    "ac_WireGuardPrivateKey demo_agent_config = ''key''"
    by (simp_all add: demo_agent_config_def LoadAgent_def getenv_def getenvBool_def Let_def)
  then have c: "ac_WireGuardInterface (ag_cfg (demo_service True)) = ''linkbit0''" "\<not> ac_WireGuardDryRun (ag_cfg (demo_service True))"
    by (simp_all add: demo_service_fields)
  obtain d where sv: "Save demo_os (Some (NewFileStateStore ''s'')) demo_registration Map.empty = (Inr (), d)"
    using demo_save by blast
  let ?s1 = "(demo_service True)\<lparr>ag_device := demo_registration\<rparr>"
  obtain w1 where o: "obtain_device (demo_run demo_os) (demo_service True) demo_world = (Inr ?s1, w1)"
    and w1: "GetNetworkConfig (re_config (demo_run demo_os)) (w_client w1) = Inr (demo_network [])"
    using demo_obtain [OF sv, of True] demo_url_set
    by (simp add: GetNetworkConfig_def demo_run_fields read_reply_def demo_reply_def)
  obtain w2 where t: "start_tunnel (demo_run demo_os) ?s1 w1 = (None, w2)"
    using w1 cfg by (simp add: start_tunnel_def demo_service_fields demo_run_fields Apply_def applyCommands_def demo_network_def)
  obtain w' where r: "Run (demo_run demo_os) (demo_service True) demo_world = (Finished None, w')"
    using o t by (simp add: Run_def demo_service_fields Let_def serve_health_def report_def)
  from tunnel_lifecycle [OF r demo_service_fields(3) demo_run_fields(3) c(2)] c(1)
  have "last (w_trace w') = Ran [''ip'', ''link'', ''del'', ''linkbit0'']" by simp
  with r show ?thesis by simp
qed

end
