(* ===== verification/Relay_Node.thy ===== *)
theory Relay_Node
  imports Config Agent_Client
begin

text \<open>
  internal/relay: the relay process. It registers with the controller once, then sends a
  heartbeat on every tick until its DERP service or its context ends. A run's environment gives the
  answers of the controller and what the loop's \<open>select\<close> takes next; the DERP server itself is
  tailscale.com's, of which only the routes it is mounted at
  are modelled.
\<close>

section \<open>The node\<close>

record relay_process =
  rp_cfg :: relay_config
  rp_derp :: bool

definition NewNode :: "relay_config \<Rightarrow> bool \<Rightarrow> relay_process option" where
  "NewNode cfg derp =
     (if rc_ControllerURL cfg = '''' \<or> rc_APIKey cfg = '''' \<or> rc_RelayID cfg = '''' \<or> rc_PublicURL cfg = ''''
      then None else Some \<lparr>rp_cfg = cfg, rp_derp = derp\<rparr>)"

definition node_request :: "relay_process \<Rightarrow> string \<Rightarrow> relay_node \<Rightarrow> http_request" where
  "node_request n path payload =
     \<lparr>hr_method = ''POST'', hr_url = rc_ControllerURL (rp_cfg n) @ path,
      hr_headers = [(''Content-Type'', ''application/json''), (''X-Linkbit-API-Key'', rc_APIKey (rp_cfg n)),
        (''X-Linkbit-Relay-ID'', rc_RelayID (rp_cfg n))],
      hr_body = RelayBody payload\<rparr>"

text \<open>The answer's body is not read.\<close>

definition post :: "transport \<Rightarrow> http_request \<Rightarrow> client_error option" where
  "post send req =
     (case send req of
        None \<Rightarrow> Some RequestFailed
      | Some r \<Rightarrow> if hp_status r < 200 \<or> hp_status r > 299 then Some (BadStatus (hp_status r)) else None)"

definition registration_payload :: "relay_process \<Rightarrow> relay_node" where
  "registration_payload n = empty_relay\<lparr>r_ID := rc_RelayID (rp_cfg n), r_Name := rc_Name (rp_cfg n),
     r_Region := rc_Region (rp_cfg n), r_PublicURL := rc_PublicURL (rp_cfg n)\<rparr>"

definition heartbeat_payload :: "relay_process \<Rightarrow> relay_node" where
  "heartbeat_payload n = empty_relay\<lparr>r_ID := rc_RelayID (rp_cfg n), r_Status := RelayStatusHealthy\<rparr>"

definition node_register :: "relay_process \<Rightarrow> http_request" where
  "node_register n = node_request n ''/api/v1/relays/register'' (registration_payload n)"

definition node_heartbeat :: "relay_process \<Rightarrow> http_request" where
  "node_heartbeat n = node_request n ''/api/v1/relays/heartbeat'' (heartbeat_payload n)"

section \<open>The run\<close>

text \<open>
  What \<open>select\<close> takes: the end of the context, the end of the DERP service with its error, or a
  tick with what will answer its heartbeat. The list may end: the node is then still running.
\<close>

datatype node_event = CtxDone | DerpStopped "string option" | Tick transport

datatype node_outcome = RegistrationFailed client_error | NodeTickerPanic | NodeCancelled
  | DerpEnded "string option" | NodeRunning

text \<open>The requests the node sends and how it ends. Failed heartbeats are only logged.\<close>

fun node_loop :: "relay_process \<Rightarrow> node_event list \<Rightarrow> http_request list \<times> node_outcome" where
  "node_loop n [] = ([], NodeRunning)"
| "node_loop n (CtxDone # events) = ([], NodeCancelled)"
| "node_loop n (DerpStopped err # events) =
     (if rp_derp n then ([], DerpEnded err) else node_loop n events)"
| "node_loop n (Tick send # events) =
     (case node_loop n events of (sent, out) \<Rightarrow> (node_heartbeat n # sent, out))"

definition node_run :: "transport \<Rightarrow> node_event list \<Rightarrow> relay_process \<Rightarrow> http_request list \<times> node_outcome" where
  "node_run send events n =
     (case post send (node_register n) of
        Some err \<Rightarrow> ([node_register n], RegistrationFailed err)
      | None \<Rightarrow>
          if rc_Heartbeat (rp_cfg n) \<le> 0 then ([node_register n], NodeTickerPanic)
          else (case node_loop n events of (sent, out) \<Rightarrow> (node_register n # sent, out)))"

section \<open>The DERP service\<close>

record derp_service =
  ds_addr :: string

definition NewDERPHTTPService :: "string \<Rightarrow> derp_service option" where
  "NewDERPHTTPService addr = (if addr = '''' then None else Some \<lparr>ds_addr = addr\<rparr>)"

text \<open>The messages of the DERP server, formatted by \<open>fmt.Sprintf\<close> only when they have arguments.\<close>

definition logMessage :: "(string \<Rightarrow> 'a list \<Rightarrow> string) \<Rightarrow> string \<Rightarrow> 'a list \<Rightarrow> string" where
  "logMessage sprintf fmt args = (if args = [] then fmt else sprintf fmt args)"

datatype derp_handler = DerpStream | DerpProbe | NoContent | HealthJSON

definition derp_routes :: "(string \<times> derp_handler) list" where
  "derp_routes = [(''/derp'', DerpStream), (''/derp/probe'', DerpProbe), (''/derp/latency-check'', DerpProbe),
     (''/generate_204'', NoContent), (''/healthz'', HealthJSON)]"

text \<open>The answer of \<open>/healthz\<close>: its content type and its body, \<open>{"status":"ok"}\<close>.\<close>

definition derp_healthz :: "string \<times> string" where
  "derp_healthz = (''application/json'',
     ''{'' @ [CHR 0x22] @ ''status'' @ [CHR 0x22] @ '':'' @ [CHR 0x22] @ ''ok'' @ [CHR 0x22] @ ''}'')"

record http_server =
  hs_Addr :: string
  hs_Handler :: "(string \<times> derp_handler) list"
  hs_ReadHeaderTimeout :: int
  hs_ReadTimeout :: int
  hs_WriteTimeout :: int

definition derp_http_server :: "derp_service \<Rightarrow> http_server" where
  "derp_http_server s = \<lparr>hs_Addr = ds_addr s, hs_Handler = derp_routes, hs_ReadHeaderTimeout = 10 * second,
     hs_ReadTimeout = 30 * second, hs_WriteTimeout = 30 * second\<rparr>"

text \<open>How \<open>ListenAndServe\<close> ended: closed by the shutdown that follows the context, or with an error.\<close>

datatype listen_end = ServerClosed | ListenError string

definition derp_start :: "string option \<Rightarrow> listen_end \<Rightarrow> string option" where
  "derp_start ctx_err ended = (case ended of ServerClosed \<Rightarrow> ctx_err | ListenError e \<Rightarrow> Some e)"

text \<open>
  What can happen to a listening service: listening fails, or the context ends with its error and
  the goroutine calls \<open>Shutdown\<close>, which may fail in its ten seconds. \<open>ListenAndServe\<close> returns when
  the shutdown begins, not when it is complete. The outcome, None while it listens, and the
  warnings it leaves in the log.
\<close>

datatype derp_event = ListenStopped string | CtxEnded string "string option"

fun derp_run :: "derp_event list \<Rightarrow> string option option \<times> string list" where
  "derp_run [] = (None, [])"
| "derp_run (ListenStopped e # events) = (Some (derp_start None (ListenError e)), [])"
| "derp_run (CtxEnded err failed # events) =
     (Some (derp_start (Some err) ServerClosed),
      case failed of None \<Rightarrow> [] | Some e \<Rightarrow> [''derp http shutdown failed''])"

section \<open>The traffic of a node\<close>

lemma node_loop_heartbeats: "set (fst (node_loop n events)) \<subseteq> {node_heartbeat n}"
  by (induction n events rule: node_loop.induct) (auto split: prod.splits)

text \<open>The ticks the loop takes before it ends.\<close>

fun ticks_taken :: "bool \<Rightarrow> node_event list \<Rightarrow> nat" where
  "ticks_taken derp [] = 0"
| "ticks_taken derp (CtxDone # events) = 0"
| "ticks_taken derp (DerpStopped err # events) = (if derp then 0 else ticks_taken derp events)"
| "ticks_taken derp (Tick send # events) = Suc (ticks_taken derp events)"

lemma node_loop_sent: "fst (node_loop n events) = replicate (ticks_taken (rp_derp n) events) (node_heartbeat n)"
  by (induction n events rule: node_loop.induct) (auto split: prod.splits)

text \<open>
  When its registration is accepted and its interval is positive, a run sends that registration
  and then one identical heartbeat for each tick before the end of its context or DERP service,
  whatever is answered to them. A refused registration ends the run.
\<close>

lemma node_requests_sent:
  assumes "NewNode cfg derp = Some n"
  shows "fst (node_run send events n) =
        (if post send (node_register n) = None \<and> 0 < rc_Heartbeat cfg
         then node_register n # replicate (ticks_taken derp events) (node_heartbeat n) else [node_register n])
     \<and> (\<forall>err. post send (node_register n) = Some err \<longrightarrow> snd (node_run send events n) = RegistrationFailed err)
     \<and> (\<exists>p. hr_body (node_heartbeat n) = RelayBody p \<and> r_ID p = rc_RelayID cfg \<and> r_Load p = 0)"
proof -
  have n: "rp_cfg n = cfg" "rp_derp n = derp"
    using assms by (auto simp: NewNode_def split: if_splits)
  have "fst (node_run send events n) =
      (if post send (node_register n) = None \<and> 0 < rc_Heartbeat cfg
       then node_register n # replicate (ticks_taken derp events) (node_heartbeat n) else [node_register n])"
    using node_loop_sent [of n events] n
    by (auto simp: node_run_def split: option.splits prod.splits)
  then show ?thesis
    using n by (simp add: node_run_def node_heartbeat_def node_request_def heartbeat_payload_def empty_relay_def)
qed

definition demo_relay_config :: relay_config where
  "demo_relay_config = \<lparr>rc_ControllerURL = ''http://c'', rc_APIKey = ''k'', rc_RelayID = ''r'', rc_Name = ''n'',
     rc_PublicURL = ''https://r'', rc_Region = ''eu'', rc_ListenAddr = '':8443'', rc_Heartbeat = 30\<rparr>"

definition demo_node :: relay_process where
  "demo_node = \<lparr>rp_cfg = demo_relay_config, rp_derp = True\<rparr>"

lemma demo_node: "NewNode demo_relay_config True = Some demo_node"
  by (simp add: NewNode_def demo_relay_config_def demo_node_def)

end
