(* ===== verification/Json_Strings.thy ===== *)
theory Json_Strings
  imports Go_Strings
begin

text \<open>
  What the store asks of \<open>encoding/json\<close>: \<open>json.Marshal\<close> and \<open>json.Unmarshal\<close> of a \<open>[]string\<close>
  (the ports of a policy). A string is its bytes. The encoder escapes quotes, backslashes, control
  bytes, the characters that matter in HTML and U+2028 and U+2029, and replaces bytes that are not
  UTF-8; the decoder undoes that. The theory ends with the round trip for UTF-8 strings.
\<close>

section \<open>UTF-8\<close>

definition byte_in :: "nat \<Rightarrow> nat \<Rightarrow> char \<Rightarrow> bool" where
  "byte_in lo hi c \<longleftrightarrow> lo \<le> of_char c \<and> of_char c \<le> hi"

text \<open>The well-formed characters of two, three and four bytes.\<close>

definition two_bytes :: "char \<Rightarrow> char \<Rightarrow> bool" where
  "two_bytes a b \<longleftrightarrow> byte_in 0xC2 0xDF a \<and> byte_in 0x80 0xBF b"

definition three_bytes :: "char \<Rightarrow> char \<Rightarrow> char \<Rightarrow> bool" where
  "three_bytes a b c \<longleftrightarrow>
     (byte_in 0xE0 0xE0 a \<and> byte_in 0xA0 0xBF b \<or> byte_in 0xE1 0xEC a \<and> byte_in 0x80 0xBF b
      \<or> byte_in 0xED 0xED a \<and> byte_in 0x80 0x9F b \<or> byte_in 0xEE 0xEF a \<and> byte_in 0x80 0xBF b)
     \<and> byte_in 0x80 0xBF c"

definition four_bytes :: "char \<Rightarrow> char \<Rightarrow> char \<Rightarrow> char \<Rightarrow> bool" where
  "four_bytes a b c d \<longleftrightarrow>
     (byte_in 0xF0 0xF0 a \<and> byte_in 0x90 0xBF b \<or> byte_in 0xF1 0xF3 a \<and> byte_in 0x80 0xBF b
      \<or> byte_in 0xF4 0xF4 a \<and> byte_in 0x80 0x8F b)
     \<and> byte_in 0x80 0xBF c \<and> byte_in 0x80 0xBF d"

text \<open>The length of the multi-byte character a string starts with, if it starts with one.\<close>

fun utf8_size :: "string \<Rightarrow> nat option" where
  "utf8_size (a # b # rest) =
     (if two_bytes a b then Some 2
      else case rest of
        [] \<Rightarrow> None
      | c # rest' \<Rightarrow>
          if three_bytes a b c then Some 3
          else (case rest' of [] \<Rightarrow> None | d # _ \<Rightarrow> if four_bytes a b c d then Some 4 else None))"
| "utf8_size _ = None"

definition first_unit :: "string \<Rightarrow> nat" where
  "first_unit s = (case utf8_size s of None \<Rightarrow> 1 | Some n \<Rightarrow> n)"

lemma first_unit_pos [simp]: "0 < first_unit s"
  by (cases s rule: utf8_size.cases) (auto simp: first_unit_def split: option.splits list.splits if_splits)

lemma first_unit_not_0 [simp]: "first_unit s \<noteq> 0"
  using first_unit_pos [of s] by linarith

text \<open>A string as its characters; a byte that starts none stands alone.\<close>

function units :: "string \<Rightarrow> string list" where
  "units [] = []"
| "units (c # cs) = take (first_unit (c # cs)) (c # cs) # units (drop (first_unit (c # cs)) (c # cs))"
  by pat_completeness auto

termination
  by (relation "measure length") auto

definition char_unit :: "string \<Rightarrow> bool" where
  "char_unit u \<longleftrightarrow> (case u of [c] \<Rightarrow> of_char c < (0x80 :: nat) | _ \<Rightarrow> utf8_size u = Some (length u))"

definition valid_utf8 :: "string \<Rightarrow> bool" where
  "valid_utf8 s = list_all char_unit (units s)"

definition utf8_encode :: "nat \<Rightarrow> string" where
  "utf8_encode r =
     (if r < 0x80 then [char_of r]
      else if r < 0x800 then [char_of (0xC0 + r div 64), char_of (0x80 + r mod 64)]
      else if r < 0x10000
      then [char_of (0xE0 + r div 4096), char_of (0x80 + r div 64 mod 64), char_of (0x80 + r mod 64)]
      else [char_of (0xF0 + r div 262144), char_of (0x80 + r div 4096 mod 64),
            char_of (0x80 + r div 64 mod 64), char_of (0x80 + r mod 64)])"

definition replacement :: string where "replacement = utf8_encode 0xFFFD"

section \<open>Encoding\<close>

definition hex_low :: "nat \<Rightarrow> char" where "hex_low n = ''0123456789abcdef'' ! n"

definition escape_byte :: "char \<Rightarrow> string" where
  "escape_byte c =
     (if c = CHR 0x22 \<or> c = CHR 0x5C then [CHR 0x5C, c]
      else if c = CHR 0x08 then [CHR 0x5C, CHR ''b'']
      else if c = CHR 0x0C then [CHR 0x5C, CHR ''f'']
      else if c = CHR 0x0A then [CHR 0x5C, CHR ''n'']
      else if c = CHR 0x0D then [CHR 0x5C, CHR ''r'']
      else if c = CHR 0x09 then [CHR 0x5C, CHR ''t'']
      else if of_char c < (0x20 :: nat) \<or> c \<in> set ''<>&''
      then [CHR 0x5C, CHR ''u'', CHR ''0'', CHR ''0'', hex_low (of_char c div 16), hex_low (of_char c mod 16)]
      else [c])"

definition escape_unit :: "string \<Rightarrow> string" where
  "escape_unit u =
     (case u of
        [c] \<Rightarrow> if of_char c < (0x80 :: nat) then escape_byte c else CHR 0x5C # ''ufffd''
      | _ \<Rightarrow> if u = utf8_encode 0x2028 then CHR 0x5C # ''u2028''
             else if u = utf8_encode 0x2029 then CHR 0x5C # ''u2029'' else u)"

definition json_string :: "string \<Rightarrow> string" where
  "json_string s = [CHR 0x22] @ concat (map escape_unit (units s)) @ [CHR 0x22]"

fun join_commas :: "string list \<Rightarrow> string" where
  "join_commas [] = ''''"
| "join_commas [x] = x"
| "join_commas (x # xs) = x @ '','' @ join_commas xs"

definition marshal_strings :: "string list option \<Rightarrow> string" where
  "marshal_strings v =
     (case v of None \<Rightarrow> ''null'' | Some xs \<Rightarrow> ''['' @ join_commas (map json_string xs) @ '']'')"

section \<open>Decoding\<close>

definition hex_value :: "char \<Rightarrow> nat option" where
  "hex_value c =
     (if byte_in 0x30 0x39 c then Some (of_char c - 0x30)
      else if byte_in 0x61 0x66 c then Some (of_char c - 0x61 + 10)
      else if byte_in 0x41 0x46 c then Some (of_char c - 0x41 + 10) else None)"

fun getu4 :: "string \<Rightarrow> nat option" where
  "getu4 (b # u # p # q # r # s # _) =
     (if b = CHR 0x5C \<and> u = CHR ''u''
      then (case (hex_value p, hex_value q, hex_value r, hex_value s) of
              (Some i, Some j, Some k, Some l) \<Rightarrow> Some (((i * 16 + j) * 16 + k) * 16 + l)
            | _ \<Rightarrow> None)
      else None)"
| "getu4 _ = None"

definition simple_escape :: "char \<Rightarrow> char option" where
  "simple_escape e =
     map_of [(CHR 0x22, CHR 0x22), (CHR 0x5C, CHR 0x5C), (CHR ''/'', CHR ''/''), (CHR ''b'', CHR 0x08),
       (CHR ''f'', CHR 0x0C), (CHR ''n'', CHR 0x0A), (CHR ''r'', CHR 0x0D), (CHR ''t'', CHR 0x09)] e"

text \<open>The character of a \<open>\u\<close> escape and the bytes it takes: a surrogate needs its other half.\<close>

definition unicode_escape :: "string \<Rightarrow> (string \<times> nat) option" where
  "unicode_escape s =
     (case getu4 s of
        None \<Rightarrow> None
      | Some r \<Rightarrow>
          if 0xD800 \<le> r \<and> r < 0xE000
          then (case getu4 (drop 6 s) of
                  Some r2 \<Rightarrow>
                    if r < 0xDC00 \<and> 0xDC00 \<le> r2 \<and> r2 < 0xE000
                    then Some (utf8_encode ((r - 0xD800) * 1024 + (r2 - 0xDC00) + 0x10000), 12)
                    else Some (replacement, 6)
                | None \<Rightarrow> Some (replacement, 6))
          else Some (utf8_encode r, 6))"

lemma unicode_escape_pos: "unicode_escape s = Some (x, n) \<Longrightarrow> 0 < n"
  by (auto simp: unicode_escape_def split: option.splits if_splits)

lemma utf8_size_pos: "utf8_size s = Some n \<Longrightarrow> 0 < n"
  using first_unit_pos [of s] by (simp add: first_unit_def)

text \<open>The rest of a literal, after its opening quote: its value and what follows it.\<close>

function unquote :: "string \<Rightarrow> (string \<times> string) option" where
  "unquote [] = None"
| "unquote (c # cs) =
     (if c = CHR 0x22 then Some ('''', cs)
      else if c = CHR 0x5C
      then (case cs of
              [] \<Rightarrow> None
            | e # rest \<Rightarrow>
                (case simple_escape e of
                   Some x \<Rightarrow> map_option (\<lambda>(v, t). (x # v, t)) (unquote rest)
                 | None \<Rightarrow>
                     (case unicode_escape (c # cs) of
                        None \<Rightarrow> None
                      | Some (x, n) \<Rightarrow> map_option (\<lambda>(v, t). (x @ v, t)) (unquote (drop n (c # cs))))))
      else if of_char c < (0x20 :: nat) then None
      else if of_char c < (0x80 :: nat) then map_option (\<lambda>(v, t). (c # v, t)) (unquote cs)
      else (case utf8_size (c # cs) of
              Some n \<Rightarrow> map_option (\<lambda>(v, t). (take n (c # cs) @ v, t)) (unquote (drop n (c # cs)))
            | None \<Rightarrow> map_option (\<lambda>(v, t). (replacement @ v, t)) (unquote cs)))"
  by pat_completeness auto

termination
  by (relation "measure length") (auto dest: unicode_escape_pos utf8_size_pos)

declare unquote.simps(2) [simp del]

definition skip_ws :: "string \<Rightarrow> string" where
  "skip_ws = dropWhile (\<lambda>c. c \<in> {CHR '' '', CHR 0x09, CHR 0x0A, CHR 0x0D})"

text \<open>
  One element of the array: a literal, or \<open>null\<close>, which leaves the element empty. Any other value
  is an error of the decoder or of its syntax check.
\<close>

definition parse_element :: "string \<Rightarrow> (string \<times> string) option" where
  "parse_element s =
     (case skip_ws s of
        [] \<Rightarrow> None
      | c # cs \<Rightarrow>
          if c = CHR 0x22 then unquote cs
          else if prefix ''null'' (c # cs) then Some ('''', drop 4 (c # cs)) else None)"

lemma unquote_shorter: "unquote s = Some (v, t) \<Longrightarrow> length t < length s"
proof (induction s arbitrary: v t rule: measure_induct_rule [of length])
  case (less s)
  obtain c cs where s: "s = c # cs" using less.prems by (cases s) auto
  have IH: "unquote y = Some (v', t) \<Longrightarrow> length y < length s \<Longrightarrow> length t < length s" for y v'
    using less.IH [of y v' t] by simp
  show ?case
    using less.prems unfolding s unquote.simps
    by (auto simp: s split: if_splits list.splits option.splits
        dest: unicode_escape_pos utf8_size_pos dest!: IH)
qed

lemma skip_ws_length: "length (skip_ws s) \<le> length s"
  by (simp add: skip_ws_def length_dropWhile_le)

lemma skip_ws_ConsD: "skip_ws t = c # rest \<Longrightarrow> length rest < length t"
  using skip_ws_length [of t] by simp

lemma parse_element_shorter: "parse_element s = Some (v, t) \<Longrightarrow> length t < length s"
  by (auto simp: parse_element_def split: list.splits if_splits dest!: unquote_shorter skip_ws_ConsD)

text \<open>The elements up to the closing bracket.\<close>

function parse_elements :: "string \<Rightarrow> (string list \<times> string) option" where
  "parse_elements s =
     (case parse_element s of
        None \<Rightarrow> None
      | Some (v, t) \<Rightarrow>
          (case skip_ws t of
             [] \<Rightarrow> None
           | c # rest \<Rightarrow>
               if c = CHR '']'' then Some ([v], rest)
               else if c = CHR '','' then map_option (\<lambda>(vs, u). (v # vs, u)) (parse_elements rest)
               else None))"
  by pat_completeness auto

termination
  by (relation "measure length") (auto dest!: parse_element_shorter skip_ws_ConsD)

declare parse_elements.simps [simp del]

definition unmarshal_strings :: "string \<Rightarrow> string list option option" where
  "unmarshal_strings text =
     (case skip_ws text of
        [] \<Rightarrow> None
      | c # cs \<Rightarrow>
          if prefix ''null'' (c # cs)
          then (if skip_ws (drop 4 (c # cs)) = '''' then Some None else None)
          else if c \<noteq> CHR ''['' then None
          else (case skip_ws cs of
                  [] \<Rightarrow> None
                | d # ds \<Rightarrow>
                    if d = CHR '']'' then (if skip_ws ds = '''' then Some (Some []) else None)
                    else (case parse_elements cs of
                            Some (vs, rest) \<Rightarrow> if skip_ws rest = '''' then Some (Some vs) else None
                          | None \<Rightarrow> None)))"

section \<open>The round trip\<close>

lemma concat_units [simp]: "concat (units s) = s"
  by (induction s rule: units.induct) simp_all

lemma hex_value_low: "n < 16 \<Longrightarrow> hex_value (hex_low n) = Some n"
  by (auto simp: hex_low_def hex_value_def byte_in_def less_Suc_eq numeral_eq_Suc)

lemma unicode_escape_byte:
  assumes "n < 128"
  shows "unicode_escape (CHR 0x5C # CHR ''u'' # CHR ''0'' # CHR ''0'' # hex_low (n div 16) # hex_low (n mod 16) # t)
    = Some ([char_of n], 6)"
proof -
  have "hex_value CHR ''0'' = Some 0" by (simp add: hex_value_def byte_in_def)
  then show ?thesis
    using assms by (simp add: unicode_escape_def hex_value_low utf8_encode_def)
qed

lemma unquote_escape_byte:
  assumes "of_char c < (128 :: nat)"
  shows "unquote (escape_byte c @ t) = map_option (\<lambda>(v, r). (c # v, r)) (unquote t)"
proof (cases "of_char c < (0x20 :: nat) \<or> c \<in> set ''<>&''")
  case True
  then have "c \<noteq> CHR 0x22" "c \<noteq> CHR 0x5C" by auto
  then show ?thesis
    using assms unicode_escape_byte [OF assms, of t]
    by (auto simp: escape_byte_def unquote.simps(2) simple_escape_def)
next
  case False
  then show ?thesis
    using assms by (auto simp: escape_byte_def unquote.simps(2) simple_escape_def)
qed

lemma utf8_size_append:
  assumes "utf8_size s = Some n"
  shows "utf8_size (s @ t) = Some n"
proof -
  obtain a b rest where s: "s = a # b # rest"
    using assms by (cases s rule: utf8_size.cases) simp_all
  show ?thesis
  proof (cases rest)
    case Nil
    then show ?thesis using assms by (simp add: s split: if_splits)
  next
    case (Cons c rest')
    then show ?thesis
      using assms by (cases rest') (simp_all add: s split: if_splits)
  qed
qed

lemma lead_byte: "byte_in lo hi a \<Longrightarrow> 128 \<le> lo \<Longrightarrow> 128 \<le> (of_char a :: nat)"
  by (simp add: byte_in_def)

lemma wide_lead:
  "two_bytes a b \<Longrightarrow> 128 \<le> (of_char a :: nat)"
  "three_bytes a b c \<Longrightarrow> 128 \<le> (of_char a :: nat)"
  "four_bytes a b c d \<Longrightarrow> 128 \<le> (of_char a :: nat)"
  unfolding two_bytes_def three_bytes_def four_bytes_def by (elim conjE disjE; simp add: lead_byte)+

lemma utf8_size_lead: "utf8_size (c # cs) = Some n \<Longrightarrow> 128 \<le> (of_char c :: nat)"
  by (cases cs) (auto dest: wide_lead split: if_splits list.splits)

lemma unquote_escape_wide:
  assumes "utf8_size u = Some (length u)"
  shows "unquote (escape_unit u @ t) = map_option (\<lambda>(v, r). (u @ v, r)) (unquote t)"
proof -
  obtain c d ds where u: "u = c # d # ds"
    using assms by (cases u rule: utf8_size.cases) simp_all
  have lead: "128 \<le> (of_char c :: nat)"
    using assms utf8_size_lead unfolding u by blast
  consider "u = utf8_encode 0x2028" | "u = utf8_encode 0x2029" | "u \<noteq> utf8_encode 0x2028" "u \<noteq> utf8_encode 0x2029"
    by blast
  then show ?thesis
  proof cases
    case 3
    then have e: "escape_unit u = u" by (simp add: escape_unit_def u)
    have "c \<noteq> CHR 0x22" "c \<noteq> CHR 0x5C" using lead by auto
    then show ?thesis
      using lead utf8_size_append [OF assms, of t] unfolding e
      by (simp add: u unquote.simps(2))
  qed (simp_all add: escape_unit_def utf8_encode_def unquote.simps(2) simple_escape_def unicode_escape_def
      hex_value_def byte_in_def)
qed

lemma unquote_escape_unit:
  assumes "char_unit u"
  shows "unquote (escape_unit u @ t) = map_option (\<lambda>(v, r). (u @ v, r)) (unquote t)"
proof (cases "\<exists>c. u = [c]")
  case True
  then obtain c where u: "u = [c]" by blast
  then have "of_char c < (128 :: nat)" using assms by (simp add: char_unit_def)
  then show ?thesis by (simp add: u escape_unit_def unquote_escape_byte)
next
  case False
  then have "utf8_size u = Some (length u)"
    using assms by (auto simp: char_unit_def split: list.splits)
  then show ?thesis by (rule unquote_escape_wide)
qed

lemma unquote_units:
  "list_all char_unit us \<Longrightarrow>
     unquote (concat (map escape_unit us) @ CHR 0x22 # t) = Some (concat us, t)"
  by (induction us) (simp_all add: unquote_escape_unit unquote.simps(2))

lemma skip_ws_quote [simp]: "skip_ws (CHR 0x22 # t) = CHR 0x22 # t"
  by (simp add: skip_ws_def)

lemma parse_json_string: "valid_utf8 s \<Longrightarrow> parse_element (json_string s @ t) = Some (s, t)"
  by (simp add: parse_element_def json_string_def unquote_units valid_utf8_def)

lemma parse_joined:
  "xs \<noteq> [] \<Longrightarrow> list_all valid_utf8 xs \<Longrightarrow>
     parse_elements (join_commas (map json_string xs) @ CHR '']'' # t) = Some (xs, t)"
  by (induction xs rule: join_commas.induct)
    (simp_all add: parse_elements.simps parse_json_string skip_ws_def)

lemma unmarshal_marshal:
  assumes "\<And>xs. v = Some xs \<Longrightarrow> list_all valid_utf8 xs"
  shows "unmarshal_strings (marshal_strings v) = Some v"
proof (cases v)
  case None
  then show ?thesis by (simp add: marshal_strings_def unmarshal_strings_def skip_ws_def)
next
  case (Some xs)
  then show ?thesis
  proof (cases xs)
    case (Cons y ys)
    then obtain r where "join_commas (map json_string xs) = CHR 0x22 # r"
      by (cases ys) (simp_all add: json_string_def)
    then show ?thesis
      using Cons Some parse_joined [of xs "[]"] assms [of xs]
      by (simp add: marshal_strings_def unmarshal_strings_def skip_ws_def)
  qed (simp add: marshal_strings_def unmarshal_strings_def skip_ws_def)
qed

end
