(* ===== verification/Sqlite_Rows.thy ===== *)
theory Sqlite_Rows
  imports Sqlite_Store Json_Strings
begin

text \<open>
  The SQL level of internal/store/sqlite/store.go: tables whose rows map column names to values, the
  statements with their column lists, WHERE, SET and ON CONFLICT clauses, the conversion of a
  record to the values it is stored as and the \<open>scan\<close> functions that read it back. Times are
  stored as text, booleans as integers, the ports of a policy as JSON text. The theory
  \<open>Store_Refinement\<close> shows that \<open>Sqlite_Store\<close>, on which the rest of the development works,
  answers every call as these statements do.
\<close>

section \<open>Tables and statements\<close>

datatype sql_value = Null | Text string | Integer int | Real rat

type_synonym sql_row = "string \<Rightarrow> sql_value"

record sqlite =
  sq_tables :: "string \<Rightarrow> sql_row list"
  sq_faults :: "bool list"

text \<open>A call fails in its statement, in scanning a row, or in decoding the ports it read.\<close>

datatype row_err = Statement store_err | ScanFailed | DecodePorts

type_synonym 'a sql = "sqlite \<Rightarrow> (row_err + 'a) \<times> sqlite"

definition row_of :: "string list \<Rightarrow> sql_value list \<Rightarrow> sql_row" where
  "row_of cols vals c = (case map_of (zip cols vals) c of None \<Rightarrow> Null | Some v \<Rightarrow> v)"

definition with_table :: "string \<Rightarrow> sql_row list \<Rightarrow> sqlite \<Rightarrow> sqlite" where
  "with_table t rows s = s\<lparr>sq_tables := (sq_tables s)(t := rows)\<rparr>"

text \<open>The columns declared PRIMARY KEY or UNIQUE.\<close>

definition key_columns :: "string \<Rightarrow> string list" where
  "key_columns t =
     (if t = ''invitations'' then [''id'', ''token_hash'']
      else if t = ''api_keys'' then [''id'', ''digest'']
      else if t = ''devices'' then [''id'', ''virtual_ip'']
      else [''id''])"

definition sql_exec :: "'a sql \<Rightarrow> 'a sql" where
  "sql_exec f s =
     (case sq_faults s of
        [] \<Rightarrow> f s
      | fault # rest \<Rightarrow>
          if fault then (Inl (Statement ErrIO), s\<lparr>sq_faults := rest\<rparr>) else f (s\<lparr>sq_faults := rest\<rparr>))"

definition then_sql :: "'a sql \<Rightarrow> ('a \<Rightarrow> 'b sql) \<Rightarrow> 'b sql" where
  "then_sql f g s = (case f s of (Inl e, s') \<Rightarrow> (Inl e, s') | (Inr a, s') \<Rightarrow> g a s')"

definition conflicts :: "string \<Rightarrow> sql_row \<Rightarrow> sql_row \<Rightarrow> bool" where
  "conflicts t new old = list_ex (\<lambda>c. new c = old c) (key_columns t)"

definition sql_insert :: "string \<Rightarrow> string list \<Rightarrow> sql_value list \<Rightarrow> unit sql" where
  "sql_insert t cols vals =
     sql_exec (\<lambda>s. if list_ex (conflicts t (row_of cols vals)) (sq_tables s t)
                   then (Inl (Statement ErrConstraint), s)
                   else (Inr (), with_table t (sq_tables s t @ [row_of cols vals]) s))"

definition sql_insert_or_ignore :: "string \<Rightarrow> string list \<Rightarrow> sql_value list \<Rightarrow> unit sql" where
  "sql_insert_or_ignore t cols vals =
     sql_exec (\<lambda>s. (Inr (), if list_ex (conflicts t (row_of cols vals)) (sq_tables s t) then s
                             else with_table t (sq_tables s t @ [row_of cols vals]) s))"

text \<open>\<open>ON CONFLICT(key) DO UPDATE SET c = excluded.c\<close> for each of the listed columns.\<close>

definition sql_upsert ::
  "string \<Rightarrow> string list \<Rightarrow> sql_value list \<Rightarrow> string \<Rightarrow> string list \<Rightarrow> unit sql" where
  "sql_upsert t cols vals key upd =
     sql_exec (\<lambda>s. let new = row_of cols vals in
       (Inr (), if list_ex (\<lambda>r. r key = new key) (sq_tables s t)
                then with_table t (map (\<lambda>r. if r key = new key
                       then (\<lambda>c. if c \<in> set upd then new c else r c) else r) (sq_tables s t)) s
                else with_table t (sq_tables s t @ [new]) s))"

text \<open>WHERE clauses: equality of columns, combined with AND.\<close>

definition eqs :: "(string \<times> sql_value) list \<Rightarrow> sql_row \<Rightarrow> bool" where
  "eqs cs r = list_all (\<lambda>(c, v). r c = v) cs"

text \<open>A query row is scanned from the selected columns in order.\<close>

definition sql_query_row ::
  "string list \<Rightarrow> string \<Rightarrow> (string \<times> sql_value) list \<Rightarrow> (sql_value list \<Rightarrow> row_err + 'a) \<Rightarrow> 'a sql" where
  "sql_query_row cols t wher scan =
     sql_exec (\<lambda>s. (case find (eqs wher) (sq_tables s t) of
                      None \<Rightarrow> Inl (Statement ErrNoRows)
                    | Some r \<Rightarrow> scan (map r cols), s))"

fun scan_all :: "(sql_value list \<Rightarrow> row_err + 'a) \<Rightarrow> sql_value list list \<Rightarrow> row_err + 'a list" where
  "scan_all scan [] = Inr []"
| "scan_all scan (r # rs) =
     (case scan r of
        Inl e \<Rightarrow> Inl e
      | Inr x \<Rightarrow> (case scan_all scan rs of Inl e \<Rightarrow> Inl e | Inr xs \<Rightarrow> Inr (x # xs)))"

definition text_of :: "sql_value \<Rightarrow> string" where
  "text_of v = (case v of Text s \<Rightarrow> s | _ \<Rightarrow> '''')"

definition sql_query_all ::
  "string list \<Rightarrow> string \<Rightarrow> (sql_row list \<Rightarrow> sql_row list) \<Rightarrow> (sql_value list \<Rightarrow> row_err + 'a) \<Rightarrow> 'a list sql" where
  "sql_query_all cols t order_by scan =
     sql_exec (\<lambda>s. (scan_all scan (map (\<lambda>r. map r cols) (order_by (sq_tables s t))), s))"

definition newest_first :: "sql_row list \<Rightarrow> sql_row list" where
  "newest_first = order_desc (\<lambda>r. text_of (r ''created_at''))"

text \<open>SET clauses read the old row. A statement that touches no row is \<open>sql.ErrNoRows\<close>.\<close>

definition set_columns :: "(string \<times> (sql_row \<Rightarrow> sql_value)) list \<Rightarrow> sql_row \<Rightarrow> sql_row" where
  "set_columns sets r c = (case map_of sets c of None \<Rightarrow> r c | Some e \<Rightarrow> e r)"

definition sql_update ::
  "string \<Rightarrow> (string \<times> (sql_row \<Rightarrow> sql_value)) list \<Rightarrow> (string \<times> sql_value) list \<Rightarrow> nat sql" where
  "sql_update t sets wher =
     sql_exec (\<lambda>s. (Inr (tbl_count (eqs wher) (sq_tables s t)),
                    with_table t (tbl_update (eqs wher) (set_columns sets) (sq_tables s t)) s))"

definition sql_delete :: "string \<Rightarrow> (string \<times> sql_value) list \<Rightarrow> nat sql" where
  "sql_delete t wher =
     sql_exec (\<lambda>s. (Inr (tbl_count (eqs wher) (sq_tables s t)),
                    with_table t (tbl_delete (eqs wher) (sq_tables s t)) s))"

definition affected :: "nat \<Rightarrow> unit sql" where
  "affected n s = (if n = 0 then Inl (Statement ErrNoRows) else Inr (), s)"

definition sql_done :: "nat \<Rightarrow> unit sql" where
  "sql_done n s = (Inr (), s)"

definition sql_value_of :: "string \<Rightarrow> (sql_row list \<Rightarrow> 'a) \<Rightarrow> 'a sql" where
  "sql_value_of t f = sql_exec (\<lambda>s. (Inr (f (sq_tables s t)), s))"

definition count_where :: "(string \<times> sql_value) list \<Rightarrow> sql_row list \<Rightarrow> nat" where
  "count_where wher = tbl_count (eqs wher)"

definition real_of :: "sql_value \<Rightarrow> rat" where
  "real_of v = (case v of Real x \<Rightarrow> x | _ \<Rightarrow> 0)"

definition avg_column :: "string \<Rightarrow> sql_row list \<Rightarrow> rat" where
  "avg_column c rows = (if rows = [] then 0 else sum_list (map (\<lambda>r. real_of (r c)) rows) / of_nat (length rows))"

definition set_to :: "sql_value \<Rightarrow> sql_row \<Rightarrow> sql_value" where "set_to v r = v"

section \<open>Records as rows\<close>

definition boolInt :: "bool \<Rightarrow> int" where "boolInt value = (if value then 1 else 0)"

definition time_text :: "gotime \<Rightarrow> sql_value" where "time_text t = Text (formatTime t)"

definition user_columns :: "string list" where
  "user_columns = [''id'', ''name'', ''email'', ''role'', ''created_at'']"

definition user_values :: "user \<Rightarrow> sql_value list" where
  "user_values u = [Text (u_ID u), Text (u_Name u), Text (u_Email u), Text (u_Role u), time_text (u_CreatedAt u)]"

definition scanUser :: "sql_value list \<Rightarrow> row_err + user" where
  "scanUser row =
     (case row of
        [Text a, Text b, Text c, Text d, Text createdAt] \<Rightarrow>
          Inr \<lparr>u_ID = a, u_Name = b, u_Email = c, u_Role = d, u_CreatedAt = parseTime createdAt\<rparr>
      | _ \<Rightarrow> Inl ScanFailed)"

definition group_columns :: "string list" where
  "group_columns = [''id'', ''name'', ''description'', ''created_at'']"

definition group_values :: "device_group \<Rightarrow> sql_value list" where
  "group_values g = [Text (g_ID g), Text (g_Name g), Text (g_Description g), time_text (g_CreatedAt g)]"

definition scanGroup :: "sql_value list \<Rightarrow> row_err + device_group" where
  "scanGroup row =
     (case row of
        [Text a, Text b, Text c, Text createdAt] \<Rightarrow>
          Inr \<lparr>g_ID = a, g_Name = b, g_Description = c, g_CreatedAt = parseTime createdAt\<rparr>
      | _ \<Rightarrow> Inl ScanFailed)"

definition api_key_columns :: "string list" where
  "api_key_columns = [''id'', ''name'', ''digest'', ''scope'', ''created_at'', ''last_used_at'', ''revoked_at'']"

definition api_key_values :: "api_key \<Rightarrow> sql_value list" where
  "api_key_values k = [Text (k_ID k), Text (k_Name k), Text (k_Digest k), Text (k_Scope k),
     time_text (k_CreatedAt k), time_text (k_LastUsedAt k), time_text (k_RevokedAt k)]"

definition scanAPIKey :: "sql_value list \<Rightarrow> row_err + api_key" where
  "scanAPIKey row =
     (case row of
        [Text a, Text b, Text c, Text d, Text createdAt, Text lastUsedAt, Text revokedAt] \<Rightarrow>
          Inr \<lparr>k_ID = a, k_Name = b, k_Digest = c, k_Scope = d, k_CreatedAt = parseTime createdAt,
               k_LastUsedAt = parseTime lastUsedAt, k_RevokedAt = parseTime revokedAt, k_PlaintextKey = ''''\<rparr>
      | _ \<Rightarrow> Inl ScanFailed)"

definition relay_columns :: "string list" where
  "relay_columns = [''id'', ''name'', ''region'', ''public_url'', ''ipv4'', ''ipv6'', ''status'', ''load'',
     ''last_seen_at'', ''registered'']"

definition relay_values :: "relay_node \<Rightarrow> sql_value list" where
  "relay_values r = [Text (r_ID r), Text (r_Name r), Text (r_Region r), Text (r_PublicURL r), Text (r_IPv4 r),
     Text (r_IPv6 r), Text (r_Status r), Real (r_Load r), time_text (r_LastSeenAt r), time_text (r_Registered r)]"

definition scanRelay :: "sql_value list \<Rightarrow> row_err + relay_node" where
  "scanRelay row =
     (case row of
        [Text a, Text b, Text c, Text d, Text e, Text f, Text g, Real h, Text lastSeenAt, Text registered] \<Rightarrow>
          Inr \<lparr>r_ID = a, r_Name = b, r_Region = c, r_PublicURL = d, r_IPv4 = e, r_IPv6 = f, r_Status = g,
               r_Load = h, r_LastSeenAt = parseTime lastSeenAt, r_Registered = parseTime registered\<rparr>
      | _ \<Rightarrow> Inl ScanFailed)"

definition invitation_columns :: "string list" where
  "invitation_columns = [''id'', ''token_hash'', ''user_id'', ''group_id'', ''reusable'', ''expires_at'',
     ''used_at'', ''created_at'']"

definition invitation_values :: "invitation \<Rightarrow> sql_value list" where
  "invitation_values i = [Text (i_ID i), Text (i_TokenHash i), Text (i_UserID i), Text (i_GroupID i),
     Integer (boolInt (i_Reusable i)), time_text (i_ExpiresAt i), time_text (i_UsedAt i), time_text (i_CreatedAt i)]"

definition scanInvitation :: "sql_value list \<Rightarrow> row_err + invitation" where
  "scanInvitation row =
     (case row of
        [Text a, Text b, Text c, Text d, Integer reusable, Text expiresAt, Text usedAt, Text createdAt] \<Rightarrow>
          Inr \<lparr>i_ID = a, i_TokenHash = b, i_UserID = c, i_GroupID = d, i_Reusable = (reusable = 1),
               i_ExpiresAt = parseTime expiresAt, i_UsedAt = parseTime usedAt, i_CreatedAt = parseTime createdAt,
               i_PlaintextToken = ''''\<rparr>
      | _ \<Rightarrow> Inl ScanFailed)"

definition device_columns :: "string list" where
  "device_columns = [''id'', ''user_id'', ''group_id'', ''name'', ''virtual_ip'', ''public_key'', ''endpoint'',
     ''token_hash'', ''status'', ''last_seen_at'', ''created_at'', ''fingerprint'']"

definition device_values :: "device \<Rightarrow> sql_value list" where
  "device_values d = [Text (d_ID d), Text (d_UserID d), Text (d_GroupID d), Text (d_Name d), Text (d_VirtualIP d),
     Text (d_PublicKey d), Text (d_Endpoint d), Text (d_TokenHash d), Text (d_Status d), time_text (d_LastSeenAt d),
     time_text (d_CreatedAt d), Text (d_Fingerprint d)]"

definition scanDevice :: "sql_value list \<Rightarrow> row_err + device" where
  "scanDevice row =
     (case row of
        [Text a, Text b, Text c, Text d, Text e, Text f, Text g, Text h, Text i, Text lastSeenAt, Text createdAt,
         Text j] \<Rightarrow>
          Inr \<lparr>d_ID = a, d_UserID = b, d_GroupID = c, d_Name = d, d_VirtualIP = e, d_PublicKey = f, d_Endpoint = g,
               d_TokenHash = h, d_DeviceToken = '''', d_Status = i, d_LastSeenAt = parseTime lastSeenAt,
               d_CreatedAt = parseTime createdAt, d_Fingerprint = j\<rparr>
      | _ \<Rightarrow> Inl ScanFailed)"

definition policy_columns :: "string list" where
  "policy_columns = [''id'', ''name'', ''source_id'', ''target_id'', ''ports_json'', ''protocol'', ''enabled'',
     ''description'', ''created_at'', ''updated_at'']"

definition policy_values :: "network_policy \<Rightarrow> sql_value list" where
  "policy_values p = [Text (p_ID p), Text (p_Name p), Text (p_SourceID p), Text (p_TargetID p),
     Text (marshal_strings (p_Ports p)), Text (p_Protocol p), Integer (boolInt (p_Enabled p)),
     Text (p_Description p), time_text (p_CreatedAt p), time_text (p_UpdatedAt p)]"

definition scanPolicy :: "sql_value list \<Rightarrow> row_err + network_policy" where
  "scanPolicy row =
     (case row of
        [Text a, Text b, Text c, Text d, Text portsJSON, Text f, Integer enabled, Text g, Text createdAt,
         Text updatedAt] \<Rightarrow>
          (case unmarshal_strings portsJSON of
             None \<Rightarrow> Inl DecodePorts
           | Some ports \<Rightarrow>
               Inr \<lparr>p_ID = a, p_Name = b, p_SourceID = c, p_TargetID = d, p_Ports = ports, p_Protocol = f,
                    p_Enabled = (enabled = 1), p_Description = g, p_CreatedAt = parseTime createdAt,
                    p_UpdatedAt = parseTime updatedAt\<rparr>)
      | _ \<Rightarrow> Inl ScanFailed)"

section \<open>The calls\<close>

definition sql_CreateUser :: "user \<Rightarrow> unit sql" where
  "sql_CreateUser u = sql_insert ''users'' user_columns (user_values u)"

definition sql_ListUsers :: "user list sql" where
  "sql_ListUsers = sql_query_all user_columns ''users'' newest_first scanUser"

definition sql_GetUser :: "string \<Rightarrow> user sql" where
  "sql_GetUser uid = sql_query_row user_columns ''users'' [(''id'', Text uid)] scanUser"

definition sql_CreateGroup :: "device_group \<Rightarrow> unit sql" where
  "sql_CreateGroup g = sql_insert ''groups'' group_columns (group_values g)"

definition sql_ListGroups :: "device_group list sql" where
  "sql_ListGroups = sql_query_all group_columns ''groups'' newest_first scanGroup"

definition sql_GetGroup :: "string \<Rightarrow> device_group sql" where
  "sql_GetGroup gid = sql_query_row group_columns ''groups'' [(''id'', Text gid)] scanGroup"

definition sql_CreateAPIKey :: "api_key \<Rightarrow> unit sql" where
  "sql_CreateAPIKey k = sql_insert ''api_keys'' api_key_columns (api_key_values k)"

definition sql_GetAPIKeyByDigest :: "string \<Rightarrow> api_key sql" where
  "sql_GetAPIKeyByDigest digest =
     sql_query_row api_key_columns ''api_keys'' [(''digest'', Text digest), (''revoked_at'', Text '''')] scanAPIKey"

definition sql_TouchAPIKey :: "gotime \<Rightarrow> string \<Rightarrow> unit sql" where
  "sql_TouchAPIKey now kid =
     then_sql (sql_update ''api_keys'' [(''last_used_at'', set_to (time_text now))] [(''id'', Text kid)]) sql_done"

definition sql_RevokeAPIKey :: "gotime \<Rightarrow> string \<Rightarrow> unit sql" where
  "sql_RevokeAPIKey now kid =
     then_sql (sql_update ''api_keys'' [(''revoked_at'', set_to (time_text now))]
                 [(''id'', Text kid), (''revoked_at'', Text '''')]) affected"

definition sql_ListAPIKeys :: "api_key list sql" where
  "sql_ListAPIKeys = sql_query_all api_key_columns ''api_keys'' newest_first scanAPIKey"

definition relay_updates :: "string list" where
  "relay_updates = [''name'', ''region'', ''public_url'', ''ipv4'', ''ipv6'', ''status'', ''load'', ''last_seen_at'']"

definition sql_UpsertRelay :: "relay_node \<Rightarrow> unit sql" where
  "sql_UpsertRelay r = sql_upsert ''relays'' relay_columns (relay_values r) ''id'' relay_updates"

definition sql_DeleteRelay :: "string \<Rightarrow> unit sql" where
  "sql_DeleteRelay rid = then_sql (sql_delete ''relays'' [(''id'', Text rid)]) sql_done"

definition sql_getRelay :: "string \<Rightarrow> relay_node sql" where
  "sql_getRelay rid = sql_query_row relay_columns ''relays'' [(''id'', Text rid)] scanRelay"

definition sql_HeartbeatRelay :: "gotime \<Rightarrow> string \<Rightarrow> rat \<Rightarrow> relay_node sql" where
  "sql_HeartbeatRelay now rid load =
     then_sql (then_sql (sql_update ''relays''
         [(''status'', set_to (Text RelayStatusHealthy)), (''load'', set_to (Real load)),
          (''last_seen_at'', set_to (time_text now))] [(''id'', Text rid)]) affected)
       (\<lambda>_. sql_getRelay rid)"

definition sql_ListRelays :: "relay_node list sql" where
  "sql_ListRelays = sql_query_all relay_columns ''relays''
     (sort_key (\<lambda>r. (text_of (r ''region''), text_of (r ''name'')))) scanRelay"

definition sql_CreateInvitation :: "invitation \<Rightarrow> unit sql" where
  "sql_CreateInvitation i = sql_insert ''invitations'' invitation_columns (invitation_values i)"

definition sql_GetInvitationByTokenHash :: "string \<Rightarrow> invitation sql" where
  "sql_GetInvitationByTokenHash th =
     sql_query_row invitation_columns ''invitations'' [(''token_hash'', Text th)] scanInvitation"

definition sql_MarkInvitationUsed :: "gotime \<Rightarrow> string \<Rightarrow> unit sql" where
  "sql_MarkInvitationUsed now iid =
     then_sql (sql_update ''invitations'' [(''used_at'', set_to (time_text now))] [(''id'', Text iid)]) sql_done"

definition sql_CreateDevice :: "device \<Rightarrow> unit sql" where
  "sql_CreateDevice d = sql_insert ''devices'' device_columns (device_values d)"

definition sql_DeleteDevice :: "string \<Rightarrow> unit sql" where
  "sql_DeleteDevice did = then_sql (sql_delete ''devices'' [(''id'', Text did)]) affected"

definition sql_GetDeviceByIDAndTokenHash :: "string \<Rightarrow> string \<Rightarrow> device sql" where
  "sql_GetDeviceByIDAndTokenHash did th =
     sql_query_row device_columns ''devices'' [(''id'', Text did), (''token_hash'', Text th)] scanDevice"

definition sql_getDevice :: "string \<Rightarrow> device sql" where
  "sql_getDevice did = sql_query_row device_columns ''devices'' [(''id'', Text did)] scanDevice"

definition sql_UpdateDeviceHealth :: "gotime \<Rightarrow> string \<Rightarrow> string \<Rightarrow> device_health_report \<Rightarrow> device sql" where
  "sql_UpdateDeviceHealth now did th report =
     (let status = (if dhr_Status report = '''' then DeviceStatusOnline else dhr_Status report);
          endpoint = dhr_Endpoint report
      in then_sql (then_sql (sql_update ''devices''
             [(''status'', set_to (Text status)),
              (''endpoint'', \<lambda>r. if endpoint = '''' then r ''endpoint'' else Text endpoint),
              (''last_seen_at'', set_to (time_text now))]
             [(''id'', Text did), (''token_hash'', Text th)]) affected)
           (\<lambda>_. sql_getDevice did))"

definition sql_ListDevices :: "device list sql" where
  "sql_ListDevices = sql_query_all device_columns ''devices'' newest_first scanDevice"

definition sql_CreatePolicy :: "network_policy \<Rightarrow> unit sql" where
  "sql_CreatePolicy p = sql_insert ''policies'' policy_columns (policy_values p)"

definition sql_DeletePolicy :: "string \<Rightarrow> unit sql" where
  "sql_DeletePolicy pid = then_sql (sql_delete ''policies'' [(''id'', Text pid)]) affected"

definition sql_ListPolicies :: "network_policy list sql" where
  "sql_ListPolicies = sql_query_all policy_columns ''policies'' newest_first scanPolicy"

definition sql_Overview :: "overview sql" where
  "sql_Overview =
     then_sql (sql_value_of ''devices'' length) (\<lambda>total.
     then_sql (sql_value_of ''devices'' (count_where [(''status'', Text DeviceStatusOnline)])) (\<lambda>online.
     then_sql (sql_value_of ''relays'' length) (\<lambda>relays.
     then_sql (sql_value_of ''relays'' (count_where [(''status'', Text RelayStatusHealthy)])) (\<lambda>healthy.
     then_sql (sql_value_of ''policies'' length) (\<lambda>policies.
     then_sql (sql_value_of ''relays'' (avg_column ''load'')) (\<lambda>load s.
       (Inr \<lparr>ov_OnlineDevices = online, ov_TotalDevices = total, ov_RelayNodes = relays,
             ov_HealthyRelays = healthy, ov_PolicyCount = policies,
             ov_NetworkHealth = network_health relays healthy, ov_AverageLoad = load\<rparr>, s)))))))"

text \<open>Migration: the table definitions and the added columns do not touch rows.\<close>

definition sql_schema :: "unit sql" where
  "sql_schema = sql_exec (\<lambda>s. (Inr (), s))"

definition sql_Migrate :: "gotime \<Rightarrow> unit sql" where
  "sql_Migrate now =
     then_sql sql_schema (\<lambda>_.
     then_sql sql_schema (\<lambda>_.
     then_sql sql_schema (\<lambda>_.
     then_sql (sql_insert_or_ignore ''users'' user_columns
        [Text ''default-user'', Text ''Default User'', Text '''', Text ''admin'', time_text now]) (\<lambda>_.
     sql_insert_or_ignore ''groups'' group_columns
        [Text ''default'', Text ''Default'', Text ''Default Linkbit device group'', time_text now]))))"

end
