(* ===== verification/Store_Refinement.thy ===== *)
theory Store_Refinement
  imports Sqlite_Rows Store_Laws
begin

text \<open>
  The record tables of \<open>Sqlite_Store\<close> are what the rows of \<open>Sqlite_Rows\<close> mean: as long as the times
  stay before the year 10000 and ports are UTF-8, every call of the store has the same answer and
  the same effect on both. The argument is one locale, \<open>stored_table\<close>, about a table, the values
  of its columns and the function that scans them, interpreted on the seven tables.
\<close>

section \<open>The rows of a database\<close>

definition rows_of :: "db \<Rightarrow> sqlite" where
  "rows_of s =
     \<lparr>sq_tables = (\<lambda>t.
        if t = ''users'' then map (\<lambda>r. row_of user_columns (user_values r)) (db_users s)
        else if t = ''groups'' then map (\<lambda>r. row_of group_columns (group_values r)) (db_groups s)
        else if t = ''relays'' then map (\<lambda>r. row_of relay_columns (relay_values r)) (db_relays s)
        else if t = ''invitations'' then map (\<lambda>r. row_of invitation_columns (invitation_values r)) (db_invitations s)
        else if t = ''api_keys'' then map (\<lambda>r. row_of api_key_columns (api_key_values r)) (db_api_keys s)
        else if t = ''devices'' then map (\<lambda>r. row_of device_columns (device_values r)) (db_devices s)
        else if t = ''policies'' then map (\<lambda>r. row_of policy_columns (policy_values r)) (db_policies s)
        else []),
      sq_faults = db_faults s\<rparr>"

text \<open>What a row can hold: times that the text format can express, and no plaintext secrets.\<close>

definition fit_user :: "user \<Rightarrow> bool" where
  "fit_user u \<longleftrightarrow> u_CreatedAt u < year_10000"

definition fit_group :: "device_group \<Rightarrow> bool" where
  "fit_group g \<longleftrightarrow> g_CreatedAt g < year_10000"

definition fit_relay :: "relay_node \<Rightarrow> bool" where
  "fit_relay r \<longleftrightarrow> r_LastSeenAt r < year_10000 \<and> r_Registered r < year_10000"

definition fit_invitation :: "invitation \<Rightarrow> bool" where
  "fit_invitation i \<longleftrightarrow> i_ExpiresAt i < year_10000 \<and> i_UsedAt i < year_10000 \<and> i_CreatedAt i < year_10000
     \<and> i_PlaintextToken i = ''''"

definition fit_api_key :: "api_key \<Rightarrow> bool" where
  "fit_api_key k \<longleftrightarrow> k_CreatedAt k < year_10000 \<and> k_LastUsedAt k < year_10000 \<and> k_RevokedAt k < year_10000
     \<and> k_PlaintextKey k = ''''"

definition fit_device :: "device \<Rightarrow> bool" where
  "fit_device d \<longleftrightarrow> d_LastSeenAt d < year_10000 \<and> d_CreatedAt d < year_10000 \<and> d_DeviceToken d = ''''"

definition fit_policy :: "network_policy \<Rightarrow> bool" where
  "fit_policy p \<longleftrightarrow> p_CreatedAt p < year_10000 \<and> p_UpdatedAt p < year_10000
     \<and> (\<forall>ports \<in> set_option (p_Ports p). list_all valid_utf8 ports)"

lemmas fit_defs = fit_user_def fit_group_def fit_relay_def fit_invitation_def fit_api_key_def
  fit_device_def fit_policy_def

definition storable :: "db \<Rightarrow> bool" where
  "storable s \<longleftrightarrow> list_all fit_user (db_users s) \<and> list_all fit_group (db_groups s)
     \<and> list_all fit_relay (db_relays s) \<and> list_all fit_invitation (db_invitations s)
     \<and> list_all fit_api_key (db_api_keys s) \<and> list_all fit_device (db_devices s)
     \<and> list_all fit_policy (db_policies s)"

section \<open>Refinement of calls\<close>

definition as_sql :: "store_err + 'a \<Rightarrow> row_err + 'a" where
  "as_sql x = (case x of Inl e \<Rightarrow> Inl (Statement e) | Inr v \<Rightarrow> Inr v)"

lemma as_sql_simps [simp]: "as_sql (Inl e) = Inl (Statement e)" "as_sql (Inr v) = Inr v"
  by (simp_all add: as_sql_def)

definition refines :: "'a sql \<Rightarrow> 'a stmt \<Rightarrow> bool" where
  "refines c a \<longleftrightarrow> (\<forall>s. storable s \<longrightarrow>
     c (rows_of s) = (as_sql (fst (a s)), rows_of (snd (a s))) \<and> storable (snd (a s)))"

lemma refines_then:
  assumes "refines c a" and "\<And>v. refines (d v) (b v)"
  shows "refines (then_sql c d) (then_stmt a b)"
  using assms unfolding refines_def then_sql_def then_stmt_def
  by (fastforce simp: split_beta split: sum.splits prod.splits)

text \<open>A statement is refined when its body is, on the state with the rest of the fault script.\<close>

lemma refines_exec:
  assumes "\<And>s. storable s \<Longrightarrow> c (rows_of s) = (as_sql (fst (a s)), rows_of (snd (a s))) \<and> storable (snd (a s))"
  shows "refines (sql_exec c) (exec_stmt a)"
proof -
  have "rows_of (s\<lparr>db_faults := fs\<rparr>) = rows_of s\<lparr>sq_faults := fs\<rparr>" "storable (s\<lparr>db_faults := fs\<rparr>) = storable s"
    "sq_faults (rows_of s) = db_faults s" for s fs
    by (simp_all add: rows_of_def storable_def cong: if_cong)
  then show ?thesis
    using assms by (auto simp: refines_def sql_exec_def exec_stmt_def split: list.splits) metis+
qed

lemma refines_return: "refines (\<lambda>s. (Inr v, s)) (\<lambda>s. (Inr v, s))"
  by (simp add: refines_def)

lemma refines_done: "refines (sql_done n) (\<lambda>s. (Inr (), s))"
  by (simp add: refines_def sql_done_def)

section \<open>A stored table\<close>

lemma map_row_of: "distinct cs \<Longrightarrow> length vs = length cs \<Longrightarrow> map (row_of cs vs) cs = vs"
proof (induction cs arbitrary: vs)
  case (Cons c cs)
  then obtain v ws where vs: "vs = v # ws" by (cases vs) auto
  have "map (row_of (c # cs) vs) cs = map (row_of cs ws) cs"
    using Cons.prems(1) by (intro map_cong) (auto simp: row_of_def vs)
  also have "\<dots> = ws" using Cons vs by simp
  finally show ?case by (simp add: vs row_of_def [of "c # cs" "v # ws" c])
qed simp

locale stored_table =
  fixes table :: string and cols :: "string list" and vals :: "'r \<Rightarrow> sql_value list"
    and scan :: "sql_value list \<Rightarrow> row_err + 'r" and fit :: "'r \<Rightarrow> bool"
    and get :: "db \<Rightarrow> 'r list" and put :: "'r list \<Rightarrow> db \<Rightarrow> db"
  assumes cols: "distinct cols" "length (vals r) = length cols"
    and scan: "fit r \<Longrightarrow> scan (vals r) = Inr r"
    and rows_get: "sq_tables (rows_of s) table = map (\<lambda>r. row_of cols (vals r)) (get s)"
    and rows_put: "rows_of (put rs s) = with_table table (map (\<lambda>r. row_of cols (vals r)) rs) (rows_of s)"
    and fit_get: "storable s \<Longrightarrow> list_all fit (get s)"
    and fit_put: "storable s \<Longrightarrow> list_all fit rs \<Longrightarrow> storable (put rs s)"
begin

abbreviation row :: "'r \<Rightarrow> sql_row" where
  "row r \<equiv> row_of cols (vals r)"

lemma map_row [simp]: "map (row r) cols = vals r"
  by (simp add: map_row_of cols)

lemma map_row_cols: "map (\<lambda>r'. map r' cols) (map row rs) = map vals rs"
  by (simp add: comp_def)

lemma scan_rows: "list_all fit rs \<Longrightarrow> scan_all scan (map vals rs) = Inr rs"
  by (induction rs) (simp_all add: scan)

lemma selects_fit: "storable s \<Longrightarrow> r \<in> set (get s) \<Longrightarrow> fit r"
  using fit_get [of s] by (simp add: list_all_iff)

lemma insert_refined:
  assumes "vals r = vals r'" and "fit r"
    and "\<And>x. fit x \<Longrightarrow> conflict r x = conflicts table (row r) (row x)"
  shows "refines (sql_insert table cols (vals r')) (insert_into conflict get put r)"
  unfolding sql_insert_def insert_into_def
proof (rule refines_exec)
  fix s assume s: "storable s"
  have "list_ex (conflict r) (get s) = list_ex (conflicts table (row r)) (map row (get s))"
    using assms(3) selects_fit [OF s] by (auto simp: list_ex_iff)
  then show "(if list_ex (conflicts table (row_of cols (vals r'))) (sq_tables (rows_of s) table)
      then (Inl (Statement ErrConstraint), rows_of s)
      else (Inr (), with_table table (sq_tables (rows_of s) table @ [row_of cols (vals r')]) (rows_of s)))
    = (as_sql (fst (case tbl_insert conflict r (get s) of None \<Rightarrow> (Inl ErrConstraint, s) | Some rows \<Rightarrow> (Inr (), put rows s))),
       rows_of (snd (case tbl_insert conflict r (get s) of None \<Rightarrow> (Inl ErrConstraint, s) | Some rows \<Rightarrow> (Inr (), put rows s))))
    \<and> storable (snd (case tbl_insert conflict r (get s) of None \<Rightarrow> (Inl ErrConstraint, s) | Some rows \<Rightarrow> (Inr (), put rows s)))"
    using s assms(2) fit_get [OF s] fit_put [OF s, of "get s @ [r]"]
    by (simp add: tbl_insert_def rows_get rows_put assms(1) [symmetric])
qed

lemma query_row_refined:
  assumes "\<And>x. fit x \<Longrightarrow> p x = eqs wher (row x)"
  shows "refines (sql_query_row cols table wher scan) (query_row get p)"
  unfolding sql_query_row_def query_row_def
proof (rule refines_exec)
  fix s assume s: "storable s"
  have "find (eqs wher) (map row rs) = map_option row (find p rs)" if "list_all fit rs" for rs
    using that assms by (induction rs) auto
  from this [OF fit_get [OF s]]
  show "(case find (eqs wher) (sq_tables (rows_of s) table) of None \<Rightarrow> Inl (Statement ErrNoRows) | Some r \<Rightarrow> scan (map r cols), rows_of s)
    = (as_sql (fst (case find p (get s) of None \<Rightarrow> Inl ErrNoRows | Some r \<Rightarrow> Inr r, s)), rows_of (snd (case find p (get s) of None \<Rightarrow> Inl ErrNoRows | Some r \<Rightarrow> Inr r, s)))
    \<and> storable (snd (case find p (get s) of None \<Rightarrow> Inl ErrNoRows | Some r \<Rightarrow> Inr r, s))"
    using s by (auto simp: rows_get scan selects_fit dest: find_SomeD split: option.splits)
qed

lemma query_all_refined:
  assumes "\<And>rs. list_all fit rs \<Longrightarrow> order_by (map row rs) = map row (ordered rs)"
    and "\<And>rs. set (ordered rs) = set rs"
  shows "refines (sql_query_all cols table order_by scan) (query_all (\<lambda>s. ordered (get s)))"
  unfolding sql_query_all_def query_all_def
proof (rule refines_exec)
  fix s assume s: "storable s"
  have "list_all fit (ordered (get s))"
    using fit_get [OF s] assms(2) by (simp add: list_all_iff)
  then show "(scan_all scan (map (\<lambda>r. map r cols) (order_by (sq_tables (rows_of s) table))), rows_of s)
    = (as_sql (fst (Inr (ordered (get s)), s)), rows_of (snd (Inr (ordered (get s)), s)))
    \<and> storable (snd (Inr (ordered (get s)), s))"
    using s assms(1) fit_get [OF s] by (simp only: rows_get map_row_cols scan_rows) simp
qed

lemma value_refined:
  assumes "\<And>rs. list_all fit rs \<Longrightarrow> f (map row rs) = g rs"
  shows "refines (sql_value_of table f) (query_all (\<lambda>s. g (get s)))"
  unfolding sql_value_of_def query_all_def
  by (rule refines_exec) (simp add: rows_get assms fit_get)

text \<open>Updates and deletions, with and without the test of the number of rows.\<close>

definition change_ok :: "('r \<Rightarrow> bool) \<Rightarrow> ('r list \<Rightarrow> 'r list) \<Rightarrow> (string \<times> sql_value) list \<Rightarrow> (sql_row list \<Rightarrow> sql_row list) \<Rightarrow> bool" where
  "change_ok p f wher c \<longleftrightarrow> (\<forall>x. fit x \<longrightarrow> p x = eqs wher (row x))
     \<and> (\<forall>rs. list_all fit rs \<longrightarrow> list_all fit (f rs) \<and> c (map row rs) = map row (f rs))"

lemma change_refined:
  assumes "change_ok p f wher c"
  shows "refines (then_sql (sql_exec (\<lambda>s. (Inr (tbl_count (eqs wher) (sq_tables s table)),
             with_table table (c (sq_tables s table)) s))) affected)
           (exec_rows (\<lambda>s. tbl_count p (get s)) (\<lambda>s. put (f (get s)) s))"
    and "refines (then_sql (sql_exec (\<lambda>s. (Inr (tbl_count (eqs wher) (sq_tables s table)),
             with_table table (c (sq_tables s table)) s))) sql_done)
           (exec_quiet (\<lambda>s. put (f (get s)) s))"
proof -
  have count: "tbl_count (eqs wher) (map row rs) = tbl_count p rs" if "list_all fit rs" for rs
    using that assms by (induction rs) (auto simp: tbl_count_def change_ok_def)
  have eq1: "then_sql (sql_exec (\<lambda>s. (Inr (n s), g s))) affected
      = sql_exec (\<lambda>s. (if n s = 0 then Inl (Statement ErrNoRows) else Inr (), g s))" for n g
    by (auto simp: then_sql_def sql_exec_def affected_def fun_eq_iff split: list.splits)
  have eq2: "then_sql (sql_exec (\<lambda>s. (Inr (n s), g s))) sql_done = sql_exec (\<lambda>s. (Inr (), g s))" for n :: "sqlite \<Rightarrow> nat" and g
    by (auto simp: then_sql_def sql_exec_def sql_done_def fun_eq_iff split: list.splits)
  show "refines (then_sql (sql_exec (\<lambda>s. (Inr (tbl_count (eqs wher) (sq_tables s table)),
             with_table table (c (sq_tables s table)) s))) affected)
           (exec_rows (\<lambda>s. tbl_count p (get s)) (\<lambda>s. put (f (get s)) s))"
    unfolding eq1 exec_rows_def
    using assms by (intro refines_exec) (simp add: rows_get rows_put count fit_get fit_put change_ok_def)
  show "refines (then_sql (sql_exec (\<lambda>s. (Inr (tbl_count (eqs wher) (sq_tables s table)),
             with_table table (c (sq_tables s table)) s))) sql_done)
           (exec_quiet (\<lambda>s. put (f (get s)) s))"
    unfolding eq2 exec_quiet_def
    using assms by (intro refines_exec) (simp add: rows_get rows_put count fit_get fit_put change_ok_def)
qed

lemma update_ok:
  assumes "\<And>x. fit x \<Longrightarrow> p x = eqs wher (row x)"
    and "\<And>x. fit x \<Longrightarrow> p x \<Longrightarrow> fit (f x) \<and> set_columns sets (row x) = row (f x)"
  shows "change_ok p (tbl_update p f) wher (tbl_update (eqs wher) (set_columns sets))"
  using assms by (auto simp: change_ok_def tbl_update_def list_all_iff)

lemma delete_ok:
  assumes "\<And>x. fit x \<Longrightarrow> p x = eqs wher (row x)"
  shows "change_ok p (tbl_delete p) wher (tbl_delete (eqs wher))"
proof -
  have "filter (\<lambda>r. \<not> eqs wher r) (map row rs) = map row (filter (\<lambda>r. \<not> p r) rs)" if "list_all fit rs" for rs
    using that assms by (induction rs) auto
  with assms show ?thesis by (auto simp: change_ok_def tbl_delete_def list_all_iff)
qed

lemmas update_refined = change_refined [OF update_ok, folded sql_update_def]
lemmas delete_refined = change_refined [OF delete_ok, folded sql_delete_def]

lemma put_refined:
  assumes "\<And>rs. list_all fit rs \<Longrightarrow> list_all fit (f rs) \<and> c (map row rs) = map row (f rs)"
  shows "refines (sql_exec (\<lambda>s. (Inr (), with_table table (c (sq_tables s table)) s))) (exec_quiet (\<lambda>s. put (f (get s)) s))"
  unfolding exec_quiet_def
  using assms by (intro refines_exec) (simp add: rows_get rows_put fit_get fit_put)

end

section \<open>The seven tables\<close>

lemma rows_of_tables:
  "sq_tables (rows_of s) ''users'' = map (\<lambda>r. row_of user_columns (user_values r)) (db_users s)"
  "sq_tables (rows_of s) ''groups'' = map (\<lambda>r. row_of group_columns (group_values r)) (db_groups s)"
  "sq_tables (rows_of s) ''api_keys'' = map (\<lambda>r. row_of api_key_columns (api_key_values r)) (db_api_keys s)"
  "sq_tables (rows_of s) ''relays'' = map (\<lambda>r. row_of relay_columns (relay_values r)) (db_relays s)"
  "sq_tables (rows_of s) ''invitations'' = map (\<lambda>r. row_of invitation_columns (invitation_values r)) (db_invitations s)"
  "sq_tables (rows_of s) ''devices'' = map (\<lambda>r. row_of device_columns (device_values r)) (db_devices s)"
  "sq_tables (rows_of s) ''policies'' = map (\<lambda>r. row_of policy_columns (policy_values r)) (db_policies s)"
  by (simp_all add: rows_of_def)

lemma rows_of_update:
  "rows_of (s\<lparr>db_users := rs_users\<rparr>) = with_table ''users'' (map (\<lambda>r. row_of user_columns (user_values r)) rs_users) (rows_of s)"
  "rows_of (s\<lparr>db_groups := rs_groups\<rparr>) = with_table ''groups'' (map (\<lambda>r. row_of group_columns (group_values r)) rs_groups) (rows_of s)"
  "rows_of (s\<lparr>db_api_keys := rs_api_keys\<rparr>) = with_table ''api_keys'' (map (\<lambda>r. row_of api_key_columns (api_key_values r)) rs_api_keys) (rows_of s)"
  "rows_of (s\<lparr>db_relays := rs_relays\<rparr>) = with_table ''relays'' (map (\<lambda>r. row_of relay_columns (relay_values r)) rs_relays) (rows_of s)"
  "rows_of (s\<lparr>db_invitations := rs_invitations\<rparr>) = with_table ''invitations'' (map (\<lambda>r. row_of invitation_columns (invitation_values r)) rs_invitations) (rows_of s)"
  "rows_of (s\<lparr>db_devices := rs_devices\<rparr>) = with_table ''devices'' (map (\<lambda>r. row_of device_columns (device_values r)) rs_devices) (rows_of s)"
  "rows_of (s\<lparr>db_policies := rs_policies\<rparr>) = with_table ''policies'' (map (\<lambda>r. row_of policy_columns (policy_values r)) rs_policies) (rows_of s)"
  by (auto simp: rows_of_def with_table_def fun_eq_iff)

lemma boolInt_1 [simp]: "boolInt b = 1 \<longleftrightarrow> b"
  by (simp add: boolInt_def)

lemmas row_laws = rows_of_tables rows_of_update fit_defs parseTime_formatTime time_text_def

interpretation sql_users: stored_table "''users''" user_columns user_values scanUser fit_user db_users
  "\<lambda>rows s. s\<lparr>db_users := rows\<rparr>"
  by unfold_locales
    (simp_all add: user_columns_def user_values_def scanUser_def row_laws storable_def)

interpretation sql_groups: stored_table "''groups''" group_columns group_values scanGroup fit_group db_groups
  "\<lambda>rows s. s\<lparr>db_groups := rows\<rparr>"
  by unfold_locales
    (simp_all add: group_columns_def group_values_def scanGroup_def row_laws storable_def)

interpretation sql_api_keys: stored_table "''api_keys''" api_key_columns api_key_values scanAPIKey fit_api_key db_api_keys
  "\<lambda>rows s. s\<lparr>db_api_keys := rows\<rparr>"
  by unfold_locales
    (simp_all add: api_key_columns_def api_key_values_def scanAPIKey_def row_laws storable_def)

interpretation sql_relays: stored_table "''relays''" relay_columns relay_values scanRelay fit_relay db_relays
  "\<lambda>rows s. s\<lparr>db_relays := rows\<rparr>"
  by unfold_locales
    (simp_all add: relay_columns_def relay_values_def scanRelay_def row_laws storable_def)

interpretation sql_invitations: stored_table "''invitations''" invitation_columns invitation_values scanInvitation fit_invitation db_invitations
  "\<lambda>rows s. s\<lparr>db_invitations := rows\<rparr>"
  by unfold_locales
    (simp_all add: invitation_columns_def invitation_values_def scanInvitation_def row_laws storable_def)

interpretation sql_devices: stored_table "''devices''" device_columns device_values scanDevice fit_device db_devices
  "\<lambda>rows s. s\<lparr>db_devices := rows\<rparr>"
  by unfold_locales
    (simp_all add: device_columns_def device_values_def scanDevice_def row_laws storable_def)

interpretation sql_policies: stored_table "''policies''" policy_columns policy_values scanPolicy fit_policy db_policies
  "\<lambda>rows s. s\<lparr>db_policies := rows\<rparr>"
  by unfold_locales
    (simp_all add: policy_columns_def policy_values_def scanPolicy_def row_laws storable_def unmarshal_marshal)

section \<open>Every call\<close>

lemmas columns_of = user_columns_def user_values_def group_columns_def group_values_def
  api_key_columns_def api_key_values_def relay_columns_def relay_values_def
  invitation_columns_def invitation_values_def device_columns_def device_values_def
  policy_columns_def policy_values_def

text \<open>The cells the statements look at.\<close>

lemma cells:
  "row_of user_columns (user_values u) ''id'' = Text (u_ID u)"
  "row_of user_columns (user_values u) ''created_at'' = Text (formatTime (u_CreatedAt u))"
  "row_of group_columns (group_values g) ''id'' = Text (g_ID g)"
  "row_of group_columns (group_values g) ''created_at'' = Text (formatTime (g_CreatedAt g))"
  "row_of api_key_columns (api_key_values k) ''id'' = Text (k_ID k)"
  "row_of api_key_columns (api_key_values k) ''digest'' = Text (k_Digest k)"
  "row_of api_key_columns (api_key_values k) ''revoked_at'' = Text (formatTime (k_RevokedAt k))"
  "row_of api_key_columns (api_key_values k) ''created_at'' = Text (formatTime (k_CreatedAt k))"
  "row_of relay_columns (relay_values r) ''id'' = Text (r_ID r)"
  "row_of relay_columns (relay_values r) ''region'' = Text (r_Region r)"
  "row_of relay_columns (relay_values r) ''name'' = Text (r_Name r)"
  "row_of relay_columns (relay_values r) ''status'' = Text (r_Status r)"
  "row_of relay_columns (relay_values r) ''load'' = Real (r_Load r)"
  "row_of invitation_columns (invitation_values i) ''id'' = Text (i_ID i)"
  "row_of invitation_columns (invitation_values i) ''token_hash'' = Text (i_TokenHash i)"
  "row_of device_columns (device_values d) ''id'' = Text (d_ID d)"
  "row_of device_columns (device_values d) ''token_hash'' = Text (d_TokenHash d)"
  "row_of device_columns (device_values d) ''virtual_ip'' = Text (d_VirtualIP d)"
  "row_of device_columns (device_values d) ''endpoint'' = Text (d_Endpoint d)"
  "row_of device_columns (device_values d) ''status'' = Text (d_Status d)"
  "row_of device_columns (device_values d) ''created_at'' = Text (formatTime (d_CreatedAt d))"
  "row_of policy_columns (policy_values p) ''id'' = Text (p_ID p)"
  "row_of policy_columns (policy_values p) ''created_at'' = Text (formatTime (p_CreatedAt p))"
  by (simp_all add: row_of_def columns_of time_text_def)

lemmas clause_simps = eqs_def cells formatTime_empty_iff conflicts_def key_columns_def

lemma sort_key_map: "sort_key k (map f xs) = map f (sort_key (\<lambda>x. k (f x)) xs)"
proof -
  have insort: "insort_key k (f x) (map f ys) = map f (insort_key (\<lambda>x. k (f x)) x ys)" for x ys
    by (induction ys) auto
  show ?thesis by (induction xs) (simp_all add: insort)
qed

lemma newest_first_rows:
  "(\<And>x. text_of (row x ''created_at'') = key x) \<Longrightarrow> newest_first (map row xs) = map row (order_desc key xs)"
  by (simp add: newest_first_def order_desc_def sort_key_map rev_map)

lemma values_forget:
  "api_key_values (k\<lparr>k_PlaintextKey := x\<rparr>) = api_key_values k"
  "invitation_values (i\<lparr>i_PlaintextToken := x\<rparr>) = invitation_values i"
  "device_values (d\<lparr>d_DeviceToken := x\<rparr>) = device_values d"
  by (simp_all add: columns_of)

lemma refines_creates:
  "fit_user u \<Longrightarrow> refines (sql_CreateUser u) (CreateUser u)"
  "fit_group g \<Longrightarrow> refines (sql_CreateGroup g) (CreateGroup g)"
  "fit_api_key (k\<lparr>k_PlaintextKey := ''''\<rparr>) \<Longrightarrow> refines (sql_CreateAPIKey k) (CreateAPIKey k)"
  "fit_invitation (i\<lparr>i_PlaintextToken := ''''\<rparr>) \<Longrightarrow> refines (sql_CreateInvitation i) (CreateInvitation i)"
  "fit_device (d\<lparr>d_DeviceToken := ''''\<rparr>) \<Longrightarrow> refines (sql_CreateDevice d) (CreateDevice d)"
  "fit_policy p \<Longrightarrow> refines (sql_CreatePolicy p) (CreatePolicy p)"
  unfolding sql_CreateUser_def CreateUser_def sql_CreateGroup_def CreateGroup_def sql_CreateAPIKey_def
    CreateAPIKey_def sql_CreateInvitation_def CreateInvitation_def sql_CreateDevice_def CreateDevice_def
    sql_CreatePolicy_def CreatePolicy_def
  by (rule sql_users.insert_refined sql_groups.insert_refined sql_api_keys.insert_refined
      sql_invitations.insert_refined sql_devices.insert_refined sql_policies.insert_refined;
      simp add: clause_simps values_forget)+

lemma refines_queries:
  "refines (sql_GetUser uid) (GetUser uid)"
  "refines (sql_GetGroup gid) (GetGroup gid)"
  "refines (sql_GetAPIKeyByDigest digest) (GetAPIKeyByDigest digest)"
  "refines (sql_getRelay rid) (getRelay rid)"
  "refines (sql_GetInvitationByTokenHash th) (GetInvitationByTokenHash th)"
  "refines (sql_GetDeviceByIDAndTokenHash did th) (GetDeviceByIDAndTokenHash did th)"
  "refines (sql_getDevice did) (getDevice did)"
  unfolding sql_GetUser_def GetUser_def sql_GetGroup_def GetGroup_def sql_GetAPIKeyByDigest_def
    GetAPIKeyByDigest_def sql_getRelay_def getRelay_def sql_GetInvitationByTokenHash_def
    GetInvitationByTokenHash_def sql_GetDeviceByIDAndTokenHash_def GetDeviceByIDAndTokenHash_def
    sql_getDevice_def getDevice_def
  by (rule sql_users.query_row_refined sql_groups.query_row_refined sql_api_keys.query_row_refined
      sql_relays.query_row_refined sql_invitations.query_row_refined sql_devices.query_row_refined;
      auto simp: clause_simps fit_defs)+

lemma refines_lists:
  "refines sql_ListUsers ListUsers" "refines sql_ListGroups ListGroups" "refines sql_ListAPIKeys ListAPIKeys"
  "refines sql_ListRelays ListRelays" "refines sql_ListDevices ListDevices" "refines sql_ListPolicies ListPolicies"
  unfolding sql_ListUsers_def ListUsers_def sql_ListGroups_def ListGroups_def sql_ListAPIKeys_def ListAPIKeys_def
    sql_ListRelays_def ListRelays_def sql_ListDevices_def ListDevices_def sql_ListPolicies_def ListPolicies_def
  by (rule sql_users.query_all_refined sql_groups.query_all_refined sql_api_keys.query_all_refined
      sql_relays.query_all_refined sql_devices.query_all_refined sql_policies.query_all_refined;
      simp add: newest_first_rows sort_key_map cells text_of_def)+

lemma set_columns_cells:
  "set_columns [(''last_used_at'', set_to (time_text t))] (row_of api_key_columns (api_key_values k))
     = row_of api_key_columns (api_key_values (k\<lparr>k_LastUsedAt := t\<rparr>))"
  "set_columns [(''revoked_at'', set_to (time_text t))] (row_of api_key_columns (api_key_values k))
     = row_of api_key_columns (api_key_values (k\<lparr>k_RevokedAt := t\<rparr>))"
  "set_columns [(''status'', set_to (Text st)), (''load'', set_to (Real l)), (''last_seen_at'', set_to (time_text t))]
       (row_of relay_columns (relay_values r))
     = row_of relay_columns (relay_values (r\<lparr>r_Status := st, r_Load := l, r_LastSeenAt := t\<rparr>))"
  "set_columns [(''used_at'', set_to (time_text t))] (row_of invitation_columns (invitation_values i))
     = row_of invitation_columns (invitation_values (i\<lparr>i_UsedAt := t\<rparr>))"
  by (auto simp: fun_eq_iff set_columns_def set_to_def row_of_def columns_of)

lemma set_columns_health:
  "set_columns [(''status'', set_to (Text (if dhr_Status report = '''' then DeviceStatusOnline else dhr_Status report))),
       (''endpoint'', \<lambda>r. if dhr_Endpoint report = '''' then r ''endpoint'' else Text (dhr_Endpoint report)),
       (''last_seen_at'', set_to (time_text t))] (row_of device_columns (device_values d))
     = row_of device_columns (device_values (health_row t report d))"
  by (auto simp: fun_eq_iff set_columns_def set_to_def row_of_def columns_of health_row_def)

lemma refines_updates:
  assumes "now < year_10000"
  shows "refines (sql_TouchAPIKey now kid) (TouchAPIKey now kid)"
    and "refines (sql_RevokeAPIKey now kid) (RevokeAPIKey now kid)"
    and "refines (sql_MarkInvitationUsed now iid) (MarkInvitationUsed now iid)"
    and "refines (sql_HeartbeatRelay now rid load) (HeartbeatRelay now rid load)"
    and "refines (sql_UpdateDeviceHealth now did th report) (UpdateDeviceHealth now did th report)"
  unfolding sql_TouchAPIKey_def TouchAPIKey_def sql_RevokeAPIKey_def RevokeAPIKey_def sql_MarkInvitationUsed_def
    MarkInvitationUsed_def sql_HeartbeatRelay_def HeartbeatRelay_def sql_UpdateDeviceHealth_def
    UpdateDeviceHealth_def Let_def
  using assms
  by (intro refines_then refines_queries sql_api_keys.update_refined sql_invitations.update_refined
      sql_relays.update_refined sql_devices.update_refined;
      auto simp: clause_simps fit_defs set_columns_cells set_columns_health health_row_def)+

lemma refines_deletes:
  "refines (sql_DeleteRelay rid) (DeleteRelay rid)"
  "refines (sql_DeleteDevice did) (DeleteDevice did)"
  "refines (sql_DeletePolicy pid) (DeletePolicy pid)"
  unfolding sql_DeleteRelay_def DeleteRelay_def sql_DeleteDevice_def DeleteDevice_def sql_DeletePolicy_def DeletePolicy_def
  by (rule sql_relays.delete_refined sql_devices.delete_refined sql_policies.delete_refined; simp add: clause_simps)+

lemma upsert_cells:
  assumes "r_ID old = r_ID new"
  shows "(\<lambda>c. if c \<in> set relay_updates then row_of relay_columns (relay_values new) c
              else row_of relay_columns (relay_values old) c)
    = row_of relay_columns (relay_values (upsert_row new old))"
  using assms by (auto simp: fun_eq_iff row_of_def columns_of upsert_row_def relay_updates_def)

lemma refines_upsert:
  assumes "fit_relay r"
  shows "refines (sql_UpsertRelay r) (UpsertRelay r)"
proof -
  define c where "c rows = (if list_ex (\<lambda>x. x ''id'' = Text (r_ID r)) rows
     then map (\<lambda>x. if x ''id'' = Text (r_ID r) then (\<lambda>k. if k \<in> set relay_updates
       then row_of relay_columns (relay_values r) k else x k) else x) rows
     else rows @ [row_of relay_columns (relay_values r)])" for rows
  have c: "sql_UpsertRelay r = sql_exec (\<lambda>s. (Inr (), with_table ''relays'' (c (sq_tables s ''relays'')) s))"
    by (auto simp: sql_UpsertRelay_def sql_upsert_def c_def Let_def cells intro!: arg_cong [of _ _ sql_exec])
  show ?thesis
    unfolding c UpsertRelay_def
  proof (rule sql_relays.put_refined)
    fix rs assume "list_all fit_relay rs"
    then show "list_all fit_relay (if list_ex (\<lambda>x. r_ID x = r_ID r) rs
         then tbl_update (\<lambda>x. r_ID x = r_ID r) (upsert_row r) rs else rs @ [r])
       \<and> c (map (\<lambda>r. row_of relay_columns (relay_values r)) rs) = map (\<lambda>r. row_of relay_columns (relay_values r))
         (if list_ex (\<lambda>x. r_ID x = r_ID r) rs then tbl_update (\<lambda>x. r_ID x = r_ID r) (upsert_row r) rs else rs @ [r])"
      using assms by (auto simp: c_def cells upsert_cells tbl_update_def list_all_iff list_ex_iff fit_defs upsert_row_def)
  qed
qed

lemma refines_overview: "refines sql_Overview Overview"
proof -
  have count: "count_where [(c, Text v)] (map row rs) = tbl_count (\<lambda>r. g r = v) rs"
    if "\<And>x. row x c = Text (g x)" for row :: "'r \<Rightarrow> sql_row" and c v rs g
    by (induction rs) (auto simp: count_where_def tbl_count_def eqs_def that)
  show ?thesis
    unfolding sql_Overview_def Overview_def
    by (intro refines_then refines_return sql_devices.value_refined sql_relays.value_refined sql_policies.value_refined)
      (simp_all add: count cells avg_column_def average_load_def real_of_def comp_def)
qed

lemma with_table_same:
  "with_table ''users'' (map (\<lambda>r. row_of user_columns (user_values r)) (db_users s)) (rows_of s) = rows_of s"
  "with_table ''groups'' (map (\<lambda>r. row_of group_columns (group_values r)) (db_groups s)) (rows_of s) = rows_of s"
  by (simp_all add: rows_of_tables [symmetric] with_table_def)

lemma refines_migrate:
  assumes "now < year_10000"
  shows "refines (sql_Migrate now) (Migrate now)"
proof -
  have schema: "refines sql_schema (exec_quiet (\<lambda>s. s))"
    unfolding sql_schema_def exec_quiet_def by (rule refines_exec) simp
  have users: "refines (sql_insert_or_ignore ''users'' user_columns
        [Text ''default-user'', Text ''Default User'', Text '''', Text ''admin'', time_text now])
      (exec_quiet (\<lambda>s. s\<lparr>db_users := insert_or_ignore (\<lambda>a b. u_ID a = u_ID b) (default_user now) (db_users s)\<rparr>))"
  proof -
    have v: "[Text ''default-user'', Text ''Default User'', Text '''', Text ''admin'', time_text now] = user_values (default_user now)"
      by (simp add: columns_of default_user_def)
    show ?thesis
      unfolding sql_insert_or_ignore_def v exec_quiet_def
      using assms by (intro refines_exec)
        (auto simp: rows_of_tables rows_of_update insert_or_ignore_def tbl_insert_def storable_def clause_simps
          fit_user_def default_user_def list_ex_iff with_table_same split: if_splits)
  qed
  have groups: "refines (sql_insert_or_ignore ''groups'' group_columns
        [Text ''default'', Text ''Default'', Text ''Default Linkbit device group'', time_text now])
      (exec_quiet (\<lambda>s. s\<lparr>db_groups := insert_or_ignore (\<lambda>a b. g_ID a = g_ID b) (default_group now) (db_groups s)\<rparr>))"
  proof -
    have v: "[Text ''default'', Text ''Default'', Text ''Default Linkbit device group'', time_text now] = group_values (default_group now)"
      by (simp add: columns_of default_group_def)
    show ?thesis
      unfolding sql_insert_or_ignore_def v exec_quiet_def
      using assms by (intro refines_exec)
        (auto simp: rows_of_tables rows_of_update insert_or_ignore_def tbl_insert_def storable_def clause_simps
          fit_group_def default_group_def list_ex_iff with_table_same split: if_splits)
  qed
  show ?thesis
    unfolding sql_Migrate_def Migrate_def by (intro refines_then schema users groups)
qed

section \<open>Sequences of calls\<close>

text \<open>The methods of the Store interface as data, and what they answer.\<close>

datatype store_call =
    Call_CreateUser user
  | Call_ListUsers 
  | Call_GetUser string
  | Call_CreateGroup device_group
  | Call_ListGroups 
  | Call_GetGroup string
  | Call_CreateAPIKey api_key
  | Call_GetAPIKeyByDigest string
  | Call_TouchAPIKey gotime string
  | Call_RevokeAPIKey gotime string
  | Call_ListAPIKeys 
  | Call_UpsertRelay relay_node
  | Call_DeleteRelay string
  | Call_HeartbeatRelay gotime string rat
  | Call_ListRelays 
  | Call_CreateInvitation invitation
  | Call_GetInvitationByTokenHash string
  | Call_MarkInvitationUsed gotime string
  | Call_CreateDevice device
  | Call_DeleteDevice string
  | Call_GetDeviceByIDAndTokenHash string string
  | Call_UpdateDeviceHealth gotime string string device_health_report
  | Call_ListDevices 
  | Call_CreatePolicy network_policy
  | Call_DeletePolicy string
  | Call_ListPolicies 
  | Call_Overview 
  | Call_Migrate gotime

datatype store_reply =
    Done
  | Users "user list"
  | One_user "user"
  | Groups "device_group list"
  | One_group "device_group"
  | One_key "api_key"
  | Keys "api_key list"
  | One_relay "relay_node"
  | Relays "relay_node list"
  | One_invitation "invitation"
  | One_device "device"
  | Devices "device list"
  | Policies "network_policy list"
  | Counts "overview"

definition replies :: "('a \<Rightarrow> 'b) \<Rightarrow> ('s \<Rightarrow> ('e + 'a) \<times> 's) \<Rightarrow> 's \<Rightarrow> ('e + 'b) \<times> 's" where
  "replies f m s = (case m s of (Inl e, s') \<Rightarrow> (Inl e, s') | (Inr v, s') \<Rightarrow> (Inr (f v), s'))"

fun store_call_stmt :: "store_call \<Rightarrow> store_reply stmt" where
  "store_call_stmt (Call_CreateUser a) = replies (\<lambda>_. Done) (CreateUser a)"
| "store_call_stmt Call_ListUsers = replies Users (ListUsers)"
| "store_call_stmt (Call_GetUser a) = replies One_user (GetUser a)"
| "store_call_stmt (Call_CreateGroup a) = replies (\<lambda>_. Done) (CreateGroup a)"
| "store_call_stmt Call_ListGroups = replies Groups (ListGroups)"
| "store_call_stmt (Call_GetGroup a) = replies One_group (GetGroup a)"
| "store_call_stmt (Call_CreateAPIKey a) = replies (\<lambda>_. Done) (CreateAPIKey a)"
| "store_call_stmt (Call_GetAPIKeyByDigest a) = replies One_key (GetAPIKeyByDigest a)"
| "store_call_stmt (Call_TouchAPIKey a b) = replies (\<lambda>_. Done) (TouchAPIKey a b)"
| "store_call_stmt (Call_RevokeAPIKey a b) = replies (\<lambda>_. Done) (RevokeAPIKey a b)"
| "store_call_stmt Call_ListAPIKeys = replies Keys (ListAPIKeys)"
| "store_call_stmt (Call_UpsertRelay a) = replies (\<lambda>_. Done) (UpsertRelay a)"
| "store_call_stmt (Call_DeleteRelay a) = replies (\<lambda>_. Done) (DeleteRelay a)"
| "store_call_stmt (Call_HeartbeatRelay a b c) = replies One_relay (HeartbeatRelay a b c)"
| "store_call_stmt Call_ListRelays = replies Relays (ListRelays)"
| "store_call_stmt (Call_CreateInvitation a) = replies (\<lambda>_. Done) (CreateInvitation a)"
| "store_call_stmt (Call_GetInvitationByTokenHash a) = replies One_invitation (GetInvitationByTokenHash a)"
| "store_call_stmt (Call_MarkInvitationUsed a b) = replies (\<lambda>_. Done) (MarkInvitationUsed a b)"
| "store_call_stmt (Call_CreateDevice a) = replies (\<lambda>_. Done) (CreateDevice a)"
| "store_call_stmt (Call_DeleteDevice a) = replies (\<lambda>_. Done) (DeleteDevice a)"
| "store_call_stmt (Call_GetDeviceByIDAndTokenHash a b) = replies One_device (GetDeviceByIDAndTokenHash a b)"
| "store_call_stmt (Call_UpdateDeviceHealth a b c d) = replies One_device (UpdateDeviceHealth a b c d)"
| "store_call_stmt Call_ListDevices = replies Devices (ListDevices)"
| "store_call_stmt (Call_CreatePolicy a) = replies (\<lambda>_. Done) (CreatePolicy a)"
| "store_call_stmt (Call_DeletePolicy a) = replies (\<lambda>_. Done) (DeletePolicy a)"
| "store_call_stmt Call_ListPolicies = replies Policies (ListPolicies)"
| "store_call_stmt Call_Overview = replies Counts (Overview)"
| "store_call_stmt (Call_Migrate a) = replies (\<lambda>_. Done) (Migrate a)"

fun store_call_sql :: "store_call \<Rightarrow> store_reply sql" where
  "store_call_sql (Call_CreateUser a) = replies (\<lambda>_. Done) (sql_CreateUser a)"
| "store_call_sql Call_ListUsers = replies Users (sql_ListUsers)"
| "store_call_sql (Call_GetUser a) = replies One_user (sql_GetUser a)"
| "store_call_sql (Call_CreateGroup a) = replies (\<lambda>_. Done) (sql_CreateGroup a)"
| "store_call_sql Call_ListGroups = replies Groups (sql_ListGroups)"
| "store_call_sql (Call_GetGroup a) = replies One_group (sql_GetGroup a)"
| "store_call_sql (Call_CreateAPIKey a) = replies (\<lambda>_. Done) (sql_CreateAPIKey a)"
| "store_call_sql (Call_GetAPIKeyByDigest a) = replies One_key (sql_GetAPIKeyByDigest a)"
| "store_call_sql (Call_TouchAPIKey a b) = replies (\<lambda>_. Done) (sql_TouchAPIKey a b)"
| "store_call_sql (Call_RevokeAPIKey a b) = replies (\<lambda>_. Done) (sql_RevokeAPIKey a b)"
| "store_call_sql Call_ListAPIKeys = replies Keys (sql_ListAPIKeys)"
| "store_call_sql (Call_UpsertRelay a) = replies (\<lambda>_. Done) (sql_UpsertRelay a)"
| "store_call_sql (Call_DeleteRelay a) = replies (\<lambda>_. Done) (sql_DeleteRelay a)"
| "store_call_sql (Call_HeartbeatRelay a b c) = replies One_relay (sql_HeartbeatRelay a b c)"
| "store_call_sql Call_ListRelays = replies Relays (sql_ListRelays)"
| "store_call_sql (Call_CreateInvitation a) = replies (\<lambda>_. Done) (sql_CreateInvitation a)"
| "store_call_sql (Call_GetInvitationByTokenHash a) = replies One_invitation (sql_GetInvitationByTokenHash a)"
| "store_call_sql (Call_MarkInvitationUsed a b) = replies (\<lambda>_. Done) (sql_MarkInvitationUsed a b)"
| "store_call_sql (Call_CreateDevice a) = replies (\<lambda>_. Done) (sql_CreateDevice a)"
| "store_call_sql (Call_DeleteDevice a) = replies (\<lambda>_. Done) (sql_DeleteDevice a)"
| "store_call_sql (Call_GetDeviceByIDAndTokenHash a b) = replies One_device (sql_GetDeviceByIDAndTokenHash a b)"
| "store_call_sql (Call_UpdateDeviceHealth a b c d) = replies One_device (sql_UpdateDeviceHealth a b c d)"
| "store_call_sql Call_ListDevices = replies Devices (sql_ListDevices)"
| "store_call_sql (Call_CreatePolicy a) = replies (\<lambda>_. Done) (sql_CreatePolicy a)"
| "store_call_sql (Call_DeletePolicy a) = replies (\<lambda>_. Done) (sql_DeletePolicy a)"
| "store_call_sql Call_ListPolicies = replies Policies (sql_ListPolicies)"
| "store_call_sql Call_Overview = replies Counts (sql_Overview)"
| "store_call_sql (Call_Migrate a) = replies (\<lambda>_. Done) (sql_Migrate a)"

text \<open>Arguments the columns can hold.\<close>

fun fit_call :: "store_call \<Rightarrow> bool" where
  "fit_call (Call_CreateUser a) \<longleftrightarrow> fit_user a"
| "fit_call (Call_CreateGroup a) \<longleftrightarrow> fit_group a"
| "fit_call (Call_CreateAPIKey a) \<longleftrightarrow> fit_api_key (a\<lparr>k_PlaintextKey := ''''\<rparr>)"
| "fit_call (Call_TouchAPIKey a b) \<longleftrightarrow> a < year_10000"
| "fit_call (Call_RevokeAPIKey a b) \<longleftrightarrow> a < year_10000"
| "fit_call (Call_UpsertRelay a) \<longleftrightarrow> fit_relay a"
| "fit_call (Call_HeartbeatRelay a b c) \<longleftrightarrow> a < year_10000"
| "fit_call (Call_CreateInvitation a) \<longleftrightarrow> fit_invitation (a\<lparr>i_PlaintextToken := ''''\<rparr>)"
| "fit_call (Call_MarkInvitationUsed a b) \<longleftrightarrow> a < year_10000"
| "fit_call (Call_CreateDevice a) \<longleftrightarrow> fit_device (a\<lparr>d_DeviceToken := ''''\<rparr>)"
| "fit_call (Call_UpdateDeviceHealth a b c d) \<longleftrightarrow> a < year_10000"
| "fit_call (Call_CreatePolicy a) \<longleftrightarrow> fit_policy a"
| "fit_call (Call_Migrate a) \<longleftrightarrow> a < year_10000"
| "fit_call _ \<longleftrightarrow> True"

lemma refines_replies: "refines c a \<Longrightarrow> refines (replies f c) (replies f a)"
  by (auto simp: refines_def replies_def split_beta split: sum.splits prod.splits)

lemma refines_call: "fit_call c \<Longrightarrow> refines (store_call_sql c) (store_call_stmt c)"
  by (cases c) (simp_all add: refines_replies refines_creates refines_queries refines_lists refines_updates
      refines_deletes refines_upsert refines_overview refines_migrate)

interpretation store_sql: simulation store_call_stmt store_call_sql rows_of storable fit_call "\<lambda>r q. q = as_sql r"
proof unfold_locales
  fix s c r s'
  assume a: "storable s" "fit_call c" "store_call_stmt c s = (r, s')"
  from refines_call [OF a(2)] a(1,3)
  show "storable s' \<and> snd (store_call_sql c (rows_of s)) = rows_of s' \<and> fst (store_call_sql c (rows_of s)) = as_sql r"
    by (auto simp: refines_def dest: spec [where x = s])
qed

text \<open>
  C32: The record tables on which the handlers are verified are a correct abstraction of the SQL
  the store executes: for every sequence of calls whose times lie before the year 10000 and whose
  ports are UTF-8, from any database, and whatever statements fail, the statements with their
  columns, WHERE, SET and ON CONFLICT clauses, text times, integer booleans and JSON ports give the
  same answers and errors, and leave the rows of the abstract tables.
\<close>

theorem store_refines_sql:
  assumes "storable s" and "list_all fit_call calls"
  shows "run_calls store_call_sql calls (rows_of s)
    = map_prod (map as_sql) rows_of (run_calls store_call_stmt calls s)"
proof -
  obtain rs s' where r: "run_calls store_call_stmt calls s = (rs, s')" by fastforce
  from store_sql.run [OF assms r] obtain qs where
    "run_calls store_call_sql calls (rows_of s) = (qs, rows_of s')" "list_all2 (\<lambda>r q. q = as_sql r) rs qs" by blast
  moreover from this(2) have "qs = map as_sql rs" by (induction rule: list_all2_induct) auto
  ultimately show ?thesis by (simp add: r)
qed

definition ssh_policy :: network_policy where
  "ssh_policy = \<lparr>p_ID = ''p'', p_Name = ''ssh'', p_SourceID = ''a'', p_TargetID = ''b'', p_Ports = Some [''22''],
     p_Protocol = ''tcp'', p_Enabled = True, p_Description = '''', p_CreatedAt = GoTime 1, p_UpdatedAt = GoTime 1\<rparr>"

theorem store_refines_sql_witness:
  "run_calls store_call_sql [Call_CreatePolicy ssh_policy, Call_ListPolicies] (rows_of empty_db)
    = map_prod (map as_sql) rows_of (run_calls store_call_stmt [Call_CreatePolicy ssh_policy, Call_ListPolicies] empty_db)
   \<and> fst (run_calls store_call_stmt [Call_CreatePolicy ssh_policy, Call_ListPolicies] empty_db)
    = [Inr Done, Inr (Policies [ssh_policy])]"
proof (rule conjI, rule store_refines_sql)
  have "GoTime 1 < year_10000"
    by (simp add: year_10000_def less_gotime_def days_to_def)
  moreover have "valid_utf8 ''22''"
    by (simp add: valid_utf8_def first_unit_def two_bytes_def byte_in_def char_unit_def)
  ultimately show "list_all fit_call [Call_CreatePolicy ssh_policy, Call_ListPolicies]"
    by (simp add: ssh_policy_def fit_policy_def)
qed (simp_all add: storable_def empty_db_def stmt_defs replies_def tbl_insert_def order_desc_def)

end
