(* ===== verification/Http_Wire.thy ===== *)
theory Http_Wire
  imports Agent_Client Relay_Stream Json_Strings Go_IP Server_Props
begin

text \<open>
  What lies between the agent's HTTP client and the controller's handlers: the request line and
  headers as \<open>net/http\<close> reads them (the path cut at its slashes and unescaped, whether it is
  clean, the query values), the bytes of a request without a body, and the JSON of the bodies. A
  body encoded from a type is decoded to the same value where a handler asks for that type. The
  client's escapes are shown to survive the way, and the bytes an agent writes for an upgrade are
  shown to be read as the request they spell, so every call of the agent reaches the handler it is
  meant for with the ids and the token it was made with.
\<close>

section \<open>Request targets\<close>

text \<open>\<open>url.PathUnescape\<close> and, with spaces written as plus signs, \<open>url.QueryUnescape\<close>.\<close>

fun unescape :: "bool \<Rightarrow> string \<Rightarrow> string option" where
  "unescape form [] = Some ''''"
| "unescape form (c # cs) =
     (if c = CHR ''%''
      then (case cs of
              a # b # rest \<Rightarrow>
                (case (hex_value a, hex_value b) of
                   (Some i, Some j) \<Rightarrow> map_option (\<lambda>s. char_of (i * 16 + j) # s) (unescape form rest)
                 | _ \<Rightarrow> None)
            | _ \<Rightarrow> None)
      else map_option (\<lambda>s. (if form \<and> c = CHR ''+'' then CHR '' '' else c) # s) (unescape form cs))"

definition unescape_all :: "bool \<Rightarrow> string list \<Rightarrow> string list option" where
  "unescape_all form xs = those (map (unescape form) xs)"

text \<open>One \<open>key=value\<close> of the query; the first value of a key, and empty when there is none.\<close>

definition query_pair :: "string \<Rightarrow> (string \<times> string) option" where
  "query_pair p =
     (let k = takeWhile (\<lambda>c. c \<noteq> CHR ''='') p; v = drop 1 (dropWhile (\<lambda>c. c \<noteq> CHR ''='') p)
      in case (unescape True k, unescape True v) of (Some k', Some v') \<Rightarrow> Some (k', v') | _ \<Rightarrow> None)"

definition query_get :: "string \<Rightarrow> string \<Rightarrow> string" where
  "query_get query key =
     (case map_of (List.map_filter query_pair (split_on CHR ''&'' query)) key of None \<Rightarrow> '''' | Some v \<Rightarrow> v)"

text \<open>Header names are compared without regard to case, as their canonical forms are.\<close>

definition lower_name :: "string \<Rightarrow> string" where "lower_name = map ascii_lower"

definition header :: "(string \<times> string) list \<Rightarrow> string \<Rightarrow> string" where
  "header hs name =
     (case find (\<lambda>h. lower_name (fst h) = lower_name name) hs of None \<Rightarrow> '''' | Some h \<Rightarrow> snd h)"

text \<open>
  \<open>URL.EscapedPath\<close>: the path as it was sent when it is a valid escape of a path, and else the
  escape of what it stands for.
\<close>

definition valid_path_char :: "char \<Rightarrow> bool" where
  "valid_path_char c \<longleftrightarrow> unreserved c \<or> c \<in> set ''!$&()*+,;=:@[]%/'' \<or> c = CHR 0x27"

definition escaped_path :: "string \<Rightarrow> string option" where
  "escaped_path raw =
     (if list_all valid_path_char raw then Some raw
      else map_option (\<lambda>p. concat (map (\<lambda>c. if unreserved c \<or> c \<in> set ''$&+,/:;=@'' then [c] else percent c) p))
        (unescape False raw))"

text \<open>
  What \<open>path.Clean\<close> leaves as it is, behind the first slash: no empty segment but after a slash at
  the end, which \<open>http.ServeMux\<close> puts back, and no dot segments.
\<close>

definition clean_segments :: "string list \<Rightarrow> bool" where
  "clean_segments segs \<longleftrightarrow> '''' \<notin> set (butlast segs) \<and> ''.'' \<notin> set segs \<and> ''..'' \<notin> set segs"

definition read_request :: "string \<Rightarrow> string \<Rightarrow> (string \<times> string) list \<Rightarrow> json_body \<Rightarrow> request option" where
  "read_request verb target headers body =
     (let path = takeWhile (\<lambda>c. c \<noteq> CHR ''?'') target; query = drop 1 (dropWhile (\<lambda>c. c \<noteq> CHR ''?'') target)
      in if \<not> prefix ''/'' path then None
         else case escaped_path path of
           None \<Rightarrow> None
         | Some escaped \<Rightarrow>
             (let parts = split_on CHR ''/'' (drop 1 escaped)
              in case unescape_all False parts of
                   None \<Rightarrow> None
                 | Some segments \<Rightarrow>
                     Some \<lparr>q_method = verb, q_path = segments, q_clean = clean_segments parts,
                       q_apiKey = header headers ''X-Linkbit-API-Key'',
                       q_deviceToken = header headers ''X-Linkbit-Device-Token'',
                       q_deviceIDHeader = header headers ''X-Linkbit-Device-ID'',
                       q_deviceIDQuery = query_get query ''deviceId'',
                       q_sourceQuery = query_get query ''sourceDeviceId'',
                       q_wait = query_get query ''wait'', q_body = body\<rparr>))"

section \<open>Requests as bytes\<close>

text \<open>
  How the controller reads a request of HTTP/1.1 without a body from a connection: the request
  line, the header lines up to the empty one, and one \<open>Host\<close>. A line that continues the one
  before it is refused here.
\<close>

definition chomp :: "string \<Rightarrow> string" where
  "chomp line = (let l = butlast line in if l \<noteq> '''' \<and> last l = CHR 0x0D then butlast l else l)"

definition is_control :: "char \<Rightarrow> bool" where
  "is_control c \<longleftrightarrow> (of_char c :: nat) < 32 \<or> c = CHR 0x7F"

definition token_char :: "char \<Rightarrow> bool" where
  "token_char c \<longleftrightarrow> unreserved c \<or> c \<in> set ''!#$%&*+^|'' \<or> c = CHR 0x27 \<or> c = CHR 0x60"

definition host_char :: "char \<Rightarrow> bool" where
  "host_char c \<longleftrightarrow> unreserved c \<or> c \<in> set ''!$%&()*+,:;=[]'' \<or> c = CHR 0x27"

abbreviation (input) is_blank :: "char \<Rightarrow> bool" where
  "is_blank c \<equiv> c = CHR '' '' \<or> c = CHR 0x09"

definition trim_blanks :: "string \<Rightarrow> string" where
  "trim_blanks s = rev (dropWhile is_blank (rev (dropWhile is_blank s)))"

definition header_line :: "string \<Rightarrow> (string \<times> string) option" where
  "header_line l =
     (let k = takeWhile (\<lambda>c. c \<noteq> CHR '':'') l; v = trim_blanks (drop 1 (dropWhile (\<lambda>c. c \<noteq> CHR '':'') l))
      in if CHR '':'' \<notin> set l \<or> k = '''' \<or> \<not> list_all token_char k \<or> list_ex (\<lambda>c. is_control c \<and> c \<noteq> CHR 0x09) v
         then None else Some (k, v))"

function read_headers :: "string \<Rightarrow> ((string \<times> string) list \<times> string) option" where
  "read_headers s =
     (case read_line s of
        None \<Rightarrow> None
      | Some (line, rest) \<Rightarrow>
          if chomp line = '''' then Some ([], rest)
          else (case (header_line (chomp line), read_headers rest) of
                  (Some h, Some (hs, t)) \<Rightarrow> Some (h # hs, t)
                | _ \<Rightarrow> None))"
  by pat_completeness auto

termination
  by (relation "measure length") (auto dest: read_line_shorter)

declare read_headers.simps [simp del]

definition one_host :: "(string \<times> string) list \<Rightarrow> bool" where
  "one_host hs \<longleftrightarrow>
     (case filter (\<lambda>h. lower_name (fst h) = ''host'') hs of [h] \<Rightarrow> list_all host_char (snd h) | _ \<Rightarrow> False)"

definition read_bytes :: "string \<Rightarrow> request option" where
  "read_bytes s =
     (case read_line s of
        None \<Rightarrow> None
      | Some (line, rest) \<Rightarrow>
          (case split_on CHR '' '' (chomp line) of
             [verb, target, proto] \<Rightarrow>
               if verb = '''' \<or> \<not> list_all token_char verb \<or> proto \<noteq> ''HTTP/1.1'' \<or> list_ex is_control target then None
               else (case read_headers rest of
                       None \<Rightarrow> None
                     | Some (hs, _) \<Rightarrow> if one_host hs then read_request verb target hs empty_body else None)
           | _ \<Rightarrow> None))"

section \<open>Bodies and answers\<close>

definition wire_body :: "request_body \<Rightarrow> json_body" where
  "wire_body b =
     (case b of
        NoBody \<Rightarrow> empty_body
      | HealthBody r \<Rightarrow> empty_body\<lparr>jb_health := Some r\<rparr>
      | RegisterBody r \<Rightarrow> empty_body\<lparr>jb_register := Some r\<rparr>
      | SessionBody r \<Rightarrow> empty_body\<lparr>jb_session := Some r\<rparr>
      | RelayBody r \<Rightarrow> empty_body\<lparr>jb_relay := Some r\<rparr>)"

text \<open>A request reaches the controller when its URL starts with the controller's.\<close>

definition to_controller :: "string \<Rightarrow> http_request \<Rightarrow> request option" where
  "to_controller base r =
     (if prefix base (hr_url r)
      then read_request (hr_method r) (drop (length base) (hr_url r)) (hr_headers r) (wire_body (hr_body r))
      else None)"

definition wire_reply :: "response \<Rightarrow> http_reply option" where
  "wire_reply r =
     (if rs_body r = PNothing then None
      else Some \<lparr>hp_status = rs_status r,
        hp_device = (case rs_body r of PDevice d \<Rightarrow> Some d | _ \<Rightarrow> None),
        hp_config = (case rs_body r of PConfig c \<Rightarrow> Some c | _ \<Rightarrow> None),
        hp_registration = (case rs_body r of PRegistered d \<Rightarrow> Some d | _ \<Rightarrow> None),
        hp_session = (case rs_body r of PSession s \<Rightarrow> Some s | _ \<Rightarrow> None),
        hp_sessions = (case rs_body r of PSessions ss \<Rightarrow> Some ss | _ \<Rightarrow> None)\<rparr>)"

text \<open>The controller as the transport of a client, and its state after a request.\<close>

definition controller :: "lib \<Rightarrow> env \<Rightarrow> string \<Rightarrow> server \<Rightarrow> transport" where
  "controller lib env base sv r =
     (case to_controller base r of None \<Rightarrow> None | Some q \<Rightarrow> wire_reply (fst (serve lib env q sv)))"

definition after_request :: "lib \<Rightarrow> env \<Rightarrow> string \<Rightarrow> http_request \<Rightarrow> server \<Rightarrow> server" where
  "after_request lib env base r sv =
     (case to_controller base r of None \<Rightarrow> sv | Some q \<Rightarrow> snd (serve lib env q sv))"

section \<open>Escapes\<close>

lemma hex_value_digit: "n < 16 \<Longrightarrow> hex_value (hex_digit n) = Some n"
  by (auto simp: hex_digit_def hex_value_def byte_in_def less_Suc_eq numeral_eq_Suc)

lemma unescape_percent [simp]: "unescape form (percent c @ s) = map_option (\<lambda>t. c # t) (unescape form s)"
proof -
  have "(of_char c :: nat) div 16 < 16" using of_char_of [of "of_char c :: nat"] by (simp add: less_mult_imp_div_less)
  then show ?thesis by (simp add: percent_def hex_value_digit)
qed

lemma percent_nonspecial: "unreserved c \<Longrightarrow> c \<noteq> CHR ''%''"
  by (auto simp: unreserved_def)

lemma unescape_query: "unescape True (query_escape s) = Some s"
proof (induction s)
  case (Cons c s)
  have "c \<noteq> CHR ''%''" "c \<noteq> CHR ''+''" if "unreserved c" using that by (auto simp: unreserved_def)
  with Cons show ?case by (auto simp: query_escape_def)
qed (simp add: query_escape_def)

lemma unescape_path: "unescape False (path_escape s) = Some s"
proof (induction s)
  case (Cons c s)
  have "c \<noteq> CHR ''%''" if "unreserved c \<or> c \<in> set ''$&+:=@''" using that by (auto simp: unreserved_def)
  with Cons show ?case by (auto simp: path_escape_def)
qed (simp add: path_escape_def)

text \<open>Bytes an escaped value never contains.\<close>

lemma hex_digit_set: "n < 16 \<Longrightarrow> hex_digit n \<in> set ''0123456789ABCDEF''"
  by (simp add: hex_digit_def del: set_simps list.set)

lemma set_percent: "set (percent c) \<subseteq> set ''%0123456789ABCDEF''"
proof -
  have "(of_char c :: nat) div 16 < 16" by (simp add: less_mult_imp_div_less)
  then show ?thesis using hex_digit_set [of "of_char c div 16"] hex_digit_set [of "of_char c mod 16"]
    by (auto simp: percent_def)
qed

lemma set_query_escape: "x \<in> set (query_escape s) \<Longrightarrow> unreserved x \<or> x = CHR ''+'' \<or> x = CHR ''%''"
  using set_percent by (fastforce simp: query_escape_def unreserved_def split: if_splits)

lemma set_path_escape: "x \<in> set (path_escape s) \<Longrightarrow> unreserved x \<or> x \<in> set ''$&+:=@%''"
  using set_percent by (fastforce simp: path_escape_def unreserved_def split: if_splits)

section \<open>Reading what the client writes\<close>

lemma takeWhile_split:
  assumes "x \<notin> set a"
  shows "takeWhile (\<lambda>c. c \<noteq> x) (a @ x # b) = a" "dropWhile (\<lambda>c. c \<noteq> x) (a @ x # b) = x # b"
  using assms by (induction a) auto

lemma takeWhile_none:
  assumes "x \<notin> set a"
  shows "takeWhile (\<lambda>c. c \<noteq> x) a = a" "dropWhile (\<lambda>c. c \<noteq> x) a = []"
  using assms by (induction a) auto

text \<open>A path written as its segments.\<close>

fun join_path :: "string list \<Rightarrow> string" where
  "join_path [] = ''''"
| "join_path (x # xs) = CHR ''/'' # x @ join_path xs"

lemma split_join_path:
  "\<forall>p \<in> set (x # xs). CHR ''/'' \<notin> set p \<Longrightarrow> split_on CHR ''/'' (x @ join_path xs) = x # xs"
proof (induction xs arbitrary: x)
  case (Cons y ys)
  then show ?case using split_on_append [of "CHR ''/''" x "y @ join_path ys"] by simp
qed (simp add: split_on_none)

text \<open>A segment of a path as it is sent, which no unescaping on the way changes.\<close>

definition sent_segment :: "string \<Rightarrow> bool" where
  "sent_segment p \<longleftrightarrow> list_all (\<lambda>c. valid_path_char c \<and> c \<noteq> CHR ''/'') p \<and> p \<notin> {'''', ''.'', ''..''}"

lemma sent_segmentD:
  assumes "sent_segment p"
  shows "CHR ''/'' \<notin> set p" "CHR ''?'' \<notin> set p" "list_all valid_path_char p"
proof -
  have "\<not> valid_path_char CHR ''?''" by (simp add: valid_path_char_def unreserved_def)
  with assms show "CHR ''/'' \<notin> set p" "CHR ''?'' \<notin> set p" "list_all valid_path_char p"
    by (auto simp: sent_segment_def list_all_iff)
qed

lemma valid_join_path: "list_all (list_all valid_path_char) xs \<Longrightarrow> list_all valid_path_char (join_path xs)"
  by (induction xs) (simp_all add: valid_path_char_def)

lemma read_request_path:
  assumes "list_all sent_segment xs" and "xs \<noteq> []" and "unescape_all False xs = Some segments"
  shows "read_request verb (join_path xs) headers body =
      Some \<lparr>q_method = verb, q_path = segments, q_clean = True, q_apiKey = header headers ''X-Linkbit-API-Key'',
        q_deviceToken = header headers ''X-Linkbit-Device-Token'', q_deviceIDHeader = header headers ''X-Linkbit-Device-ID'',
        q_deviceIDQuery = '''', q_sourceQuery = '''', q_wait = '''', q_body = body\<rparr>"
    and "read_request verb (join_path xs @ CHR ''?'' # query) headers body =
      Some \<lparr>q_method = verb, q_path = segments, q_clean = True, q_apiKey = header headers ''X-Linkbit-API-Key'',
        q_deviceToken = header headers ''X-Linkbit-Device-Token'', q_deviceIDHeader = header headers ''X-Linkbit-Device-ID'',
        q_deviceIDQuery = query_get query ''deviceId'', q_sourceQuery = query_get query ''sourceDeviceId'',
        q_wait = query_get query ''wait'', q_body = body\<rparr>"
proof -
  obtain y ys where xs: "xs = y # ys" using assms(2) by (cases xs) auto
  have sent: "CHR ''/'' \<notin> set p" "CHR ''?'' \<notin> set p" "p \<notin> {'''', ''.'', ''..''}" if "p \<in> set xs" for p
    using assms(1) that sent_segmentD [of p] by (auto simp: list_all_iff sent_segment_def)
  have set_join: "set (join_path zs) \<subseteq> {CHR ''/''} \<union> \<Union> (set ` set zs)" for zs
    by (induction zs) auto
  have no: "CHR ''?'' \<notin> set (join_path xs)" using set_join [of xs] sent by auto
  have sp: "split_on CHR ''/'' (y @ join_path ys) = xs"
    using split_join_path [of y ys] sent by (simp add: xs)
  have "list_all (list_all valid_path_char) xs" using assms(1) sent_segmentD(3) by (auto simp: list_all_iff)
  then have path: "escaped_path (join_path xs) = Some (join_path xs)" using valid_join_path by (simp add: escaped_path_def)
  have clean: "clean_segments xs" using sent by (auto simp: clean_segments_def dest: in_set_butlastD)
  have start: "prefix ''/'' (join_path xs)" "drop 1 (join_path xs) = y @ join_path ys" by (simp_all add: xs)
  have q0: "query_get '''' k = ''''" for k
    by (simp add: query_get_def query_pair_def List.map_filter_def split: option.splits)
  note simps = read_request_def Let_def path start sp clean assms(3)
  show "read_request verb (join_path xs) headers body =
      Some \<lparr>q_method = verb, q_path = segments, q_clean = True, q_apiKey = header headers ''X-Linkbit-API-Key'',
        q_deviceToken = header headers ''X-Linkbit-Device-Token'', q_deviceIDHeader = header headers ''X-Linkbit-Device-ID'',
        q_deviceIDQuery = '''', q_sourceQuery = '''', q_wait = '''', q_body = body\<rparr>"
    by (simp add: simps takeWhile_none [OF no] q0 del: One_nat_def)
  show "read_request verb (join_path xs @ CHR ''?'' # query) headers body =
      Some \<lparr>q_method = verb, q_path = segments, q_clean = True, q_apiKey = header headers ''X-Linkbit-API-Key'',
        q_deviceToken = header headers ''X-Linkbit-Device-Token'', q_deviceIDHeader = header headers ''X-Linkbit-Device-ID'',
        q_deviceIDQuery = query_get query ''deviceId'', q_sourceQuery = query_get query ''sourceDeviceId'',
        q_wait = query_get query ''wait'', q_body = body\<rparr>"
    by (simp add: simps takeWhile_split [OF no] del: One_nat_def) (simp add: One_nat_def)
qed

text \<open>The segments the clients send: literal ones, plain ids and escaped ids.\<close>

lemma unreserved_valid: "unreserved c \<Longrightarrow> valid_path_char c \<and> c \<noteq> CHR ''/''"
  by (auto simp: valid_path_char_def) (simp add: unreserved_def)

lemma sent_plain: "list_all unreserved p \<Longrightarrow> p \<notin> {'''', ''.'', ''..''} \<Longrightarrow> sent_segment p"
  by (auto simp: sent_segment_def list_all_iff unreserved_valid)

lemma sent_words [simp]:
  "sent_segment ''api''" "sent_segment ''v1''" "sent_segment ''devices''" "sent_segment ''network-config''"
  "sent_segment ''health''" "sent_segment ''register''" "sent_segment ''relay''" "sent_segment ''sessions''"
  "sent_segment ''pending''" "sent_segment ''client''" "sent_segment ''agent''" "sent_segment ''relays''"
  "sent_segment ''heartbeat''"
  by (rule sent_plain; simp add: unreserved_def)+

lemma sent_escaped:
  assumes "s \<notin> {'''', ''.'', ''..''}"
  shows "sent_segment (path_escape s)"
proof -
  have "path_escape s \<notin> {'''', ''.'', ''..''}" using unescape_path [of s] assms by auto
  moreover have "valid_path_char c \<and> c \<noteq> CHR ''/''" if "c \<in> set (path_escape s)" for c
    using set_path_escape [OF that] by (auto simp: unreserved_valid) (auto simp: valid_path_char_def unreserved_def)
  ultimately show ?thesis by (simp add: sent_segment_def list_all_iff)
qed

text \<open>The names of the headers, in the form they are compared in.\<close>

lemma header_names [simp]:
  "lower_name ''X-Linkbit-API-Key'' = ''x-linkbit-api-key''"
  "lower_name ''X-Linkbit-Device-Token'' = ''x-linkbit-device-token''"
  "lower_name ''X-Linkbit-Device-ID'' = ''x-linkbit-device-id''"
  "lower_name ''X-Linkbit-Relay-ID'' = ''x-linkbit-relay-id''"
  "lower_name ''Content-Type'' = ''content-type''" "lower_name ''Host'' = ''host''"
  "lower_name ''Connection'' = ''connection''" "lower_name ''Upgrade'' = ''upgrade''"
  by code_simp+

text \<open>A value written with \<open>url.QueryEscape\<close> is what the query holds under its key.\<close>

lemma query_pair_escaped:
  assumes "CHR ''='' \<notin> set k" and "unescape True k = Some k"
  shows "query_pair (k @ CHR ''='' # query_escape v) = Some (k, v)"
  using assms by (simp add: query_pair_def takeWhile_split unescape_query)

lemma query_escape_free: "x \<notin> set ''+%'' \<Longrightarrow> \<not> unreserved x \<Longrightarrow> x \<notin> set (query_escape v)"
  using set_query_escape by auto

lemma path_escape_free: "x \<notin> set ''$&+:=@%'' \<Longrightarrow> \<not> unreserved x \<Longrightarrow> x \<notin> set (path_escape v)"
  using set_path_escape by blast

section \<open>Reading the bytes of an upgrade\<close>

text \<open>Bytes that neither end a field of a request nor are trimmed from one.\<close>

definition visible :: "string \<Rightarrow> bool" where
  "visible s \<longleftrightarrow> list_all (\<lambda>c. 32 < (of_char c :: nat) \<and> of_char c < (127 :: nat)) s"

lemma visible_append [simp]: "visible (a @ b) \<longleftrightarrow> visible a \<and> visible b" "visible []"
  by (simp_all add: visible_def)

lemma visible_free: "visible s \<Longrightarrow> CHR 0x0A \<notin> set s \<and> CHR '' '' \<notin> set s \<and> \<not> list_ex is_control s"
  by (auto simp: visible_def list_all_iff list_ex_iff is_control_def)

lemma unreserved_visible: "unreserved c \<Longrightarrow> 32 < (of_char c :: nat) \<and> of_char c < (127 :: nat)"
  by (auto simp: unreserved_def)

lemma visible_escapes: "visible (path_escape s)" "visible (query_escape s)"
proof -
  have "32 < (of_char c :: nat) \<and> of_char c < (127 :: nat)" if "unreserved c \<or> c \<in> set ''$&+:=@%''" for c
    using that unreserved_visible by auto
  then show "visible (path_escape s)" "visible (query_escape s)"
    unfolding visible_def list_all_iff using set_path_escape set_query_escape by fastforce+
qed

lemma host_visible: "list_all host_char h \<Longrightarrow> visible h"
  unfolding visible_def list_all_iff by (auto simp: host_char_def dest: unreserved_visible)

lemma token_char_visible: "token_char c \<Longrightarrow> 32 < (of_char c :: nat) \<and> of_char c < (127 :: nat) \<and> c \<noteq> CHR '':''"
proof -
  have "\<not> unreserved CHR '':''" by (simp add: unreserved_def)
  then show "token_char c \<Longrightarrow> ?thesis" unfolding token_char_def using unreserved_visible [of c] by auto
qed

lemma token_visible: "list_all token_char k \<Longrightarrow> visible k \<and> CHR '':'' \<notin> set k"
  unfolding visible_def list_all_iff using token_char_visible by blast

lemma trim_visible: "visible v \<Longrightarrow> trim_blanks (CHR '' '' # v) = v"
proof -
  have id: "dropWhile is_blank w = w" if "visible w" for w using that by (cases w) (auto simp: visible_def)
  assume "visible v"
  moreover from this have "visible (rev v)" by (simp add: visible_def)
  ultimately show ?thesis by (simp add: trim_blanks_def id)
qed

lemma chomp_crlf [simp]: "chomp (l @ crlf) = l"
  by (simp add: chomp_def crlf_def Let_def butlast_append)

lemma read_headers_end: "read_headers (crlf @ rest) = Some ([], rest)"
  using read_line_crlf [of "''''" rest] chomp_crlf [of "''''"] by (simp add: read_headers.simps)

lemma read_header:
  assumes "list_all token_char k" and "k \<noteq> ''''" and "visible v"
  shows "read_headers (k @ '': '' @ v @ crlf @ rest) =
    map_option (\<lambda>(hs, t). ((k, v) # hs, t)) (read_headers rest)"
proof -
  note k = token_visible [OF assms(1)]
  let ?l = "k @ CHR '':'' # CHR '' '' # v"
  have "CHR 0x0A \<notin> set ?l" using visible_free k assms(3) by auto
  from read_line_crlf [OF this, of rest]
  have r: "read_line (k @ '': '' @ v @ crlf @ rest) = Some (?l @ crlf, rest)" by simp
  have "header_line ?l = Some (k, v)"
    using k assms visible_free [OF assms(3)]
    by (simp add: header_line_def takeWhile_split trim_visible list_ex_iff Let_def)
  then show ?thesis
    using r assms(2) chomp_crlf [of ?l]
    by (simp add: read_headers.simps [of "k @ CHR '':'' # CHR '' '' # v @ crlf @ rest"] split: option.split)
qed

lemma header_tokens:
  "list_all token_char ''Host''" "list_all token_char ''Connection''" "list_all token_char ''Upgrade''"
  "list_all token_char ''X-Linkbit-Device-ID''" "list_all token_char ''X-Linkbit-Device-Token''" "list_all token_char ''GET''"
  by (simp_all add: token_char_def unreserved_def)

text \<open>The request an agent writes on the connection of an upgrade, as the controller reads it.\<close>

lemma upgrade_read:
  assumes "visible target" and "list_all host_char host" and "visible (hc_deviceID c)" and "visible (hc_deviceToken c)"
  shows "read_bytes (upgrade_request c target host) = read_request ''GET'' target
    [(''Host'', host), (''Connection'', ''Upgrade''), (''Upgrade'', ''linkbit-relay''),
     (''X-Linkbit-Device-ID'', hc_deviceID c), (''X-Linkbit-Device-Token'', hc_deviceToken c)] empty_body"
proof -
  let ?hs = "[(''Host'', host), (''Connection'', ''Upgrade''), (''Upgrade'', ''linkbit-relay''),
     (''X-Linkbit-Device-ID'', hc_deviceID c), (''X-Linkbit-Device-Token'', hc_deviceToken c)]"
  let ?lines = "''Host'' @ '': '' @ host @ crlf @ ''Connection'' @ '': '' @ ''Upgrade'' @ crlf
     @ ''Upgrade'' @ '': '' @ ''linkbit-relay'' @ crlf @ ''X-Linkbit-Device-ID'' @ '': '' @ hc_deviceID c @ crlf
     @ ''X-Linkbit-Device-Token'' @ '': '' @ hc_deviceToken c @ crlf @ crlf @ ''''"
  let ?first = "''GET'' @ CHR '' '' # target @ CHR '' '' # ''HTTP/1.1''"
  have bytes: "upgrade_request c target host = ?first @ crlf @ ?lines" by (simp add: upgrade_request_def)
  have v: "visible ''Upgrade''" "visible ''linkbit-relay''" "visible host"
    using host_visible [OF assms(2)] by (simp_all add: visible_def)
  have "read_headers ?lines = Some (?hs, '''')"
    by (simp only: read_header [OF header_tokens(1) _ v(3)] read_header [OF header_tokens(2) _ v(1)]
        read_header [OF header_tokens(3) _ v(2)] read_header [OF header_tokens(4) _ assms(3)]
        read_header [OF header_tokens(5) _ assms(4)] read_headers_end list.simps simp_thms option.map prod.case)
  moreover have "one_host ?hs" using assms(2) by (simp add: one_host_def)
  moreover have "read_line (?first @ crlf @ ?lines) = Some (?first @ crlf, ?lines)"
    using visible_free [OF assms(1)] by (intro read_line_crlf) simp
  moreover have "split_on CHR '' '' (''GET'' @ CHR '' '' # target @ CHR '' '' # ''HTTP/1.1'') = [''GET'', target, ''HTTP/1.1'']"
    using visible_free [OF assms(1)] split_on_append [of "CHR '' ''" "''GET''" "target @ CHR '' '' # ''HTTP/1.1''"]
      split_on_append [of "CHR '' ''" target "''HTTP/1.1''"] split_on_none [of "CHR '' ''" "''HTTP/1.1''"]
    by simp
  ultimately show ?thesis
    using header_tokens(6) visible_free [OF assms(1)]
    by (simp only: read_bytes_def bytes option.case prod.case chomp_crlf list.case) simp
qed

end
