(* ===== verification/End_To_End.thy ===== *)
theory End_To_End
  imports Device_Access Http_Wire Agent_Service Relay_Node
begin

text \<open>
  The agent and the controller together: every call of the agent reaches its handler with the
  identity it was made with, a first registration yields credentials that work, and a network
  with a hub looks the same whatever the policies say. The transport between them is
  \<open>Http_Wire.controller\<close>.
\<close>

section \<open>Every call reaches its handler\<close>

text \<open>A path segment that needs no escaping and is not a dot segment, such as a UUID.\<close>

definition plain_id :: "string \<Rightarrow> bool" where
  "plain_id s \<longleftrightarrow> s \<notin> {'''', ''.'', ''..''} \<and> list_all unreserved s"

definition routed_to :: "request option \<Rightarrow> endpoint \<Rightarrow> string \<Rightarrow> http_client \<Rightarrow> bool" where
  "routed_to q ep pid c \<longleftrightarrow>
     (\<exists>q' r. q = Some q' \<and> find_route q' = Some (r, pid) \<and> rt_endpoint r = ep
        \<and> q_deviceToken q' = hc_deviceToken c \<and> claimed_device q' ep pid = hc_deviceID c)"

lemma plain_id_free: "plain_id s \<Longrightarrow> \<not> unreserved x \<Longrightarrow> x \<notin> set s"
  by (auto simp: plain_id_def list_all_iff)

lemma not_unreserved: "\<not> unreserved CHR ''/''" "\<not> unreserved CHR ''?''" "\<not> unreserved CHR ''&''"
  "\<not> unreserved CHR ''=''" "\<not> unreserved CHR ''%''"
  by (simp_all add: unreserved_def)

lemma unescape_plain: "plain_id s \<Longrightarrow> unescape False s = Some s"
proof -
  have "list_all unreserved s \<Longrightarrow> unescape False s = Some s"
    by (induction s) (auto dest: percent_nonspecial)
  then show "plain_id s \<Longrightarrow> unescape False s = Some s" by (simp add: plain_id_def)
qed

lemma plain_sent: "plain_id s \<Longrightarrow> sent_segment s"
  by (simp add: plain_id_def sent_plain)

lemma plain_visible: "plain_id s \<Longrightarrow> visible s"
  using unreserved_visible by (auto simp: plain_id_def visible_def list_all_iff)

text \<open>The requests as the controller reads them.\<close>

definition read_as :: "http_client \<Rightarrow> string \<Rightarrow> string list \<Rightarrow> request_body \<Rightarrow> request" where
  "read_as c verb path body =
     \<lparr>q_method = verb, q_path = path, q_clean = True, q_apiKey = '''', q_deviceToken = hc_deviceToken c,
      q_deviceIDHeader = '''', q_deviceIDQuery = '''', q_sourceQuery = '''', q_wait = '''', q_body = wire_body body\<rparr>"

lemma config_reaches:
  assumes "plain_id (hc_deviceID c)"
  shows "to_controller (hc_controllerURL c) (config_request c) =
    Some (read_as c ''GET'' [''api'', ''v1'', ''devices'', hc_deviceID c, ''network-config''] NoBody)"
proof -
  have "read_request ''GET'' (join_path [''api'', ''v1'', ''devices'', hc_deviceID c, ''network-config''])
      [(''X-Linkbit-Device-Token'', hc_deviceToken c)] (wire_body NoBody) =
      Some (read_as c ''GET'' [''api'', ''v1'', ''devices'', hc_deviceID c, ''network-config''] NoBody)"
    by (subst read_request_path(1))
      (simp_all add: plain_sent [OF assms] unescape_all_def unescape_plain [OF assms] header_def read_as_def)
  then show ?thesis by (simp add: to_controller_def config_request_def)
qed

lemma health_reaches:
  assumes "plain_id (hc_deviceID c)"
  shows "to_controller (hc_controllerURL c) (health_request c rep) =
    Some (read_as c ''POST'' [''api'', ''v1'', ''devices'', hc_deviceID c, ''health''] (HealthBody rep))"
proof -
  have "read_request ''POST'' (join_path [''api'', ''v1'', ''devices'', hc_deviceID c, ''health''])
      [(''Content-Type'', ''application/json''), (''X-Linkbit-Device-Token'', hc_deviceToken c)] (wire_body (HealthBody rep)) =
      Some (read_as c ''POST'' [''api'', ''v1'', ''devices'', hc_deviceID c, ''health''] (HealthBody rep))"
    by (subst read_request_path(1))
      (simp_all add: plain_sent [OF assms] unescape_all_def unescape_plain [OF assms] header_def read_as_def)
  then show ?thesis by (simp add: to_controller_def health_request_def)
qed

lemma session_reaches:
  "to_controller (hc_controllerURL c) (session_request c req) =
    Some (read_as c ''POST'' [''api'', ''v1'', ''relay'', ''sessions'']
      (SessionBody (if tsr_SourceDeviceID req = '''' then req\<lparr>tsr_SourceDeviceID := hc_deviceID c\<rparr> else req)))"
proof -
  have "read_request ''POST'' (join_path [''api'', ''v1'', ''relay'', ''sessions''])
      [(''Content-Type'', ''application/json''), (''X-Linkbit-Device-Token'', hc_deviceToken c)] (wire_body b) =
      Some (read_as c ''POST'' [''api'', ''v1'', ''relay'', ''sessions''] b)" for b
    by (subst read_request_path(1)) (simp_all add: unescape_all_def header_def read_as_def)
  then show ?thesis by (simp add: to_controller_def session_request_def)
qed

lemma register_reaches:
  "to_controller (hc_controllerURL c) (register_request c key name) =
    Some ((read_as c ''POST'' [''api'', ''v1'', ''devices'', ''register'']
      (RegisterBody \<lparr>drr_EnrollmentKey = key, drr_Name = name, drr_PublicKey = hc_publicKey c,
         drr_Fingerprint = hc_fingerprint c, drr_Endpoint = hc_endpoint c\<rparr>))\<lparr>q_deviceToken := ''''\<rparr>)"
proof -
  have "read_request ''POST'' (join_path [''api'', ''v1'', ''devices'', ''register''])
      [(''Content-Type'', ''application/json'')] (wire_body b) =
      Some ((read_as c ''POST'' [''api'', ''v1'', ''devices'', ''register''] b)\<lparr>q_deviceToken := ''''\<rparr>)" for b
    by (subst read_request_path(1)) (simp_all add: unescape_all_def header_def read_as_def)
  then show ?thesis by (simp add: to_controller_def register_request_def)
qed

lemma pending_query:
  "query_get (''wait=25&deviceId='' @ query_escape did) ''wait'' = ''25''"
  "query_get (''wait=25&deviceId='' @ query_escape did) ''deviceId'' = did"
  "query_get (''wait=25&deviceId='' @ query_escape did) ''sourceDeviceId'' = ''''"
proof -
  have s: "split_on CHR ''&'' (''wait=25&deviceId='' @ query_escape did) = [''wait=25'', ''deviceId='' @ query_escape did]"
    using split_on_none [of "CHR ''&''" "''deviceId='' @ query_escape did"] query_escape_free [of "CHR ''&''" did]
    by (simp add: not_unreserved)
  have p: "query_pair ''wait=25'' = Some (''wait'', ''25'')"
    by (simp add: query_pair_def)
  have d: "query_pair (''deviceId='' @ query_escape did) = Some (''deviceId'', did)"
    using query_pair_escaped [of "''deviceId''" did] by simp
  show "query_get (''wait=25&deviceId='' @ query_escape did) ''wait'' = ''25''"
    "query_get (''wait=25&deviceId='' @ query_escape did) ''deviceId'' = did"
    "query_get (''wait=25&deviceId='' @ query_escape did) ''sourceDeviceId'' = ''''"
    unfolding query_get_def s by (simp_all only: List.map_filter_simps p d) simp_all
qed

lemma pending_reaches:
  "to_controller (hc_controllerURL c) (pending_request c) =
    Some ((read_as c ''GET'' [''api'', ''v1'', ''relay'', ''sessions'', ''pending''] NoBody)
      \<lparr>q_deviceIDQuery := hc_deviceID c, q_wait := ''25''\<rparr>)"
proof -
  have "read_request ''GET'' (join_path [''api'', ''v1'', ''relay'', ''sessions'', ''pending''] @ CHR ''?'' #
        (''wait=25&deviceId='' @ query_escape (hc_deviceID c))) [(''X-Linkbit-Device-Token'', hc_deviceToken c)] (wire_body NoBody) =
      Some ((read_as c ''GET'' [''api'', ''v1'', ''relay'', ''sessions'', ''pending''] NoBody)
        \<lparr>q_deviceIDQuery := hc_deviceID c, q_wait := ''25''\<rparr>)"
    by (subst read_request_path(2), simp_all only: pending_query) (simp_all add: unescape_all_def header_def read_as_def)
  then show ?thesis by (simp add: to_controller_def pending_request_def)
qed

text \<open>The request targets of the two stream attachments.\<close>

definition client_target :: "http_client \<Rightarrow> string \<Rightarrow> string" where
  "client_target c sid = ''/api/v1/relay/client/'' @ path_escape sid @ ''?sourceDeviceId='' @ query_escape (hc_deviceID c)"

definition agent_target :: "http_client \<Rightarrow> string \<Rightarrow> string" where
  "agent_target c sid = ''/api/v1/relay/agent/'' @ path_escape sid @ ''?deviceId='' @ query_escape (hc_deviceID c)"

lemma attach_targets:
  "AttachRelayClient url_parse net sid c = dialRelayUpgrade url_parse net (client_target c sid) c"
  "AttachRelayAgent url_parse net sid c = dialRelayUpgrade url_parse net (agent_target c sid) c"
  by (simp_all add: AttachRelayClient_def AttachRelayAgent_def client_target_def agent_target_def)

lemma one_query:
  assumes "CHR ''='' \<notin> set k" "CHR ''&'' \<notin> set k" "unescape True k = Some k"
  shows "query_get (k @ CHR ''='' # query_escape v) key = (if key = k then v else '''')"
proof -
  have "split_on CHR ''&'' (k @ CHR ''='' # query_escape v) = [k @ CHR ''='' # query_escape v]"
    using assms(2) query_escape_free [of "CHR ''&''" v] by (intro split_on_none) (simp add: not_unreserved)
  then show ?thesis
    unfolding query_get_def using query_pair_escaped [OF assms(1,3), of v] by (simp add: List.map_filter_simps)
qed

text \<open>What an agent that attaches a stream needs, as the address and the token of a registered one are.\<close>

definition can_dial :: "url_parser \<Rightarrow> http_client \<Rightarrow> string \<Rightarrow> string \<Rightarrow> bool" where
  "can_dial url_parse c scheme host \<longleftrightarrow>
     hc_controllerURL c \<noteq> '''' \<and> url_parse (hc_controllerURL c) = Some (scheme, host) \<and> list_all host_char host
     \<and> hc_deviceToken c \<noteq> '''' \<and> visible (hc_deviceToken c)"

lemma targets_visible: "visible (client_target c sid)" "visible (agent_target c sid)"
proof -
  have "visible ''/api/v1/relay/client/''" "visible ''/api/v1/relay/agent/''" "visible ''?sourceDeviceId=''"
    "visible ''?deviceId=''" by (simp_all add: visible_def)
  then show "visible (client_target c sid)" "visible (agent_target c sid)"
    unfolding client_target_def agent_target_def visible_append by (simp_all only: visible_escapes simp_thms)
qed

lemma stream_reaches:
  assumes "can_dial url_parse c scheme host" and "visible (hc_deviceID c)" and "sid \<notin> {'''', ''.'', ''..''}"
  shows "read_bytes (upgrade_request c (client_target c sid) host) =
      Some ((read_as c ''GET'' [''api'', ''v1'', ''relay'', ''client'', sid] NoBody)
        \<lparr>q_deviceIDHeader := hc_deviceID c, q_sourceQuery := hc_deviceID c\<rparr>)"
    and "read_bytes (upgrade_request c (agent_target c sid) host) =
      Some ((read_as c ''GET'' [''api'', ''v1'', ''relay'', ''agent'', sid] NoBody)
        \<lparr>q_deviceIDHeader := hc_deviceID c, q_deviceIDQuery := hc_deviceID c\<rparr>)"
proof -
  let ?hs = "[(''Host'', host), (''Connection'', ''Upgrade''), (''Upgrade'', ''linkbit-relay''),
     (''X-Linkbit-Device-ID'', hc_deviceID c), (''X-Linkbit-Device-Token'', hc_deviceToken c)]"
  have c: "list_all host_char host" "visible (hc_deviceToken c)" using assms(1) by (simp_all add: can_dial_def)
  note bytes = upgrade_read [OF _ c(1) assms(2) c(2)]
  have "read_request ''GET'' (join_path [''api'', ''v1'', ''relay'', ''client'', path_escape sid] @ CHR ''?'' #
        (''sourceDeviceId'' @ CHR ''='' # query_escape (hc_deviceID c))) ?hs empty_body =
    Some ((read_as c ''GET'' [''api'', ''v1'', ''relay'', ''client'', sid] NoBody)
      \<lparr>q_deviceIDHeader := hc_deviceID c, q_sourceQuery := hc_deviceID c\<rparr>)"
    by (subst read_request_path(2), simp_all add: sent_escaped [OF assms(3)] unescape_all_def unescape_path)
      (subst (1 2 3) one_query [of "''sourceDeviceId''", simplified], simp_all add: header_def read_as_def wire_body_def)
  then show "read_bytes (upgrade_request c (client_target c sid) host) =
      Some ((read_as c ''GET'' [''api'', ''v1'', ''relay'', ''client'', sid] NoBody)
        \<lparr>q_deviceIDHeader := hc_deviceID c, q_sourceQuery := hc_deviceID c\<rparr>)"
    using bytes [OF targets_visible(1)] by (simp add: client_target_def)
  have "read_request ''GET'' (join_path [''api'', ''v1'', ''relay'', ''agent'', path_escape sid] @ CHR ''?'' #
        (''deviceId'' @ CHR ''='' # query_escape (hc_deviceID c))) ?hs empty_body =
    Some ((read_as c ''GET'' [''api'', ''v1'', ''relay'', ''agent'', sid] NoBody)
      \<lparr>q_deviceIDHeader := hc_deviceID c, q_deviceIDQuery := hc_deviceID c\<rparr>)"
    by (subst read_request_path(2), simp_all add: sent_escaped [OF assms(3)] unescape_all_def unescape_path)
      (subst (1 2 3) one_query [of "''deviceId''", simplified], simp_all add: header_def read_as_def wire_body_def)
  then show "read_bytes (upgrade_request c (agent_target c sid) host) =
      Some ((read_as c ''GET'' [''api'', ''v1'', ''relay'', ''agent'', sid] NoBody)
        \<lparr>q_deviceIDHeader := hc_deviceID c, q_deviceIDQuery := hc_deviceID c\<rparr>)"
    using bytes [OF targets_visible(2)] by (simp add: agent_target_def)
qed

text \<open>
  A network on which every connection comes up, that takes a written request only when it
  satisfies \<open>accepts\<close>, and then sends the upgrade answer and a stream.
\<close>

definition answering :: "(string \<Rightarrow> bool) \<Rightarrow> string \<Rightarrow> nat \<Rightarrow> relay_net" where
  "answering accepts stream ahead = \<lparr>rn_dial = (\<lambda>a. True), rn_handshake = (\<lambda>n. True), rn_write = accepts,
     rn_bytes = upgrade_answer @ stream, rn_ahead = ahead\<rparr>"

lemma dial_answering:
  assumes "can_dial url_parse c scheme host" and "hc_deviceID c \<noteq> ''''" and "accepts (upgrade_request c path host)"
  shows "snd (dialRelayUpgrade url_parse (answering accepts stream ahead) path c) = ConnOpen"
  using assms by (simp add: dialRelayUpgrade_def can_dial_def answering_def read_upgrade_answer)

lemma routed:
  "did \<noteq> '''' \<Longrightarrow> find_route (read_as c ''GET'' [''api'', ''v1'', ''devices'', did, ''network-config''] b)
     = Some (mk_route ''GET'' (api [Lit ''devices'', Wild, Lit ''network-config'']) Open DeviceNetworkConfig, did)"
  "did \<noteq> '''' \<Longrightarrow> find_route (read_as c ''POST'' [''api'', ''v1'', ''devices'', did, ''health''] b)
     = Some (mk_route ''POST'' (api [Lit ''devices'', Wild, Lit ''health'']) Open DeviceHealth, did)"
  "find_route (read_as c ''POST'' [''api'', ''v1'', ''relay'', ''sessions''] b)
     = Some (mk_route ''POST'' (api [Lit ''relay'', Lit ''sessions'']) Open RelaySessionCreate, '''')"
  "find_route ((read_as c ''POST'' [''api'', ''v1'', ''devices'', ''register''] b)\<lparr>q_deviceToken := ''''\<rparr>)
     = Some (mk_route ''POST'' (api [Lit ''devices'', Lit ''register'']) Open DeviceRegister, '''')"
  "find_route ((read_as c ''GET'' [''api'', ''v1'', ''relay'', ''sessions'', ''pending''] b)\<lparr>q_deviceIDQuery := x, q_wait := y\<rparr>)
     = Some (mk_route ''GET'' (api [Lit ''relay'', Lit ''sessions'', Lit ''pending'']) Open RelayPending, '''')"
  "sid \<noteq> '''' \<Longrightarrow> find_route ((read_as c ''GET'' [''api'', ''v1'', ''relay'', ''client'', sid] b)\<lparr>q_deviceIDHeader := x, q_sourceQuery := y\<rparr>)
     = Some (mk_route ''GET'' (api [Lit ''relay'', Lit ''client'', Wild]) Open RelayClientStream, sid)"
  "sid \<noteq> '''' \<Longrightarrow> find_route ((read_as c ''GET'' [''api'', ''v1'', ''relay'', ''agent'', sid] b)\<lparr>q_deviceIDHeader := x, q_deviceIDQuery := y\<rparr>)
     = Some (mk_route ''GET'' (api [Lit ''relay'', Lit ''agent'', Wild]) Open RelayAgentStream, sid)"
  by (simp_all add: find_route_def routes_def mk_route_def method_matches_def read_as_def)

lemma plain_id_trim: "plain_id s \<Longrightarrow> trim_space s = s"
proof -
  assume p: "plain_id s"
  have "list_all (\<lambda>c. \<not> unreserved c) (concat space_encodings)"
    by (simp add: space_encodings_def unreserved_def)
  then have "space_free s"
    using p by (auto simp: space_free_def plain_id_def list_all_iff)
  then show "trim_space s = s" by (rule trim_space_id)
qed

lemma decode_wire:
  "decodeJSON jb_health (read_as c v p (HealthBody r)) = Some r"
  "decodeJSON jb_session (read_as c v p (SessionBody s)) = Some s"
  "decodeJSON jb_register ((read_as c v p (RegisterBody g))\<lparr>q_deviceToken := t\<rparr>) = Some g"
  by (simp_all add: decodeJSON_def read_as_def wire_body_def empty_body_def)

lemma read_as_token [simp]: "q_deviceToken (read_as c v p b) = hc_deviceToken c"
  by (simp add: read_as_def)

text \<open>
  C31: Every call of an agent reaches the handler it is meant for, and the identity the handler
  checks is the client's. For a device id as the controller issues them (no byte that would need
  an escape in a path, and not a dot segment) the health report, the network configuration, the
  opening of a relay session and the poll are routed to their endpoints with the client's token
  and device id. For any session id but the empty one and the two dot segments, however it has to
  be escaped, the attachments of both sides succeed on a network that takes a written request only
  when its bytes are read and routed to the stream endpoint of that side with exactly that session
  id and with the client's token and device id. A registration carries the enrollment key, the
  name, the keys and the endpoint of the client.
\<close>

theorem agent_calls_reach_handlers:
  assumes "plain_id (hc_deviceID c)" and "sid \<notin> {'''', ''.'', ''..''}"
    and "tsr_SourceDeviceID req = '''' \<or> tsr_SourceDeviceID req = hc_deviceID c"
    and "can_dial url_parse c scheme host"
  shows "routed_to (to_controller (hc_controllerURL c) (config_request c)) DeviceNetworkConfig (hc_deviceID c) c
     \<and> routed_to (to_controller (hc_controllerURL c) (health_request c rep)) DeviceHealth (hc_deviceID c) c
     \<and> routed_to (to_controller (hc_controllerURL c) (session_request c req)) RelaySessionCreate '''' c
     \<and> routed_to (to_controller (hc_controllerURL c) (pending_request c)) RelayPending '''' c
     \<and> snd (AttachRelayClient url_parse
          (answering (\<lambda>bytes. routed_to (read_bytes bytes) RelayClientStream sid c) stream ahead) sid c) = ConnOpen
     \<and> snd (AttachRelayAgent url_parse
          (answering (\<lambda>bytes. routed_to (read_bytes bytes) RelayAgentStream sid c) stream ahead) sid c) = ConnOpen
     \<and> (\<exists>q r. to_controller (hc_controllerURL c) (register_request c key name) = Some q
          \<and> find_route q = Some (r, '''') \<and> rt_endpoint r = DeviceRegister
          \<and> decodeJSON jb_register q = Some \<lparr>drr_EnrollmentKey = key, drr_Name = name, drr_PublicKey = hc_publicKey c,
              drr_Fingerprint = hc_fingerprint c, drr_Endpoint = hc_endpoint c\<rparr>)"
proof -
  have did: "hc_deviceID c \<noteq> ''''" and sid: "sid \<noteq> ''''" using assms(1,2) by (auto simp: plain_id_def)
  note simps = routed_to_def config_reaches [OF assms(1)] health_reaches [OF assms(1)] session_reaches
    pending_reaches stream_reaches [OF assms(4) plain_visible [OF assms(1)] assms(2)] register_reaches routed did sid
    claimed_device_def device_of_request_def plain_id_trim [OF assms(1)] decode_wire
  have "routed_to (to_controller (hc_controllerURL c) (config_request c)) DeviceNetworkConfig (hc_deviceID c) c"
    "routed_to (to_controller (hc_controllerURL c) (health_request c rep)) DeviceHealth (hc_deviceID c) c"
    "routed_to (to_controller (hc_controllerURL c) (pending_request c)) RelayPending '''' c"
    "routed_to (read_bytes (upgrade_request c (client_target c sid) host)) RelayClientStream sid c"
    "routed_to (read_bytes (upgrade_request c (agent_target c sid) host)) RelayAgentStream sid c"
    by (simp_all add: simps mk_route_def)
  moreover have "routed_to (to_controller (hc_controllerURL c) (session_request c req)) RelaySessionCreate '''' c"
    using assms(3) by (auto simp: simps mk_route_def)
  ultimately show ?thesis
    unfolding attach_targets using dial_answering [OF assms(4) did] by (simp add: simps mk_route_def)
qed

definition plain_client :: http_client where
  "plain_client = \<lparr>hc_controllerURL = ''https://c'', hc_publicKey = ''pk'', hc_fingerprint = ''f'', hc_endpoint = '''',
     hc_deviceID = ''d-1'', hc_deviceToken = ''k''\<rparr>"

lemma plain_client: "plain_id (hc_deviceID plain_client)"
  by (simp add: plain_client_def plain_id_def unreserved_def)

theorem agent_calls_reach_handlers_witness:
  "snd (AttachRelayAgent (\<lambda>u. Some (''https'', ''c''))
      (answering (\<lambda>bytes. routed_to (read_bytes bytes) RelayAgentStream ''a/b?c'' plain_client) ''ssh'' 2) ''a/b?c'' plain_client) = ConnOpen"
proof -
  have "can_dial (\<lambda>u. Some (''https'', ''c'')) plain_client ''https'' ''c''"
    by (simp add: can_dial_def plain_client_def host_char_def unreserved_def visible_def)
  from agent_calls_reach_handlers [OF plain_client _ _ this, of "''a/b?c''"
      "\<lparr>tsr_SourceDeviceID = '''', tsr_Target = ''b'', tsr_TargetPort = 22, tsr_Protocol = ''tcp''\<rparr>"]
  show ?thesis by simp
qed

section \<open>A first registration\<close>

lemma public_serve:
  assumes "find_route q = Some (r, pid)" and "rt_guard r = Open"
  shows "serve lib env q sv =
    (case finish (handler_of lib env q (rt_endpoint r) pid) sv of (resp, sv') \<Rightarrow> (securityHeaders resp, sv'))"
  using assms by (simp add: serve_def mux_def guarded_def)

lemma authenticate_done:
  assumes "db_faults (sv_db sv) = []" and "did \<noteq> ''''" and "q_deviceToken q \<noteq> ''''"
    and "HashAPIKey (l_mac lib) (q_deviceToken q) (pepper sv) = Inr th"
    and "find (\<lambda>d. d_ID d = did \<and> d_TokenHash d = th) (db_devices (sv_db sv)) = Some d"
  shows "authenticateDeviceCredentials lib q did sv = (Inr d, sv)"
  using assms
  by (simp add: authenticateDeviceCredentials_def run_defs GetDeviceByIDAndTokenHash_def query_row_def)

text \<open>The configuration of a device in a state.\<close>

definition config_of :: "server \<Rightarrow> device \<Rightarrow> network_config" where
  "config_of sv d =
     (let devices = order_desc (\<lambda>d. formatTime (d_CreatedAt d)) (db_devices (sv_db sv));
          policies = order_desc (\<lambda>p. formatTime (p_CreatedAt p)) (db_policies (sv_db sv))
      in \<lparr>nc_Device = wire_device d,
          nc_Peers = allowedPeers d devices policies @ (if sv_hub sv \<noteq> None then [NetworkPeer (sv_hub sv)] else []),
          nc_Policies = policies,
          nc_Relays = sort_key (\<lambda>r. (r_Region r, r_Name r)) (db_relays (sv_db sv))\<rparr>)"

lemma config_of_device [simp]: "nc_Device (config_of sv d) = wire_device d"
  by (simp add: config_of_def Let_def)

lemma network_config_done:
  assumes "authenticateDeviceCredentials lib q did sv = (Inr d, sv)" and "db_faults (sv_db sv) = []"
  shows "finish (handleDeviceNetworkConfig lib q did) sv = (writeJSON 200 (PConfig (config_of sv d)), sv)"
  using assms
  by (simp add: handleDeviceNetworkConfig_def authenticateDevice_same run_defs config_of_def Let_def ListDevices_def
      ListPolicies_def ListRelays_def query_all_def)

lemma health_done:
  assumes "db_faults (sv_db sv) = []" and "did \<noteq> ''''" and "q_deviceToken q \<noteq> ''''"
    and "HashAPIKey (l_mac lib) (q_deviceToken q) (pepper sv) = Inr th"
    and "d \<in> set (db_devices (sv_db sv))" and "d_ID d = did" and "d_TokenHash d = th"
    and "decodeJSON jb_health q = Some rep" and "validWireGuardEndpoint (trim_space (dhr_Endpoint rep))"
  shows "\<exists>d' sv'. finish (handleDeviceHealth lib env q did) sv = (writeJSON 200 (PDevice d'), sv')"
proof -
  let ?sel = "\<lambda>d. d_ID d = did \<and> d_TokenHash d = th" and ?rep = "rep\<lparr>dhr_Endpoint := trim_space (dhr_Endpoint rep)\<rparr>"
  let ?ds = "tbl_update ?sel (health_row (e_now env 1) ?rep) (db_devices (sv_db sv))"
  have "tbl_count ?sel (db_devices (sv_db sv)) \<noteq> 0"
    using assms(5-7) by (auto simp: tbl_count_0_iff)
  moreover have "\<exists>x. find (\<lambda>d. d_ID d = did) ?ds = Some x"
  proof -
    have "map d_ID ?ds = map d_ID (db_devices (sv_db sv))"
      by (rule map_tbl_update) (simp add: health_row_def)
    then have "d_ID ` set ?ds = d_ID ` set (db_devices (sv_db sv))" by (metis list.set_map)
    then have "did \<in> d_ID ` set ?ds" using assms(5,6) by auto
    then show ?thesis by (metis (mono_tags, lifting) find_None_iff imageE not_None_eq)
  qed
  ultimately show ?thesis
    using assms(1-4,8,9)
    by (auto simp: handleDeviceHealth_def run_defs Let_def UpdateDeviceHealth_def then_stmt_def exec_rows_def
        getDevice_def query_row_def)
qed

lemma Register_parts:
  assumes "Register send key name c = (Inr reg, c')"
  shows "c' = c\<lparr>hc_deviceID := d_ID (resp_Device reg), hc_deviceToken := d_DeviceToken (resp_Device reg)\<rparr>"
    and "hc_controllerURL c \<noteq> ''''" and "read_reply hp_registration (send (register_request c key name)) = Inr reg"
  using assms by (auto simp: Register_def split: if_splits sum.splits)

lemma wire_reply_registration:
  "read_reply hp_registration (wire_reply r) = Inr reg \<Longrightarrow> rs_body r = PRegistered reg"
  by (auto simp: read_reply_def wire_reply_def split: if_splits option.splits payload.splits)

lemma registered_status:
  assumes "finish (handleDeviceRegister lib env q) sv = (resp, sv')" and "rs_body resp = PRegistered reg"
  shows "rs_status resp = 201"
proof -
  obtain x where h: "handleDeviceRegister lib env q sv = (x, sv')" and resp: "resp = (case x of Inl r \<Rightarrow> r | Inr r \<Rightarrow> r)"
    by (rule finish_cases [OF assms(1)])
  have err: "\<exists>n m. r = writeError n m" if "handleDeviceRegister lib env q sv = (Inl r, sv')" for r
    using that
    by (auto simp: handleDeviceRegister_def check_registration_def find_invitation_def create_device_def run_defs
        hash_act_run invitation_error_def Let_def SyncHub_def mark_used_def
        split: if_splits sum.splits prod.splits option.splits)
  from h show ?thesis
  proof (cases rule: register_outcome)
    case (rejected r)
    with err h assms(2) resp show ?thesis by auto
  qed (simp add: resp)
qed

text \<open>An answered registration, read at the controller.\<close>

definition register_read :: "http_client \<Rightarrow> string \<Rightarrow> string \<Rightarrow> request" where
  "register_read c key name =
     (read_as c ''POST'' [''api'', ''v1'', ''devices'', ''register'']
       (RegisterBody \<lparr>drr_EnrollmentKey = key, drr_Name = name, drr_PublicKey = hc_publicKey c,
          drr_Fingerprint = hc_fingerprint c, drr_Endpoint = hc_endpoint c\<rparr>))\<lparr>q_deviceToken := ''''\<rparr>"

lemma registered_endpoint:
  assumes "finish (handleDeviceRegister lib env q) sv = (resp, sv')" and "rs_status resp = 201"
    and "decodeJSON jb_register q = Some req"
  shows "validWireGuardEndpoint (trim_space (drr_Endpoint req))"
proof -
  from assms(1) obtain x where h: "handleDeviceRegister lib env q sv = (x, sv')" and resp: "resp = (case x of Inl r \<Rightarrow> r | Inr r \<Rightarrow> r)"
    by (rule finish_cases)
  from h show ?thesis
  proof (cases rule: register_outcome)
    case (rejected r)
    with resp assms(2) show ?thesis by simp
  next
    case (accepted req' invit' sv2 d' sv3 sv4 sv5 relays')
    then show ?thesis using check_registration_InrD(2,6) [OF accepted(1)] assms(3) by simp
  qed
qed

lemma answered_registration:
  assumes "Register (controller lib env (hc_controllerURL c) sv) key name c = (Inr reg, c')"
    and "sv' = after_request lib env (hc_controllerURL c) (register_request c key name) sv"
  obtains resp req invit d relays where
    "serve lib env (register_read c key name) sv = (securityHeaders resp, sv')"
    "enrolled lib env sv req invit d" "validWireGuardEndpoint (trim_space (hc_endpoint c))"
    "db_devices (sv_db sv') = db_devices (sv_db sv) @ [d\<lparr>d_DeviceToken := ''''\<rparr>]"
    "d_ID d \<notin> d_ID ` set (db_devices (sv_db sv))" "resp_Device reg = wire_device d"
proof -
  let ?q = "register_read c key name"
  obtain resp t where f0: "finish (handleDeviceRegister lib env ?q) sv = (resp, t)" by fastforce
  then have s: "serve lib env ?q sv = (securityHeaders resp, t)"
    by (simp add: register_read_def public_serve [OF routed(4)] mk_route_def handler_of_def)
  have t: "t = sv'" using assms(2) s by (simp add: after_request_def register_reaches register_read_def)
  note f = f0 [unfolded t]
  have body: "rs_body resp = PRegistered reg"
    using Register_parts(3) [OF assms(1)] s wire_reply_registration [of "securityHeaders resp"]
    by (simp add: controller_def register_reaches register_read_def)
  have created: "rs_status resp = 201" by (rule registered_status [OF f body])
  with registration_result [OF f] obtain req invit d relays where
    req: "decodeJSON jb_register ?q = Some req" and e: "enrolled lib env sv req invit d" and
    devs: "db_devices (sv_db sv') = db_devices (sv_db sv) @ [d\<lparr>d_DeviceToken := ''''\<rparr>]" and
    new: "d_ID d \<notin> d_ID ` set (db_devices (sv_db sv))" and
    pr: "rs_body resp = PRegistered \<lparr>resp_Device = wire_device d, resp_Relays = relays, resp_Message = ''device registered''\<rparr>"
    by blast
  have "drr_Endpoint req = hc_endpoint c" using req by (auto simp: register_read_def decode_wire)
  with registered_endpoint [OF f created req] have "validWireGuardEndpoint (trim_space (hc_endpoint c))" by simp
  with that s e devs new show thesis using body pr t by auto
qed

text \<open>The two requests of a device whose row the controller holds.\<close>

lemma config_answered:
  assumes "plain_id (d_ID d)" and "hc_deviceID c = d_ID d" and "hc_controllerURL c \<noteq> ''''"
    and "hc_deviceToken c \<noteq> ''''" and "db_faults (sv_db sv) = []"
    and "HashAPIKey (l_mac lib) (hc_deviceToken c) (pepper sv) = Inr th"
    and "find (\<lambda>e. d_ID e = d_ID d \<and> d_TokenHash e = th) (db_devices (sv_db sv)) = Some d"
  shows "GetNetworkConfig (controller lib env (hc_controllerURL c) sv) c = Inr (config_of sv d)"
proof -
  let ?q = "read_as c ''GET'' [''api'', ''v1'', ''devices'', d_ID d, ''network-config''] NoBody"
  have ne: "d_ID d \<noteq> ''''" using assms(1) by (simp add: plain_id_def)
  have a: "authenticateDeviceCredentials lib ?q (d_ID d) sv = (Inr d, sv)"
    using assms(4-7) ne by (intro authenticate_done) simp_all
  have "fst (serve lib env ?q sv) = securityHeaders (writeJSON 200 (PConfig (config_of sv d)))"
    using public_serve [OF routed(1) [OF ne]] network_config_done [OF a assms(5)]
    by (simp add: mk_route_def handler_of_def)
  then show ?thesis
    using config_reaches [of c] assms(1-4) ne
    by (simp add: GetNetworkConfig_def controller_def read_reply_def wire_reply_def)
qed

lemma health_answered:
  assumes "plain_id (d_ID d)" and "hc_deviceID c = d_ID d" and "hc_controllerURL c \<noteq> ''''"
    and "hc_deviceToken c \<noteq> ''''" and "db_faults (sv_db sv) = []"
    and "HashAPIKey (l_mac lib) (hc_deviceToken c) (pepper sv) = Inr (d_TokenHash d)" and "d \<in> set (db_devices (sv_db sv))"
    and "validWireGuardEndpoint (trim_space (dhr_Endpoint rep))"
  shows "\<exists>d'. ReportHealth (controller lib env (hc_controllerURL c) sv) rep c = Inr d'"
proof -
  let ?q = "read_as c ''POST'' [''api'', ''v1'', ''devices'', d_ID d, ''health''] (HealthBody rep)"
  have ne: "d_ID d \<noteq> ''''" using assms(1) by (simp add: plain_id_def)
  obtain d' sv2 where "finish (handleDeviceHealth lib env ?q (d_ID d)) sv = (writeJSON 200 (PDevice d'), sv2)"
    using health_done [OF assms(5) ne _ _ assms(7) refl refl decode_wire(1) assms(8)] assms(4,6) by (metis read_as_token)
  then have "fst (serve lib env ?q sv) = securityHeaders (writeJSON 200 (PDevice d'))"
    using public_serve [OF routed(2) [OF ne]] by (simp add: mk_route_def handler_of_def)
  then have "ReportHealth (controller lib env (hc_controllerURL c) sv) rep c = Inr d'"
    using health_reaches [of c rep] assms(1-4) ne
    by (simp add: ReportHealth_def controller_def read_reply_def wire_reply_def)
  then show ?thesis ..
qed

text \<open>
  C30: A first registration yields credentials that work: when a client's registration is
  answered, the controller has stored one new device under the id the client now holds, and, as
  long as the store works, with the token it now holds the client gets the network
  configuration of just this device, and its health report is accepted.
\<close>

theorem first_start:
  assumes "db_ok (sv_db sv)" and "env_ok env1"
    and "Register (controller lib env1 (hc_controllerURL c) sv) key name c = (Inr reg, c')"
    and "sv1 = after_request lib env1 (hc_controllerURL c) (register_request c key name) sv"
    and "db_faults (sv_db sv1) = []" and "plain_id (e_uuid env1 0)"
  shows "\<exists>d. db_devices (sv_db sv1) = db_devices (sv_db sv) @ [d] \<and> d_ID d = hc_deviceID c'
       \<and> resp_Device reg = d\<lparr>d_TokenHash := '''', d_DeviceToken := hc_deviceToken c'\<rparr>
       \<and> GetNetworkConfig (controller lib env2 (hc_controllerURL c) sv1) c' = Inr (config_of sv1 d)
       \<and> (\<exists>d'. ReportHealth (controller lib env3 (hc_controllerURL c) sv1) (online_report (hc_endpoint c)) c' = Inr d')"
proof -
  note R = Register_parts [OF assms(3)]
  from answered_registration [OF assms(3,4)] obtain resp req invit d0 where
    s: "serve lib env1 (register_read c key name) sv = (securityHeaders resp, sv1)"
    and e: "enrolled lib env1 sv req invit d0" and ep: "validWireGuardEndpoint (trim_space (hc_endpoint c))"
    and devs: "db_devices (sv_db sv1) = db_devices (sv_db sv) @ [d0\<lparr>d_DeviceToken := ''''\<rparr>]"
    and new: "d_ID d0 \<notin> d_ID ` set (db_devices (sv_db sv))" and reg: "resp_Device reg = wire_device d0"
    by metis
  obtain token th where t: "NewAPIKey (e_rand env1) = Some token" "HashAPIKey (l_mac lib) token (pepper sv) = Inr th"
    and d0: "d0 = new_device env1 req invit (trim_space (drr_Endpoint req)) token th"
    using e by (auto simp: enrolled_def)
  let ?d = "d0\<lparr>d_DeviceToken := ''''\<rparr>"
  have c': "hc_deviceID c' = d_ID ?d" "hc_deviceToken c' = token" "hc_controllerURL c' = hc_controllerURL c"
    and w: "wire_device d0 = ?d\<lparr>d_TokenHash := '''', d_DeviceToken := token\<rparr>"
    by (simp_all add: R(1) reg wire_device_def d0 new_device_def)
  have plain: "plain_id (d_ID ?d)" using assms(6) by (simp add: d0)
  have "db_moves sv sv1" by (rule serve_moves [OF assms(2,1) s])
  then have hash: "HashAPIKey (l_mac lib) (hc_deviceToken c') (pepper sv1) = Inr (d_TokenHash ?d)"
    using t(2) by (simp add: db_moves_def pepper_def c' d0)
  have client: "hc_controllerURL c' \<noteq> ''''" "hc_deviceToken c' \<noteq> ''''"
    using R(2) HashAPIKey_InrD [OF t(2)] by (auto simp: c')
  have "find (\<lambda>e. d_ID e = d_ID ?d \<and> d_TokenHash e = d_TokenHash ?d) (db_devices (sv_db sv)) = None"
    using new by (force simp: find_None_iff image_iff)
  then have row: "find (\<lambda>e. d_ID e = d_ID ?d \<and> d_TokenHash e = d_TokenHash ?d) (db_devices (sv_db sv1)) = Some ?d"
    by (simp add: devs find_append)
  note config = config_answered [OF plain c'(1) client assms(5) hash row, of env2]
  have "?d \<in> set (db_devices (sv_db sv1))" by (simp add: devs)
  note health = health_answered [OF plain c'(1) client assms(5) hash this, of "online_report (hc_endpoint c)" env3]
  show ?thesis
    using config health ep devs c'(1,2) by (auto simp: c'(3) reg w online_report_def)
qed

lemma register_decoded:
  "decodeJSON jb_register q = decodeJSON jb_register q' \<Longrightarrow> handleDeviceRegister lib env q = handleDeviceRegister lib env q'"
  by (simp add: handleDeviceRegister_def check_registration_def decode_or_def)

definition new_client :: http_client where
  "new_client = NewHTTPRegistrationClient ''https://c'' ''k'' '''' ''''"

lemma new_client_simps [simp]: "hc_controllerURL new_client = ''https://c''" "hc_publicKey new_client = ''k''"
  "hc_fingerprint new_client = ''''" "hc_endpoint new_client = ''''"
  by (simp_all add: new_client_def NewHTTPRegistrationClient_def trim_right_def)

theorem first_start_witness:
  "\<exists>reg c' sv1 nc. Register (controller demo_lib demo_env ''https://c'' (inviting_server [])) ''k'' ''n'' new_client = (Inr reg, c')
     \<and> GetNetworkConfig (controller demo_lib demo_env ''https://c'' sv1) c' = Inr nc \<and> hc_deviceID c' = ''uuid''"
proof -
  let ?q = "(read_as new_client ''POST'' [''api'', ''v1'', ''devices'', ''register''] (RegisterBody demo_drr))\<lparr>q_deviceToken := ''''\<rparr>"
  let ?sv = "inviting_server []"
  have same: "handleDeviceRegister demo_lib demo_env ?q = handleDeviceRegister demo_lib demo_env enrolling_request"
    using check_registration_InrD(2) [OF demo_checked] by (intro register_decoded) (simp add: decode_wire)
  obtain resp sv1 where f: "finish (handleDeviceRegister demo_lib demo_env enrolling_request) ?sv = (resp, sv1)"
    and s: "rs_status resp = 201" by (rule demo_registered)
  have c: "finish (register_commit demo_lib demo_env (demo_drr, demo_invitation)) ?sv = (resp, sv1)"
    using f begin_demo [of "[]" demo_env] demo_live_env(1) by (simp add: register_halves finish_def then_act_def)
  have nf: "db_faults (sv_db sv1) = []"
    using commit_done [OF _ demo_live_env(2) _ _ _ refl c] demo_token_hash by simp
  have sv: "serve demo_lib demo_env ?q ?sv = (securityHeaders resp, sv1)"
    by (subst public_serve [OF routed(4)]) (simp_all add: mk_route_def handler_of_def same f)
  have reach: "to_controller ''https://c'' (register_request new_client ''k'' ''n'') = Some ?q"
    using register_reaches [of new_client "''k''" "''n''"] by simp
  obtain d relays where b: "rs_body resp = PRegistered \<lparr>resp_Device = wire_device d, resp_Relays = relays,
      resp_Message = ''device registered''\<rparr>" and id: "d_ID d = ''uuid''"
    using registration_result [OF f] s by (auto simp: enrolled_def demo_env_def)
  let ?c = "new_client\<lparr>hc_deviceID := d_ID d, hc_deviceToken := d_DeviceToken (wire_device d)\<rparr>"
  have R: "Register (controller demo_lib demo_env ''https://c'' ?sv) ''k'' ''n'' new_client
      = (Inr \<lparr>resp_Device = wire_device d, resp_Relays = relays, resp_Message = ''device registered''\<rparr>, ?c)"
    using s b by (simp add: Register_def controller_def reach sv read_reply_def wire_reply_def wire_device_def)
  have p: "plain_id (e_uuid demo_env 0)" by (simp add: demo_env_def plain_id_def unreserved_def)
  have "sv1 = after_request demo_lib demo_env (hc_controllerURL new_client) (register_request new_client ''k'' ''n'') ?sv"
    by (simp add: after_request_def reach sv)
  from first_start [OF inviting_ok demo_env_ok _ this nf p, of "\<lparr>resp_Device = wire_device d, resp_Relays = relays,
      resp_Message = ''device registered''\<rparr>" ?c demo_env demo_env] R
  obtain nc where "GetNetworkConfig (controller demo_lib demo_env ''https://c'' sv1) ?c = Inr nc" by auto
  with R id show ?thesis by (intro exI conjI) (rule R, assumption, simp)
qed

end
