(* ===== verification/Hub_Policy.thy ===== *)
theory Hub_Policy
  imports End_To_End
begin

text \<open>
  What access policies mean for a network with a hub. The controller answers every device with the
  peers its policies allow and the hub (\<open>Handlers.handleDeviceNetworkConfig\<close>); the agent, seeing
  a hub, configures nothing else (\<open>Agent_Wireguard.chosen_peers\<close>), and the hub takes every device
  of its network as a peer (\<open>Wireguard_Hub.Sync\<close>). So the policies never reach the data plane.
\<close>

lemma policy_peer_no_hub: "d_ID c \<noteq> ''linkbit-hub'' \<Longrightarrow> \<not> is_hub (peer_of c)"
  by (auto simp: is_hub_def peer_of_def)

lemma hub_peer: "is_hub (NetworkPeer (Some h))"
  by (simp add: is_hub_def NetworkPeer_def)

lemma only_hub_chosen:
  assumes "\<forall>c \<in> set devices. d_ID c \<noteq> ''linkbit-hub''"
  shows "chosen_peers (allowedPeers d devices policies @ [NetworkPeer (Some h)]) = [NetworkPeer (Some h)]"
proof -
  have "filter is_hub (allowedPeers d devices policies) = []"
    using assms by (auto simp: filter_empty_conv allowedPeers_eq policy_peer_no_hub)
  then show ?thesis by (simp add: chosen_peers_eq hub_peer)
qed

lemma Apply_chosen:
  assumes "chosen_peers (nc_Peers nc) = chosen_peers (nc_Peers nc')"
    and "d_VirtualIP (nc_Device nc) = d_VirtualIP (nc_Device nc')"
  shows "Apply goos run keyFile cfg nc tr = Apply goos run keyFile cfg nc' tr"
proof -
  have "applyCommands run cfg nc = applyCommands run cfg nc'"
    by (intro ext) (simp add: applyCommands_def apply_row_def assms)
  moreover have "validateNetworkConfig cfg nc = validateNetworkConfig cfg nc'"
    by (simp add: validateNetworkConfig_def assms)
  ultimately show ?thesis by (simp add: Apply_def split: option.split)
qed

lemma SyncHub_policies:
  "sv_events (snd (SyncHub env (sv\<lparr>sv_db := (sv_db sv)\<lparr>db_policies := ps\<rparr>\<rparr>))) = sv_events (snd (SyncHub env sv))"
  by (cases "db_faults (sv_db sv)")
    (auto simp: SyncHub_def ListDevices_def query_all_def exec_stmt_def split: option.splits)

text \<open>
  C33: In a network with a hub the access policies have no effect on the tunnels: whatever
  policies are stored, the configuration a device is answered with makes its agent run the same
  commands, with the hub as its only peer, and the hub is synchronised with the same commands.
\<close>

theorem hub_bypasses_policies:
  assumes "db_ok (sv_db sv)" and "sv_hub sv = Some h"
    and "''linkbit-hub'' \<notin> d_ID ` set (db_devices (sv_db sv))"
    and "sv' = sv\<lparr>sv_db := (sv_db sv)\<lparr>db_policies := ps\<rparr>\<rparr>"
    and "rs_body (fst (finish (handleDeviceNetworkConfig lib q did) sv)) = PConfig nc"
    and "rs_body (fst (finish (handleDeviceNetworkConfig lib q did) sv')) = PConfig nc'"
  shows "chosen_peers (nc_Peers nc) = [NetworkPeer (Some h)]
       \<and> Apply goos run keyFile cfg nc tr = Apply goos run keyFile cfg nc' tr
       \<and> sv_events (snd (SyncHub env sv')) = sv_events (snd (SyncHub env sv))"
proof -
  obtain resp t where f: "finish (handleDeviceNetworkConfig lib q did) sv = (resp, t)" by fastforce
  obtain resp' t' where f': "finish (handleDeviceNetworkConfig lib q did) sv' = (resp', t')" by fastforce
  obtain d ds ps0 where d: "credentials_of lib sv did (q_deviceToken q) d" "set ds = set (db_devices (sv_db sv))"
    "nc_Device nc = wire_device d" "nc_Peers nc = allowedPeers d ds ps0 @ [NetworkPeer (Some h)]"
    by (rule network_config_found [OF f, of nc]) (use assms(2,5) f in auto)
  obtain d' ds' ps' where d': "credentials_of lib sv' did (q_deviceToken q) d'" "set ds' = set (db_devices (sv_db sv))"
    "nc_Device nc' = wire_device d'" "nc_Peers nc' = allowedPeers d' ds' ps' @ [NetworkPeer (Some h)]"
    by (rule network_config_found [OF f', of nc']) (use assms(2,4,6) f' in auto)
  have "d' = d"
    using d(1) d'(1) assms(1,4)
    by (auto simp: credentials_of_def db_ok_def unique_on_def distinct_map dest: inj_onD)
  moreover have "\<forall>c \<in> set (db_devices (sv_db sv)). d_ID c \<noteq> ''linkbit-hub''" using assms(3) by force
  then have "chosen_peers (nc_Peers nc) = [NetworkPeer (Some h)]" "chosen_peers (nc_Peers nc') = [NetworkPeer (Some h)]"
    by (simp_all add: d(2,4) d'(2,4) only_hub_chosen)
  ultimately show ?thesis
    using Apply_chosen [of nc nc'] by (simp add: d(3) d'(3) assms(4) SyncHub_policies)
qed

text \<open>The two devices of the demonstration with a hub, with and without the policy between them.\<close>

definition hub_server :: server where
  "hub_server = (device_server [demo_device ''a'', demo_device ''b''])\<lparr>sv_hub := Some demo_hub\<rparr>"

lemma hub_server_simps [simp]:
  "sv_db hub_server = sv_db (device_server [demo_device ''a'', demo_device ''b''])" "sv_hub hub_server = Some demo_hub"
  "pepper hub_server = ''p''" "pepper (hub_server\<lparr>sv_db := d\<rparr>) = ''p''"
  by (simp_all add: hub_server_def pepper_def device_server_def demo_server_def)

lemma hub_server_ok: "db_ok (sv_db hub_server)"
  using demo_db_ok
  by (simp add: db_ok_def device_server_def unique_on_def demo_db_def empty_db_def)

theorem hub_bypasses_policies_witness:
  "\<exists>nc nc'. p_Enabled demo_policy \<and> policyAllows (p_SourceID demo_policy) (demo_device ''a'')
     \<and> nc_Policies nc = [demo_policy] \<and> nc_Policies nc' = []
     \<and> Apply ''linux'' (\<lambda>tr c. True) (Some ''/tmp/k'') demo_agent_config nc []
       = Apply ''linux'' (\<lambda>tr c. True) (Some ''/tmp/k'') demo_agent_config nc' []"
proof -
  let ?q = "(demo_request ''GET'' [])\<lparr>q_deviceToken := ''k''\<rparr>"
  let ?sv' = "hub_server\<lparr>sv_db := (sv_db hub_server)\<lparr>db_policies := []\<rparr>\<rparr>"
  have hash: "HashAPIKey (l_mac demo_lib) ''k'' ''p'' = Inr ''pk''" by (simp add: demo_hash)
  have a: "authenticateDeviceCredentials demo_lib ?q ''a'' hub_server = (Inr (demo_device ''a''), hub_server)"
    "authenticateDeviceCredentials demo_lib ?q ''a'' ?sv' = (Inr (demo_device ''a''), ?sv')"
    by (rule authenticate_done; simp add: hash)+
  have c: "finish (handleDeviceNetworkConfig demo_lib ?q ''a'') hub_server
      = (writeJSON 200 (PConfig (config_of hub_server (demo_device ''a''))), hub_server)"
    "finish (handleDeviceNetworkConfig demo_lib ?q ''a'') ?sv'
      = (writeJSON 200 (PConfig (config_of ?sv' (demo_device ''a''))), ?sv')"
    by (rule network_config_done [OF a(1)], simp) (rule network_config_done [OF a(2)], simp)
  have "nc_Policies (config_of hub_server (demo_device ''a'')) = [demo_policy]"
    "nc_Policies (config_of ?sv' (demo_device ''a'')) = []"
    by (simp_all add: config_of_def Let_def order_one) (simp add: order_desc_def)
  moreover have "Apply ''linux'' (\<lambda>tr c. True) (Some ''/tmp/k'') demo_agent_config (config_of hub_server (demo_device ''a'')) []
      = Apply ''linux'' (\<lambda>tr c. True) (Some ''/tmp/k'') demo_agent_config (config_of ?sv' (demo_device ''a'')) []"
    using hub_bypasses_policies [OF hub_server_ok hub_server_simps(2) _ refl, where nc = "config_of hub_server (demo_device ''a'')"
        and nc' = "config_of ?sv' (demo_device ''a'')" and q = ?q and did = "''a''" and lib = demo_lib and ps = "[]"] c
    by simp
  moreover have "p_Enabled demo_policy" "policyAllows (p_SourceID demo_policy) (demo_device ''a'')"
    by (simp_all add: demo_policy_def policyAllows_def)
  ultimately show ?thesis by blast
qed

end
