(* ===== verification/Management.thy ===== *)
theory Management
  imports Enrollment
begin

text \<open>
  What the management routes hand out. An API key works from its creation until its revocation,
  for its scope only; an invitation names stored accounts, and its term is the one asked for as
  long as the multiplication of seconds does not wrap.
\<close>

section \<open>API keys\<close>

text \<open>With a working store the check decides exactly \<open>key_grants\<close>.\<close>

lemma verify_iff:
  assumes "db_faults (sv_db sv) = []" and "unique_on k_Digest (db_api_keys (sv_db sv))"
  shows "fst (verifyAPIKeyScope lib env key scopes sv) \<longleftrightarrow> key_grants lib sv key scopes"
proof (cases "HashAPIKey (l_mac lib) key (pepper sv)")
  case (Inl e)
  then show ?thesis by (simp add: verifyAPIKeyScope_def key_grants_def VerifyAPIKey_def)
next
  case (Inr dg)
  let ?live = "\<lambda>k. k_Digest k = dg \<and> is_zero (k_RevokedAt k)"
  show ?thesis
  proof (cases "find ?live (db_api_keys (sv_db sv))")
    case None
    then have "GetAPIKeyByDigest dg (sv_db sv) = (Inl ErrNoRows, sv_db sv)"
      using assms(1) by (simp add: GetAPIKeyByDigest_def query_row_def exec_stmt_def)
    moreover have "\<forall>j \<in> set (db_api_keys (sv_db sv)). k_Digest j = dg \<longrightarrow> k_RevokedAt j \<noteq> zero_time"
      using None by (auto simp: find_None_iff)
    ultimately show ?thesis using Inr by (auto simp: verifyAPIKeyScope_def key_grants_def VerifyAPIKey_def)
  next
    case (Some k)
    then have k: "k \<in> set (db_api_keys (sv_db sv))" "?live k" by (auto dest!: find_SomeD)
    then have "j = k" if "j \<in> set (db_api_keys (sv_db sv))" "k_Digest j = dg" for j
      using that assms(2) by (auto dest: unique_onD)
    with k have "(\<exists>j \<in> set (db_api_keys (sv_db sv)). k_Digest j = dg \<and> k_RevokedAt j = zero_time \<and> k_Scope j \<in> set scopes)
        \<longleftrightarrow> k_Scope k \<in> set scopes" by (metis is_zero_def)
    then have "key_grants lib sv key scopes \<longleftrightarrow> ''admin'' \<in> set scopes \<and> dg = sv_adminDigest sv \<or> k_Scope k \<in> set scopes"
      by (simp add: key_grants_def Inr)
    moreover have "GetAPIKeyByDigest dg (sv_db sv) = (Inr k, sv_db sv)"
      using assms(1) Some by (simp add: GetAPIKeyByDigest_def query_row_def exec_stmt_def)
    then have "fst (verifyAPIKeyScope lib env key scopes sv)
        \<longleftrightarrow> ''admin'' \<in> set scopes \<and> dg = sv_adminDigest sv \<or> k_Scope k \<in> set scopes"
      using Inr by (simp add: verifyAPIKeyScope_def VerifyAPIKey_def split: prod.split)
    ultimately show ?thesis by simp
  qed
qed

definition issued_key :: "env \<Rightarrow> api_key_create_request \<Rightarrow> string \<Rightarrow> string \<Rightarrow> api_key" where
  "issued_key env req dg key =
     \<lparr>k_ID = e_uuid env 0, k_Name = trim_space (kcr_Name req), k_Digest = dg,
      k_Scope = (if kcr_Scope req = '''' then ''admin'' else kcr_Scope req), k_CreatedAt = e_now env 1,
      k_LastUsedAt = zero_time, k_RevokedAt = zero_time, k_PlaintextKey = key\<rparr>"

lemma key_created:
  assumes "finish (handleAPIKeyCreate lib env q) sv = (resp, sv')" and "rs_status resp = 201"
  obtains req key dg where "decodeJSON jb_key q = Some req" "NewAPIKey (e_rand env) = Some key"
    "HashAPIKey (l_mac lib) key (pepper sv) = Inr dg" "k_Scope (issued_key env req dg key) \<in> {''admin'', ''relay''}"
    "CreateAPIKey (issued_key env req dg key) (sv_db sv) = (Inr (), sv_db sv')" "sv' = sv\<lparr>sv_db := sv_db sv'\<rparr>"
    "rs_body resp = PKey (wire_api_key (issued_key env req dg key))"
proof -
  obtain x where h: "handleAPIKeyCreate lib env q sv = (x, sv')" and resp: "resp = (case x of Inl r \<Rightarrow> r | Inr r \<Rightarrow> r)"
    by (rule finish_cases [OF assms(1)])
  obtain r where x: "x = Inr r"
  proof (cases x)
    case (Inl r)
    with h have "rs_status r \<noteq> 201"
      by (auto simp: handleAPIKeyCreate_def run_defs hash_act_run Let_def writeError_def writeJSON_def
          split: if_splits sum.splits prod.splits option.splits)
    with Inl assms(2) resp show ?thesis by simp
  qed
  obtain key where key: "NewAPIKey (e_rand env) = Some key"
    using h x by (cases "NewAPIKey (e_rand env)")
      (auto simp: handleAPIKeyCreate_def Let_def respond_def elim!: then_act_InrE)
  from h obtain req where req: "decodeJSON jb_key q = Some req"
    unfolding x handleAPIKeyCreate_def by (elim then_act_InrE) (auto dest!: act_InrD)
  obtain dg where d: "HashAPIKey (l_mac lib) key (pepper sv) = Inr dg"
    "k_Scope (issued_key env req dg key) \<in> {''admin'', ''relay''}"
    "CreateAPIKey (issued_key env req dg key) (sv_db sv) = (Inr (), sv_db sv')" "sv' = sv\<lparr>sv_db := sv_db sv'\<rparr>"
    "r = writeJSON 201 (PKey (wire_api_key (issued_key env req dg key)))"
  proof (cases "kcr_Scope req = ''''")
    case True
    show thesis
      using h unfolding x handleAPIKeyCreate_def Let_def key option.case
      by (elim then_act_InrE) (auto dest!: act_InrD intro!: that simp: issued_key_def req True simp del: One_nat_def)
  next
    case False
    show thesis
      using h False unfolding x handleAPIKeyCreate_def Let_def key option.case
      by (elim then_act_InrE) (auto dest!: act_InrD intro!: that simp: issued_key_def req simp del: One_nat_def)
  qed
  show thesis by (rule that [OF req key d(1-4)]) (simp add: resp x d(5))
qed

text \<open>
  C34: An issued API key works, for its scope, until it is revoked: the answer to its creation
  carries the secret and never the digest, the scope is the one asked for (admin when none was),
  and after any later requests, as long as the store works, the secret passes the check of a route
  exactly when the key's row is not revoked and the scope is one of the route's (or the secret
  happens to have the bootstrap digest on an admin route).
\<close>

theorem issued_key_works:
  assumes "db_ok (sv_db sv)" and "finish (handleAPIKeyCreate lib env q) sv = (resp, sv')" and "rs_status resp = 201"
    and "served lib sv' sv2" and "db_faults (sv_db sv2) = []"
  shows "\<exists>req k. decodeJSON jb_key q = Some req \<and> rs_body resp = PKey k \<and> k_Digest k = ''''
       \<and> k_Scope k = (if kcr_Scope req = '''' then ''admin'' else kcr_Scope req) \<and> k_Scope k \<in> {''admin'', ''relay''}
       \<and> (\<exists>j \<in> set (db_api_keys (sv_db sv2)). k_ID j = k_ID k \<and> k_PlaintextKey j = ''''
            \<and> (\<forall>env2 scopes. fst (verifyAPIKeyScope lib env2 (k_PlaintextKey k) scopes sv2) \<longleftrightarrow>
                 is_zero (k_RevokedAt j) \<and> k_Scope k \<in> set scopes
                 \<or> ''admin'' \<in> set scopes
                   \<and> HashAPIKey (l_mac lib) (k_PlaintextKey k) (pepper sv) = Inr (sv_adminDigest sv)))"
proof -
  obtain req key dg where d: "decodeJSON jb_key q = Some req" "NewAPIKey (e_rand env) = Some key"
    "HashAPIKey (l_mac lib) key (pepper sv) = Inr dg" "k_Scope (issued_key env req dg key) \<in> {''admin'', ''relay''}"
    "CreateAPIKey (issued_key env req dg key) (sv_db sv) = (Inr (), sv_db sv')" "sv' = sv\<lparr>sv_db := sv_db sv'\<rparr>"
    "rs_body resp = PKey (wire_api_key (issued_key env req dg key))"
    by (rule key_created [OF assms(2,3)])
  let ?k = "issued_key env req dg key"
  have ok': "db_ok (sv_db sv')" by (rule db_steps_ok [OF CreateAPIKey_steps [OF d(5)] assms(1)])
  have "?k\<lparr>k_PlaintextKey := ''''\<rparr> \<in> set (db_api_keys (sv_db sv'))"
    using api_keys.ins_ok [OF d(5)] by simp
  then obtain j where j: "j \<in> set (db_api_keys (sv_db sv2))" "same_key (?k\<lparr>k_PlaintextKey := ''''\<rparr>) j"
    using served_lasts [OF assms(4) ok'] by (auto simp: db_lasts_def)
  have m: "db_moves sv' sv2" "db_ok (sv_db sv2)" using served_moves [OF assms(4) ok'] by auto
  have same: "pepper sv2 = pepper sv" "sv_adminDigest sv2 = sv_adminDigest sv"
    using m(1) arg_cong [OF d(6), of sv_cfg] arg_cong [OF d(6), of sv_adminDigest]
    by (simp_all add: db_moves_def pepper_def)
  have u: "unique_on k_Digest (db_api_keys (sv_db sv2))" using m(2) by (simp add: db_ok_def)
  have jk: "k_ID j = k_ID ?k" "k_Digest j = dg" "k_Scope j = k_Scope ?k"
    using j(2) by (simp_all add: same_key_def issued_key_def)
  have "l = j" if "l \<in> set (db_api_keys (sv_db sv2))" "k_Digest l = dg" for l
    using unique_onD [OF u that(1) j(1)] that(2) jk(2) by simp
  then have only: "(\<exists>l \<in> set (db_api_keys (sv_db sv2)). k_Digest l = dg \<and> k_RevokedAt l = zero_time \<and> k_Scope l \<in> S)
      \<longleftrightarrow> is_zero (k_RevokedAt j) \<and> k_Scope ?k \<in> S" for S
    using j(1) jk(2,3) by (metis is_zero_def)
  have "fst (verifyAPIKeyScope lib env2 key scopes sv2) \<longleftrightarrow>
      is_zero (k_RevokedAt j) \<and> k_Scope ?k \<in> set scopes \<or> ''admin'' \<in> set scopes \<and> dg = sv_adminDigest sv" for env2 scopes
    unfolding verify_iff [OF assms(5) u] key_grants_def same d(3) only [symmetric] by auto
  moreover have "k_PlaintextKey j = ''''" using m(2) j(1) by (simp add: db_ok_def)
  ultimately show ?thesis
    using d(1,4,7) j(1) jk(1) by (intro exI [of _ req] exI [of _ "wire_api_key ?k"])
      (auto simp: wire_api_key_def d(3) issued_key_def)
qed

definition key_request :: request where
  "key_request = (demo_request ''POST'' [''api'', ''v1'', ''api-keys''])\<lparr>q_body :=
     empty_body\<lparr>jb_key := Some \<lparr>kcr_Name = ''n'', kcr_Scope = ''relay''\<rparr>\<rparr>\<rparr>"

theorem issued_key_works_witness:
  "\<exists>k. rs_body (fst (finish (handleAPIKeyCreate demo_lib demo_env key_request) demo_server)) = PKey k
     \<and> (\<forall>env2. fst (verifyAPIKeyScope demo_lib env2 (k_PlaintextKey k) [''admin'']
            (snd (finish (handleAPIKeyCreate demo_lib demo_env key_request) demo_server))) = False)"
proof -
  obtain resp sv' where f: "finish (handleAPIKeyCreate demo_lib demo_env key_request) demo_server = (resp, sv')" by fastforce
  have s: "db_api_keys (sv_db demo_server) = []" "db_faults (sv_db demo_server) = []"
    by (simp_all add: demo_server_def demo_db_def empty_db_def)
  have "rs_status resp = 201 \<and> db_faults (sv_db sv') = [] \<and>
      (\<forall>k. rs_body resp = PKey k \<longrightarrow> k_Scope k = ''relay'' \<and> k_PlaintextKey k = ''lb_AQID'')"
    using f by (auto simp: handleAPIKeyCreate_def then_act_def decode_or_def return_act_def reject_if_def finish_def
        hash_act_run call_store_run call_store_def try_store_def or_else_def decodeJSON_def key_request_def demo_request_def
        empty_body_def Let_def space_free_root demo_live_env(2) demo_token_hash CreateAPIKey_def insert_into_def
        exec_stmt_def s tbl_insert_def wire_api_key_def writeJSON_def)
  then have r: "rs_status resp = 201" "db_faults (sv_db sv') = []"
    "\<And>k. rs_body resp = PKey k \<Longrightarrow> k_Scope k = ''relay'' \<and> k_PlaintextKey k = ''lb_AQID''" by auto
  have ok: "db_ok (sv_db demo_server)" using demo_db_ok by (simp add: demo_server_def)
  from issued_key_works [OF ok f r(1) served.none r(2)] r(3) obtain k where "rs_body resp = PKey k"
    "k_Scope k = ''relay''" "k_PlaintextKey k = ''lb_AQID''"
    "\<forall>env2. fst (verifyAPIKeyScope demo_lib env2 (k_PlaintextKey k) [''admin''] sv') \<longleftrightarrow>
       HashAPIKey (l_mac demo_lib) (k_PlaintextKey k) (pepper demo_server) = Inr (sv_adminDigest demo_server)"
    by fastforce
  then show ?thesis by (simp add: f demo_token_hash) (simp add: demo_server_def)
qed

section \<open>Invitations\<close>

lemma check_invitation_decoded:
  assumes "check_invitation q sv = (Inr (req, dur), sv')"
  obtains req0 where "decodeJSON jb_invitation q = Some req0"
    "req = (if trim_space (icr_GroupID req0) = '''' then req0\<lparr>icr_GroupID := ''default''\<rparr> else req0)"
  using assms unfolding check_invitation_def Let_def
  by (elim then_act_InrE) (auto dest!: act_InrD simp del: One_nat_def)

definition issued_invitation :: "env \<Rightarrow> invitation_create_request \<Rightarrow> int \<Rightarrow> string \<Rightarrow> string \<Rightarrow> invitation" where
  "issued_invitation env req dur th token =
     \<lparr>i_ID = e_uuid env 0, i_TokenHash = th, i_UserID = trim_space (icr_UserID req),
      i_GroupID = trim_space (icr_GroupID req), i_Reusable = icr_Reusable req,
      i_ExpiresAt = time_add (e_now env 1) dur, i_UsedAt = zero_time, i_CreatedAt = e_now env 1,
      i_PlaintextToken = token\<rparr>"

lemma invitation_created:
  assumes "finish (handleInvitationCreate lib env q) sv = (resp, sv')" and "rs_status resp = 201"
  obtains req dur sv1 token th where "check_invitation q sv = (Inr (req, dur), sv1)" "NewAPIKey (e_rand env) = Some token"
    "HashAPIKey (l_mac lib) token (pepper sv1) = Inr th"
    "CreateInvitation (issued_invitation env req dur th token) (sv_db sv1) = (Inr (), sv_db sv')"
    "sv' = sv1\<lparr>sv_db := sv_db sv'\<rparr>" "rs_body resp = PInvitation (wire_invitation (issued_invitation env req dur th token))"
proof -
  obtain x where h: "handleInvitationCreate lib env q sv = (x, sv')" and resp: "resp = (case x of Inl r \<Rightarrow> r | Inr r \<Rightarrow> r)"
    by (rule finish_cases [OF assms(1)])
  obtain r where x: "x = Inr r"
  proof (cases x)
    case (Inl r)
    with h have "rs_status r \<noteq> 201"
      by (auto simp: handleInvitationCreate_def check_invitation_def issue_invitation_def run_defs hash_act_run Let_def
          writeError_def writeJSON_def split: if_splits sum.splits prod.splits option.splits)
    with Inl assms(2) resp show ?thesis by simp
  qed
  obtain req dur sv1 where c: "check_invitation q sv = (Inr (req, dur), sv1)"
    and i: "issue_invitation lib env req dur sv1 = (Inr r, sv')"
    using h unfolding x handleInvitationCreate_def by (elim then_act_InrE) (auto split: prod.splits)
  obtain token where t: "NewAPIKey (e_rand env) = Some token"
    using i by (cases "NewAPIKey (e_rand env)") (auto simp: issue_invitation_def respond_def)
  show thesis
    using i unfolding issue_invitation_def Let_def t option.case
    by (elim then_act_InrE) (auto dest!: act_InrD intro!: that [OF c t] simp: issued_invitation_def resp x simp del: One_nat_def)
qed

lemma expires_in_seconds: "expires_in w = mul_seconds (sint w)"
  by (simp add: expires_in_def mul_seconds_def)

lemma expires_in_exact:
  assumes "- 9223372036 \<le> sint w" and "sint w \<le> 9223372036"
  shows "expires_in w = sint w * duration_second"
  using assms by (simp add: expires_in_seconds mul_seconds_eq)

text \<open>The accounts, the term and the secret of a stored invitation, as the request asked for them.\<close>

definition invites :: "lib \<Rightarrow> env \<Rightarrow> server \<Rightarrow> invitation_create_request \<Rightarrow> invitation \<Rightarrow> bool" where
  "invites lib env sv req i \<longleftrightarrow>
     has_user (sv_db sv) (i_UserID i) \<and> i_UserID i = trim_space (icr_UserID req)
     \<and> has_group (sv_db sv) (i_GroupID i)
     \<and> i_GroupID i = (if trim_space (icr_GroupID req) = '''' then ''default'' else trim_space (icr_GroupID req))
     \<and> i_Reusable i = icr_Reusable req \<and> i_UsedAt i = zero_time
     \<and> HashAPIKey (l_mac lib) (i_PlaintextToken i) (pepper sv) = Inr (i_TokenHash i)"

text \<open>
  C35: An invitation is issued on stored accounts and for the term asked for: it names an existing
  user and group (the default one when none was given), its secret is in the answer and only its
  digest in the new row, and it expires after more than nothing and at most 30 days: after a day
  when the seconds asked for are none, else after exactly those seconds, if they are no more than
  the duration type holds (beyond that the product wraps, and an absurd term can be accepted as a
  short one). From then on a registration with its secret opens it exactly until it expires.
\<close>

theorem invitation_terms:
  assumes "finish (handleInvitationCreate lib env q) sv = (resp, sv')" and "rs_status resp = 201"
  shows "\<exists>req i term. decodeJSON jb_invitation q = Some req \<and> rs_body resp = PInvitation (wire_invitation i)
       \<and> invites lib env sv req i
       \<and> db_invitations (sv_db sv') = db_invitations (sv_db sv) @ [i\<lparr>i_PlaintextToken := ''''\<rparr>]
       \<and> i_ExpiresAt i = time_add (e_now env 1) term \<and> 0 < term \<and> term \<le> 30 * 24 * hour
       \<and> (\<bar>sint (icr_ExpiresInSeconds req)\<bar> \<le> 9223372036 \<longrightarrow>
            term = (if sint (icr_ExpiresInSeconds req) \<le> 0 then 24 * hour
                    else sint (icr_ExpiresInSeconds req) * duration_second))
       \<and> (\<forall>now reg. drr_EnrollmentKey reg = i_PlaintextToken i \<longrightarrow>
            opens lib sv' now reg (i\<lparr>i_PlaintextToken := ''''\<rparr>) = (now \<le> i_ExpiresAt i))"
proof -
  obtain req dur sv1 token th where c: "check_invitation q sv = (Inr (req, dur), sv1)"
    and t: "HashAPIKey (l_mac lib) token (pepper sv1) = Inr th"
    and i: "CreateInvitation (issued_invitation env req dur th token) (sv_db sv1) = (Inr (), sv_db sv')"
    and sv': "sv' = sv1\<lparr>sv_db := sv_db sv'\<rparr>"
    and r: "rs_body resp = PInvitation (wire_invitation (issued_invitation env req dur th token))"
    by (rule invitation_created [OF assms])
  note C = check_invitation_InrD [OF c]
  obtain req0 where req0: "decodeJSON jb_invitation q = Some req0"
    "req = (if trim_space (icr_GroupID req0) = '''' then req0\<lparr>icr_GroupID := ''default''\<rparr> else req0)"
    by (rule check_invitation_decoded [OF c])
  let ?i = "issued_invitation env req dur th token"
  have dft: "trim_space ''default'' = ''default''"
    by (rule trim_space_id) (simp add: space_free_def space_encodings_def)
  have pep: "pepper sv1 = pepper sv" "pepper sv' = pepper sv"
    using arg_cong [OF C(6), of pepper] arg_cong [OF sv', of pepper] by (simp_all add: pepper_def)
  have has: "has_user (sv_db sv) (trim_space (icr_UserID req))" "has_group (sv_db sv) (trim_space (icr_GroupID req))"
    using C(2,3) same_tablesD [OF C(1)] by simp_all
  have rows: "db_invitations (sv_db sv') = db_invitations (sv_db sv) @ [?i\<lparr>i_PlaintextToken := ''''\<rparr>]"
    using invitations.ins_ok [OF i] same_tablesD [OF C(1)] by simp
  have inv: "invites lib env sv req0 ?i"
    using has t pep(1) by (auto simp: invites_def issued_invitation_def req0(2) dft split: if_splits)
  have sec: "icr_ExpiresInSeconds req0 = icr_ExpiresInSeconds req" by (simp add: req0(2))
  have dur: "0 < dur" "dur \<le> 30 * 24 * hour" using C(4,5) by (auto split: if_splits)
  have exact: "dur = (if sint (icr_ExpiresInSeconds req) \<le> 0 then 24 * hour
      else sint (icr_ExpiresInSeconds req) * duration_second)" if "\<bar>sint (icr_ExpiresInSeconds req)\<bar> \<le> 9223372036"
    using C(4) that expires_in_exact [of "icr_ExpiresInSeconds req"] by (auto split: if_splits)
  have "opens lib sv' now reg (?i\<lparr>i_PlaintextToken := ''''\<rparr>) = (now \<le> i_ExpiresAt ?i)"
    if "drr_EnrollmentKey reg = token" for now reg
    using rows t pep by (simp add: opens_def that issued_invitation_def time_after_def)
      (auto simp: less_eq_gotime_def not_less)
  then show ?thesis
    using req0(1) r inv rows dur exact sec
    by (intro exI [of _ req0] exI [of _ ?i] exI [of _ dur]) (simp add: issued_invitation_def)
qed

text \<open>A request for more than 584 years, whose nanoseconds wrap to less than a second.\<close>

definition endless_request :: request where
  "endless_request = (demo_request ''POST'' [''api'', ''v1'', ''invitations''])\<lparr>q_body := empty_body\<lparr>jb_invitation :=
     Some \<lparr>icr_UserID = ''default-user'', icr_GroupID = '''', icr_Reusable = True, icr_ExpiresInSeconds = 18446744074\<rparr>\<rparr>\<rparr>"

lemma endless_checked:
  "\<exists>req. check_invitation endless_request demo_server = (Inr (req, 290448384), demo_server)
     \<and> icr_UserID req = ''default-user'' \<and> icr_GroupID req = ''default'' \<and> icr_Reusable req"
proof -
  have s: "db_users (sv_db demo_server) = [default_user (GoTime (Suc 0))]"
    "db_groups (sv_db demo_server) = [default_group (GoTime (Suc 0))]" "db_faults (sv_db demo_server) = []"
    by (simp_all add: demo_server_def demo_db_def empty_db_def)
  have t: "trim_space ''default'' = ''default''" "trim_space ''default-user'' = ''default-user''" "trim_space '''' = ''''"
    by (rule trim_space_id, simp add: space_free_def space_encodings_def)+
  have e: "expires_in 18446744074 = 290448384" by (simp add: expires_in_def)
  show ?thesis
    by (auto simp: check_invitation_def run_defs decodeJSON_def endless_request_def demo_request_def empty_body_def
        Let_def t s e GetUser_def GetGroup_def query_row_def exec_stmt_def default_user_def default_group_def)
qed

theorem invitation_terms_witness:
  "\<exists>resp sv' i. finish (handleInvitationCreate demo_lib demo_env endless_request) demo_server = (resp, sv')
     \<and> rs_body resp = PInvitation i \<and> icr_ExpiresInSeconds (the (decodeJSON jb_invitation endless_request)) = 18446744074
     \<and> i_ExpiresAt i = time_add (e_now demo_env 1) 290448384
     \<and> (\<exists>j \<in> set (db_invitations (sv_db sv')). i_ID j = i_ID i \<and> i_GroupID j = ''default'')"
proof -
  obtain req where c: "check_invitation endless_request demo_server = (Inr (req, 290448384), demo_server)"
    using endless_checked by blast
  obtain resp sv' where f: "finish (handleInvitationCreate demo_lib demo_env endless_request) demo_server = (resp, sv')" by fastforce
  have s: "db_invitations (sv_db demo_server) = []" "db_faults (sv_db demo_server) = []"
    by (simp_all add: demo_server_def demo_db_def empty_db_def)
  have "rs_status resp = 201 \<and> (\<forall>i. rs_body resp = PInvitation i \<longrightarrow> i_ExpiresAt i = time_add (e_now demo_env 1) 290448384)"
    using f by (auto simp: handleInvitationCreate_def then_act_def c issue_invitation_def finish_def return_act_def
        demo_live_env(2) hash_act_run demo_token_hash call_store_def try_store_def or_else_def Let_def
        CreateInvitation_def insert_into_def exec_stmt_def s tbl_insert_def wire_invitation_def writeJSON_def)
  then have r: "rs_status resp = 201" "\<And>i. rs_body resp = PInvitation i \<Longrightarrow> i_ExpiresAt i = time_add (e_now demo_env 1) 290448384"
    by auto
  have q: "decodeJSON jb_invitation endless_request = Some \<lparr>icr_UserID = ''default-user'', icr_GroupID = '''',
      icr_Reusable = True, icr_ExpiresInSeconds = 18446744074\<rparr>"
    by (simp add: decodeJSON_def endless_request_def demo_request_def empty_body_def)
  have t: "trim_space '''' = ''''" by (rule trim_space_id) (simp add: space_free_def space_encodings_def)
  from invitation_terms [OF f r(1)] q obtain i where i: "rs_body resp = PInvitation (wire_invitation i)"
    "i_GroupID i = ''default''" "i\<lparr>i_PlaintextToken := ''''\<rparr> \<in> set (db_invitations (sv_db sv'))"
    by (auto simp: invites_def t)
  have "i_ExpiresAt (wire_invitation i) = time_add (e_now demo_env 1) 290448384" using r(2) i(1) by blast
  moreover have "\<exists>j \<in> set (db_invitations (sv_db sv')). i_ID j = i_ID (wire_invitation i) \<and> i_GroupID j = ''default''"
    using i(2,3) by (intro bexI [OF _ i(3)]) (simp add: wire_invitation_def)
  ultimately show ?thesis
    using f q i(1) by (intro exI [of _ resp] exI [of _ sv'] exI [of _ "wire_invitation i"]) simp
qed

end
