(* ===== verification/Relay_Life.thy ===== *)
theory Relay_Life
  imports End_To_End Management
begin

text \<open>
  The relay node and the controller together: what the requests of a node's run do to the relay
  table. The node never looks at an answer after its registration, so a relay whose row was
  deleted keeps sending heartbeats that are answered 404 and never registers again.
\<close>

section \<open>A heartbeat at the controller\<close>

definition relay_request :: "relay_process \<Rightarrow> string list \<Rightarrow> relay_node \<Rightarrow> request" where
  "relay_request n path payload =
     \<lparr>q_method = ''POST'', q_path = path, q_clean = True, q_apiKey = rc_APIKey (rp_cfg n), q_deviceToken = '''',
      q_deviceIDHeader = '''', q_deviceIDQuery = '''', q_sourceQuery = '''', q_wait = '''',
      q_body = wire_body (RelayBody payload)\<rparr>"

lemma node_requests_reach:
  "to_controller (rc_ControllerURL (rp_cfg n)) (node_heartbeat n) =
     Some (relay_request n [''api'', ''v1'', ''relays'', ''heartbeat''] (heartbeat_payload n))"
  "to_controller (rc_ControllerURL (rp_cfg n)) (node_register n) =
     Some (relay_request n [''api'', ''v1'', ''relays'', ''register''] (registration_payload n))"
proof -
  let ?hs = "[(''Content-Type'', ''application/json''), (''X-Linkbit-API-Key'', rc_APIKey (rp_cfg n)),
        (''X-Linkbit-Relay-ID'', rc_RelayID (rp_cfg n))]"
  have "read_request ''POST'' (join_path [''api'', ''v1'', ''relays'', last]) ?hs (wire_body (RelayBody p)) =
      Some (relay_request n [''api'', ''v1'', ''relays'', last] p)" if "last \<in> {''heartbeat'', ''register''}" for last p
    using that by (subst read_request_path(1)) (auto simp: unescape_all_def header_def relay_request_def)
  from this [of "''heartbeat''" "heartbeat_payload n"] this [of "''register''" "registration_payload n"]
  show "to_controller (rc_ControllerURL (rp_cfg n)) (node_heartbeat n) =
     Some (relay_request n [''api'', ''v1'', ''relays'', ''heartbeat''] (heartbeat_payload n))"
    "to_controller (rc_ControllerURL (rp_cfg n)) (node_register n) =
     Some (relay_request n [''api'', ''v1'', ''relays'', ''register''] (registration_payload n))"
    by (simp_all add: to_controller_def node_heartbeat_def node_register_def node_request_def)
qed

lemma heartbeat_routed:
  "find_route (relay_request n [''api'', ''v1'', ''relays'', ''heartbeat''] p)
     = Some (mk_route ''POST'' (api [Lit ''relays'', Lit ''heartbeat'']) admin_or_relay RelayHeartbeat, '''')"
  by (simp add: find_route_def routes_def mk_route_def method_matches_def relay_request_def)

text \<open>A store that works and a key that opens the relay routes.\<close>

definition relay_ready :: "lib \<Rightarrow> string \<Rightarrow> server \<Rightarrow> bool" where
  "relay_ready lib key sv \<longleftrightarrow>
     db_faults (sv_db sv) = [] \<and> unique_on k_Digest (db_api_keys (sv_db sv)) \<and> key_grants lib sv key [''admin'', ''relay'']"

lemma verify_ready:
  assumes "relay_ready lib key sv"
  obtains sv1 where "verifyAPIKeyScope lib env key [''admin'', ''relay''] sv = (True, sv1)"
    "db_relays (sv_db sv1) = db_relays (sv_db sv)" "relay_ready lib key sv1"
proof -
  obtain ok sv1 where v: "verifyAPIKeyScope lib env key [''admin'', ''relay''] sv = (ok, sv1)" by fastforce
  then have ok: "ok" using verify_iff [of sv lib env key "[''admin'', ''relay'']"] assms by (simp add: relay_ready_def)
  from v show thesis
  proof (cases rule: verifyAPIKeyScope_cases)
    case bootstrap
    with v ok assms that show ?thesis by simp
  next
    case refused
    with ok show ?thesis by simp
  next
    case (stored digest k d u)
    let ?f = "\<lambda>x. if k_ID x = k_ID k then x\<lparr>k_LastUsedAt := e_now env 0\<rparr> else x"
    from stored(5) assms have d: "db_relays d = db_relays (sv_db sv)"
      "db_api_keys d = db_api_keys (sv_db sv)" by (simp_all add: same_tablesD)
    have f: "db_faults d = []"
      using stored(3) assms by (simp add: relay_ready_def GetAPIKeyByDigest_def query_row_def exec_stmt_def)
    then have s1: "sv_db sv1 = d\<lparr>db_api_keys := map ?f (db_api_keys d)\<rparr>"
      using stored(6) by (simp add: TouchAPIKey_def exec_quiet_def exec_stmt_def tbl_update_def)
    have same: "pepper sv1 = pepper sv" "sv_adminDigest sv1 = sv_adminDigest sv"
      using arg_cong [OF stored(7), of pepper] arg_cong [OF stored(7), of sv_adminDigest] by (simp_all add: pepper_def)
    have f_simps: "k_Digest (?f x) = k_Digest x" "k_RevokedAt (?f x) = k_RevokedAt x" "k_Scope (?f x) = k_Scope x" for x
      by simp_all
    have keys: "db_api_keys (sv_db sv1) = map ?f (db_api_keys (sv_db sv))" by (simp add: s1 d)
    have "key_grants lib sv1 key [''admin'', ''relay''] = key_grants lib sv key [''admin'', ''relay'']"
      unfolding key_grants_def same keys set_map bex_simps(7) f_simps ..
    moreover have "map k_Digest (db_api_keys (sv_db sv1)) = map k_Digest (db_api_keys (sv_db sv))"
      unfolding keys map_map comp_def f_simps ..
    ultimately have "relay_ready lib key sv1"
      using assms f by (simp add: relay_ready_def unique_on_def s1)
    with that v ok show ?thesis by (simp add: s1 d)
  qed
qed

text \<open>What a heartbeat does to the row of its relay.\<close>

definition beaten :: "gotime \<Rightarrow> relay_node \<Rightarrow> relay_node" where
  "beaten now r = r\<lparr>r_Status := RelayStatusHealthy, r_Load := 0, r_LastSeenAt := now\<rparr>"

definition beat_relays :: "string \<Rightarrow> gotime \<Rightarrow> relay_node list \<Rightarrow> relay_node list" where
  "beat_relays rid now = tbl_update (\<lambda>r. r_ID r = rid) (beaten now)"

lemma beat_relays_IDs [simp]: "r_ID ` set (beat_relays rid now rows) = r_ID ` set rows"
proof -
  have "map r_ID (beat_relays rid now rows) = map r_ID rows"
    unfolding beat_relays_def by (rule map_tbl_update) (simp add: beaten_def)
  then show ?thesis by (metis list.set_map)
qed

lemma beat_relays_again [simp]: "beat_relays rid now' (beat_relays rid now rows) = beat_relays rid now' rows"
  by (simp add: beat_relays_def tbl_update_def beaten_def comp_def)

lemma beat_relays_absent: "rid \<notin> r_ID ` set rows \<Longrightarrow> beat_relays rid now rows = rows"
  by (auto simp: beat_relays_def tbl_update_def intro!: map_idI)

lemma heartbeat_handled:
  assumes "db_faults (sv_db sv) = []" and "rc_RelayID (rp_cfg n) \<noteq> ''''"
    and "finish (handleRelayHeartbeat env (relay_request n path (heartbeat_payload n))) sv = (resp, sv')"
  shows "rs_status resp = (if rc_RelayID (rp_cfg n) \<in> r_ID ` set (db_relays (sv_db sv)) then 200 else 404)"
    and "\<exists>rows. sv' = sv\<lparr>sv_db := (sv_db sv)\<lparr>db_relays := rows\<rparr>\<rparr> \<and> rows = beat_relays (rc_RelayID (rp_cfg n)) (e_now env 1) (db_relays (sv_db sv))"
    and "rs_body resp \<noteq> PNothing"
proof -
  let ?rid = "rc_RelayID (rp_cfg n)"
  let ?rows = "beat_relays ?rid (e_now env 1) (db_relays (sv_db sv))"
  have dec: "decodeJSON jb_relay (relay_request n path (heartbeat_payload n)) = Some (heartbeat_payload n)"
    by (simp add: decodeJSON_def relay_request_def wire_body_def empty_body_def)
  have p: "r_ID (heartbeat_payload n) = ?rid" "r_Load (heartbeat_payload n) = 0"
    by (simp_all add: heartbeat_payload_def empty_relay_def)
  have "find (\<lambda>r. r_ID r = ?rid) ?rows = None \<longleftrightarrow> ?rid \<notin> r_ID ` set ?rows"
    by (auto simp: find_None_iff image_iff simp del: beat_relays_IDs)
  then have f: "find (\<lambda>r. r_ID r = ?rid) ?rows = None \<longleftrightarrow> ?rid \<notin> r_ID ` set (db_relays (sv_db sv))" by simp
  have h: "HeartbeatRelay now ?rid 0 = then_stmt (exec_rows (\<lambda>s. tbl_count (\<lambda>r. r_ID r = ?rid) (db_relays s))
      (\<lambda>s. s\<lparr>db_relays := beat_relays ?rid now (db_relays s)\<rparr>)) (\<lambda>_. getRelay ?rid)" for now
    by (simp add: HeartbeatRelay_def beat_relays_def beaten_def [abs_def])
  have beat: "HeartbeatRelay (e_now env 1) ?rid 0 (sv_db sv) =
      (case find (\<lambda>r. r_ID r = ?rid) ?rows of None \<Rightarrow> Inl ErrNoRows | Some r \<Rightarrow> Inr r, (sv_db sv)\<lparr>db_relays := ?rows\<rparr>)"
  proof (cases "?rid \<in> r_ID ` set (db_relays (sv_db sv))")
    case True
    then have "tbl_count (\<lambda>r. r_ID r = ?rid) (db_relays (sv_db sv)) \<noteq> 0" by (auto simp: tbl_count_0_iff)
    with assms(1) show ?thesis
      by (simp add: h then_stmt_def exec_rows_def exec_stmt_def getRelay_def query_row_def del: One_nat_def)
  next
    case False
    then have "tbl_count (\<lambda>r. r_ID r = ?rid) (db_relays (sv_db sv)) = 0" by (force simp: tbl_count_0_iff)
    moreover have "find (\<lambda>r. r_ID r = ?rid) ?rows = None" using f False by simp
    ultimately show ?thesis using assms(1) by (simp add: h then_stmt_def exec_rows_def exec_stmt_def del: One_nat_def)
  qed
  have "rs_status resp = (if ?rid \<in> r_ID ` set (db_relays (sv_db sv)) then 200 else 404)
      \<and> sv' = sv\<lparr>sv_db := (sv_db sv)\<lparr>db_relays := ?rows\<rparr>\<rparr> \<and> rs_body resp \<noteq> PNothing"
    using assms(2,3) f beat
    by (cases "find (\<lambda>r. r_ID r = ?rid) ?rows")
      (auto simp: handleRelayHeartbeat_def run_defs dec p missing_or_def IsNotFound_def simp del: One_nat_def)
  then show "rs_status resp = (if ?rid \<in> r_ID ` set (db_relays (sv_db sv)) then 200 else 404)"
    "\<exists>rows. sv' = sv\<lparr>sv_db := (sv_db sv)\<lparr>db_relays := rows\<rparr>\<rparr> \<and> rows = ?rows" "rs_body resp \<noteq> PNothing" by auto
qed

lemma heartbeat_served:
  assumes "relay_ready lib (rc_APIKey (rp_cfg n)) sv" and "rc_RelayID (rp_cfg n) \<noteq> ''''"
  defines "url \<equiv> rc_ControllerURL (rp_cfg n)" and "rid \<equiv> rc_RelayID (rp_cfg n)"
  shows "\<exists>reply. controller lib env url sv (node_heartbeat n) = Some reply
      \<and> hp_status reply = (if rid \<in> r_ID ` set (db_relays (sv_db sv)) then 200 else 404)"
    and "db_relays (sv_db (after_request lib env url (node_heartbeat n) sv)) = beat_relays rid (e_now env 1) (db_relays (sv_db sv))"
    and "relay_ready lib (rc_APIKey (rp_cfg n)) (after_request lib env url (node_heartbeat n) sv)"
proof -
  let ?key = "rc_APIKey (rp_cfg n)"
  let ?q = "relay_request n [''api'', ''v1'', ''relays'', ''heartbeat''] (heartbeat_payload n)"
  obtain sv1 where v: "verifyAPIKeyScope lib env ?key [''admin'', ''relay''] sv = (True, sv1)"
    and r1: "db_relays (sv_db sv1) = db_relays (sv_db sv)" and rdy1: "relay_ready lib ?key sv1"
    by (rule verify_ready [OF assms(1)])
  obtain resp sv2 where h: "finish (handleRelayHeartbeat env ?q) sv1 = (resp, sv2)" by fastforce
  have nf: "db_faults (sv_db sv1) = []" using rdy1 by (simp add: relay_ready_def)
  note H = heartbeat_handled [OF nf assms(2) h, unfolded r1]
  have s: "serve lib env ?q sv = (securityHeaders resp, sv2)"
    using v h by (subst serve_guarded [OF heartbeat_routed])
      (simp_all add: mk_route_def public_endpoints_def needed_scopes_def relay_endpoints_def handler_of_def relay_request_def)
  note go = node_requests_reach(1) [of n, folded url_def]
  show "\<exists>reply. controller lib env url sv (node_heartbeat n) = Some reply
      \<and> hp_status reply = (if rid \<in> r_ID ` set (db_relays (sv_db sv)) then 200 else 404)"
    using H(1,3) by (simp add: controller_def go s wire_reply_def rid_def)
  from H(2) obtain rows where sv2: "sv2 = sv1\<lparr>sv_db := (sv_db sv1)\<lparr>db_relays := rows\<rparr>\<rparr>"
    and rows: "rows = beat_relays rid (e_now env 1) (db_relays (sv_db sv))" by (auto simp: rid_def)
  show "db_relays (sv_db (after_request lib env url (node_heartbeat n) sv)) = beat_relays rid (e_now env 1) (db_relays (sv_db sv))"
    by (simp add: after_request_def go s sv2 rows)
  show "relay_ready lib ?key (after_request lib env url (node_heartbeat n) sv)"
    using rdy1 by (simp add: after_request_def go s sv2 relay_ready_def key_grants_def pepper_def)
qed

text \<open>The controller after a list of requests, each with the surroundings it is handled in.\<close>

fun serve_calls :: "lib \<Rightarrow> string \<Rightarrow> (env \<times> http_request) list \<Rightarrow> server \<Rightarrow> server" where
  "serve_calls lib base [] sv = sv"
| "serve_calls lib base ((env, r) # calls) sv = serve_calls lib base calls (after_request lib env base r sv)"

lemma heartbeats_served:
  assumes "relay_ready lib (rc_APIKey (rp_cfg n)) sv" and "rc_RelayID (rp_cfg n) \<noteq> ''''"
  shows "db_relays (sv_db (serve_calls lib (rc_ControllerURL (rp_cfg n)) (zip envs (replicate (length envs) (node_heartbeat n))) sv)) =
    (if envs = [] then db_relays (sv_db sv)
     else beat_relays (rc_RelayID (rp_cfg n)) (e_now (last envs) 1) (db_relays (sv_db sv)))"
  using assms(1)
proof (induction envs arbitrary: sv)
  case (Cons env envs)
  note H = heartbeat_served [OF Cons.prems assms(2), of env]
  show ?case using Cons.IH [OF H(3)] by (simp add: H(2))
qed simp

text \<open>
  C36: A relay registers once and its heartbeats only refresh: the requests of a node's run are its
  registration and then identical heartbeats, one for each tick, and after the controller served
  these heartbeats (with a key that opens the relay routes and a working store) the relay table
  differs only in the relay's own row, which is healthy, has load 0 and was last seen at the last
  of them. When the row is not there, because an operator deleted it, each heartbeat is answered
  404, the table stays as it is, and the node does not register again.
\<close>

theorem relay_life:
  assumes "NewNode cfg derp = Some n" and "relay_ready lib (rc_APIKey cfg) sv"
    and "beats = tl (fst (node_run send events n))" and "length envs = length beats"
    and "sv' = serve_calls lib (rc_ControllerURL cfg) (zip envs beats) sv"
  shows "beats = (if post send (node_register n) = None \<and> 0 < rc_Heartbeat cfg
              then replicate (ticks_taken derp events) (node_heartbeat n) else [])
       \<and> fst (node_run send events n) = node_register n # beats
       \<and> db_relays (sv_db sv') = (if envs = [] then db_relays (sv_db sv)
            else beat_relays (rc_RelayID cfg) (e_now (last envs) 1) (db_relays (sv_db sv)))
       \<and> (rc_RelayID cfg \<notin> r_ID ` set (db_relays (sv_db sv)) \<longrightarrow>
            db_relays (sv_db sv') = db_relays (sv_db sv)
            \<and> (\<forall>env. \<forall>r \<in> set beats. \<exists>reply. controller lib env (rc_ControllerURL cfg) sv r = Some reply \<and> hp_status reply = 404))"
proof -
  have n: "rp_cfg n = cfg" "rc_RelayID cfg \<noteq> ''''" using assms(1) by (auto simp: NewNode_def split: if_splits)
  note sent = node_requests_sent [OF assms(1), THEN conjunct1, of send events]
  have beats: "beats = (if post send (node_register n) = None \<and> 0 < rc_Heartbeat cfg
      then replicate (ticks_taken derp events) (node_heartbeat n) else [])"
    by (simp add: assms(3) sent)
  then have rep: "beats = replicate (length envs) (node_heartbeat n)" using assms(4) by (auto split: if_splits)
  have rows: "db_relays (sv_db sv') = (if envs = [] then db_relays (sv_db sv)
      else beat_relays (rc_RelayID cfg) (e_now (last envs) 1) (db_relays (sv_db sv)))"
    using heartbeats_served [of lib n sv envs] assms(2) n by (simp add: assms(5) rep)
  moreover have "\<exists>reply. controller lib env (rc_ControllerURL cfg) sv r = Some reply \<and> hp_status reply = 404"
    if "rc_RelayID cfg \<notin> r_ID ` set (db_relays (sv_db sv))" "r \<in> set beats" for env r
  proof -
    have "r = node_heartbeat n" using that(2) rep by (auto split: if_splits)
    with heartbeat_served(1) [of lib n sv env] assms(2) n that(1) show ?thesis by simp
  qed
  ultimately show ?thesis using beats sent beat_relays_absent by auto
qed

lemma relay_ready_demo: "relay_ready demo_lib ''k'' (keyed_server relay_key)"
  by (simp add: relay_ready_def key_grants_def demo_hash unique_on_def)
    (simp add: keyed_server_def demo_db_def empty_db_def relay_key_def)

theorem relay_life_witness:
  "hp_status (the (controller demo_lib demo_env ''http://c'' (keyed_server relay_key) (node_heartbeat demo_node))) = 404
     \<and> fst (node_run (\<lambda>r. Some \<lparr>hp_status = 201, hp_device = None, hp_config = None, hp_registration = None,
         hp_session = None, hp_sessions = None\<rparr>) [Tick (\<lambda>r. None), Tick (\<lambda>r. None), DerpStopped None] demo_node)
       = [node_register demo_node, node_heartbeat demo_node, node_heartbeat demo_node]"
proof -
  let ?send = "\<lambda>r. Some \<lparr>hp_status = 201, hp_device = None, hp_config = None, hp_registration = None,
         hp_session = None, hp_sessions = None\<rparr> :: http_reply option"
  let ?events = "[Tick (\<lambda>r. None), Tick (\<lambda>r. None), DerpStopped None]"
  have s: "fst (node_run ?send ?events demo_node) = [node_register demo_node, node_heartbeat demo_node, node_heartbeat demo_node]"
    by (simp add: node_run_def post_def demo_node_def demo_relay_config_def)
  have k: "rc_APIKey demo_relay_config = ''k''" "rc_ControllerURL demo_relay_config = ''http://c''"
    by (simp_all add: demo_relay_config_def)
  have "db_relays (sv_db (keyed_server relay_key)) = []"
    by (simp add: keyed_server_def demo_db_def empty_db_def)
  moreover have "length [demo_env, demo_env] = length (tl (fst (node_run ?send ?events demo_node)))" by (simp add: s)
  ultimately have "\<forall>env. \<forall>r \<in> set (tl (fst (node_run ?send ?events demo_node))).
      \<exists>reply. controller demo_lib env ''http://c'' (keyed_server relay_key) r = Some reply \<and> hp_status reply = 404"
    using relay_life [OF demo_node _ refl _ refl, of demo_lib "keyed_server relay_key" "[demo_env, demo_env]" ?send ?events]
      relay_ready_demo k by simp
  then obtain reply where "controller demo_lib demo_env ''http://c'' (keyed_server relay_key) (node_heartbeat demo_node) = Some reply"
    "hp_status reply = 404" unfolding s by fastforce
  with s show ?thesis by simp
qed

end
