(* ===== verification/Relay_Proxy.thy ===== *)
theory Relay_Proxy
  imports Linkbit_Prelude "HOL-Library.Sublist"
begin

text \<open>
  \<open>proxyConns\<close> of internal/agent/tcp_relay.go and \<open>proxyTCPRelay\<close> of
  internal/controller/tcp_relay.go: two goroutines that copy bytes between two connections, each of
  which, when its copy ends, closes both connections through a shared \<open>sync.Once\<close>. The two
  functions differ only in which of the goroutines is the caller's own. A step is one operation of
  a goroutine, or of the outside world: the peers send, read and close, and a connection may fail.
  A write waits while its peer does not read: each connection has room for some bytes, which
  writes use up and the peer's reads give back.
\<close>

section \<open>State\<close>

datatype side = SideA | SideB

fun other :: "side \<Rightarrow> side" where
  "other SideA = SideB"
| "other SideB = SideA"

text \<open>
  The copier of a side reads from that side's connection. \<open>CopyEnded\<close> is before the call of
  \<open>once.Do\<close>, \<open>CopierDone\<close> after it.
\<close>

datatype copier = Reading | Writing string | CopyEnded | CopierDone

text \<open>\<open>once.Do(closeBoth)\<close>: not called, between the two closes, or complete.\<close>

datatype once = Unused | ClosedOne side | Complete

record proxy =
  px_sent :: "side \<Rightarrow> string"
  px_unread :: "side \<Rightarrow> string"
  px_fin :: "side \<Rightarrow> bool"
  px_open :: "side \<Rightarrow> bool"
  px_copier :: "side \<Rightarrow> copier"
  px_delivered :: "side \<Rightarrow> string"
  px_room :: "side \<Rightarrow> nat"
  px_once :: once

definition proxyConns :: "(side \<Rightarrow> nat) \<Rightarrow> proxy" where
  "proxyConns room = \<lparr>px_sent = (\<lambda>s. ''''), px_unread = (\<lambda>s. ''''), px_fin = (\<lambda>s. False), px_open = (\<lambda>s. True),
     px_copier = (\<lambda>s. Reading), px_delivered = (\<lambda>s. ''''), px_room = room, px_once = Unused\<rparr>"

text \<open>The controller's starts from the same state; it returns at once, the agent's with its own copy.\<close>

definition proxyTCPRelay :: "(side \<Rightarrow> nat) \<Rightarrow> proxy" where "proxyTCPRelay room = proxyConns room"

definition proxyConns_returned :: "proxy \<Rightarrow> bool" where
  "proxyConns_returned p \<longleftrightarrow> px_copier p SideA = CopierDone"

section \<open>Steps\<close>

text \<open>
  What the goroutines do, each labelled with the side it reads from. A write passes on as much as
  there is room for, and goes on with the rest; it ends when all of its bytes are passed on.
\<close>

inductive copy_step :: "side \<Rightarrow> proxy \<Rightarrow> proxy \<Rightarrow> bool" where
  read_some: "px_copier p s = Reading \<Longrightarrow> px_open p s \<Longrightarrow> px_unread p s = chunk @ rest \<Longrightarrow> chunk \<noteq> '''' \<Longrightarrow>
    copy_step s p (p\<lparr>px_unread := (px_unread p)(s := rest), px_copier := (px_copier p)(s := Writing chunk)\<rparr>)"
| read_eof: "px_copier p s = Reading \<Longrightarrow> px_open p s \<Longrightarrow> px_unread p s = '''' \<Longrightarrow> px_fin p s \<Longrightarrow>
    copy_step s p (p\<lparr>px_copier := (px_copier p)(s := CopyEnded)\<rparr>)"
| read_closed: "px_copier p s = Reading \<Longrightarrow> \<not> px_open p s \<Longrightarrow>
    copy_step s p (p\<lparr>px_copier := (px_copier p)(s := CopyEnded)\<rparr>)"
| write_some: "px_copier p s = Writing (chunk @ rest) \<Longrightarrow> px_open p (other s) \<Longrightarrow> chunk \<noteq> '''' \<Longrightarrow>
    px_room p (other s) = length chunk + room \<Longrightarrow>
    copy_step s p (p\<lparr>px_delivered := (px_delivered p)(other s := px_delivered p (other s) @ chunk),
      px_room := (px_room p)(other s := room),
      px_copier := (px_copier p)(s := if rest = '''' then Reading else Writing rest)\<rparr>)"
| write_closed: "px_copier p s = Writing chunk \<Longrightarrow> \<not> px_open p (other s) \<Longrightarrow>
    copy_step s p (p\<lparr>px_copier := (px_copier p)(s := CopyEnded)\<rparr>)"
| close_a: "px_copier p s = CopyEnded \<Longrightarrow> px_once p = Unused \<Longrightarrow>
    copy_step s p (p\<lparr>px_open := (px_open p)(SideA := False), px_once := ClosedOne s\<rparr>)"
| close_b: "px_copier p s = CopyEnded \<Longrightarrow> px_once p = ClosedOne s \<Longrightarrow>
    copy_step s p (p\<lparr>px_open := (px_open p)(SideB := False), px_once := Complete,
      px_copier := (px_copier p)(s := CopierDone)\<rparr>)"
| once_returns: "px_copier p s = CopyEnded \<Longrightarrow> px_once p = Complete \<Longrightarrow>
    copy_step s p (p\<lparr>px_copier := (px_copier p)(s := CopierDone)\<rparr>)"

text \<open>What the peers and the network do; a write that fails may have passed on a part before.\<close>

inductive peer_step :: "proxy \<Rightarrow> proxy \<Rightarrow> bool" where
  sends: "\<not> px_fin p s \<Longrightarrow>
    peer_step p (p\<lparr>px_sent := (px_sent p)(s := px_sent p s @ bytes), px_unread := (px_unread p)(s := px_unread p s @ bytes)\<rparr>)"
| takes: "peer_step p (p\<lparr>px_room := (px_room p)(s := px_room p s + n)\<rparr>)"
| ends: "peer_step p (p\<lparr>px_fin := (px_fin p)(s := True)\<rparr>)"
| read_fails: "px_copier p s = Reading \<Longrightarrow> peer_step p (p\<lparr>px_copier := (px_copier p)(s := CopyEnded)\<rparr>)"
| write_fails: "px_copier p s = Writing chunk \<Longrightarrow> peer_step p (p\<lparr>px_copier := (px_copier p)(s := CopyEnded)\<rparr>)"

inductive proxied :: "proxy \<Rightarrow> bool" where
  start: "proxied (proxyConns room)"
| copy: "proxied p \<Longrightarrow> copy_step s p p' \<Longrightarrow> proxied p'"
| peer: "proxied p \<Longrightarrow> peer_step p p' \<Longrightarrow> proxied p'"

text \<open>A schedule: which goroutine takes the next step, or the outside world.\<close>

inductive interleaved :: "proxy \<Rightarrow> side option list \<Rightarrow> proxy \<Rightarrow> bool" where
  none: "interleaved p [] p"
| own: "copy_step s p p' \<Longrightarrow> interleaved p' ls q \<Longrightarrow> interleaved p (Some s # ls) q"
| outside: "peer_step p p' \<Longrightarrow> interleaved p' ls q \<Longrightarrow> interleaved p (None # ls) q"

section \<open>The invariant\<close>

fun in_flight :: "copier \<Rightarrow> string" where
  "in_flight (Writing chunk) = chunk"
| "in_flight _ = ''''"

text \<open>
  A copying goroutine holds exactly the bytes between what was delivered and what is unread; the
  connections are closed as far as the once went, and only a goroutine whose copy ended runs it.
\<close>

definition side_ok :: "proxy \<Rightarrow> side \<Rightarrow> bool" where
  "side_ok p s \<longleftrightarrow>
     (case px_copier p s of
        Reading \<Rightarrow> px_sent p s = px_delivered p (other s) @ px_unread p s
      | Writing chunk \<Rightarrow> chunk \<noteq> '''' \<and> px_sent p s = px_delivered p (other s) @ chunk @ px_unread p s
      | CopyEnded \<Rightarrow> prefix (px_delivered p (other s)) (px_sent p s)
      | CopierDone \<Rightarrow> prefix (px_delivered p (other s)) (px_sent p s) \<and> px_once p = Complete)"

definition once_ok :: "proxy \<Rightarrow> bool" where
  "once_ok p \<longleftrightarrow>
     (case px_once p of
        Unused \<Rightarrow> px_open p SideA \<and> px_open p SideB
      | ClosedOne s \<Rightarrow> \<not> px_open p SideA \<and> px_open p SideB \<and> px_copier p s = CopyEnded
      | Complete \<Rightarrow> \<not> px_open p SideA \<and> \<not> px_open p SideB)"

definition proxy_ok :: "proxy \<Rightarrow> bool" where
  "proxy_ok p \<longleftrightarrow> (\<forall>s. side_ok p s) \<and> once_ok p"

lemma other_simps [simp]: "other (other s) = s" "other s \<noteq> s" "s \<noteq> other s" "other s = other t \<longleftrightarrow> s = t"
  by (cases s; cases t; simp)+

lemma side_ok_prefix: "side_ok p s \<Longrightarrow> prefix (px_delivered p (other s)) (px_sent p s)"
  by (auto simp: side_ok_def split: copier.splits)

lemma proxy_ok_copy: "copy_step s p p' \<Longrightarrow> proxy_ok p \<Longrightarrow> proxy_ok p'"
  by (erule copy_step.cases)
    (auto simp: proxy_ok_def side_ok_def once_ok_def split: copier.splits once.splits if_splits dest: spec)

lemma proxy_ok_peer: "peer_step p p' \<Longrightarrow> proxy_ok p \<Longrightarrow> proxy_ok p'"
  by (erule peer_step.cases)
    (auto simp: proxy_ok_def side_ok_def once_ok_def split: copier.splits once.splits if_splits dest: spec)

lemma proxied_ok: "proxied p \<Longrightarrow> proxy_ok p"
proof (induction rule: proxied.induct)
  case start
  show ?case by (simp add: proxy_ok_def side_ok_def once_ok_def proxyConns_def)
qed (blast intro: proxy_ok_copy proxy_ok_peer)+

lemma returned_closed: "proxied p \<Longrightarrow> proxyConns_returned p \<Longrightarrow> \<not> px_open p s"
  by (cases s) (auto dest!: proxied_ok simp: proxy_ok_def side_ok_def once_ok_def proxyConns_returned_def
      split: copier.splits dest: spec [of _ SideA])

section \<open>Termination\<close>

text \<open>
  The steps a goroutine has left once its side has ended: the bytes to read and to write, and the
  stages of the copy and of the once. When the once is complete the bytes no longer matter.
\<close>

fun once_work :: "once \<Rightarrow> nat" where
  "once_work Unused = 2"
| "once_work (ClosedOne s) = 1"
| "once_work Complete = 0"

definition own_work :: "proxy \<Rightarrow> side \<Rightarrow> nat" where
  "own_work p s =
     (case px_copier p s of
        CopierDone \<Rightarrow> 0
      | CopyEnded \<Rightarrow> 1 + once_work (px_once p)
      | c \<Rightarrow> if px_once p = Complete then 5
            else 5 + 3 * length (px_unread p s) + 2 * length (in_flight c))"

text \<open>The stream from a side is over: its peer ended it, its copy stopped, or all is closed.\<close>

definition ended :: "proxy \<Rightarrow> side \<Rightarrow> bool" where
  "ended p s \<longleftrightarrow> px_fin p s \<or> px_copier p s \<in> {CopyEnded, CopierDone} \<or> px_once p = Complete"

lemma copy_step_ended: "copy_step t p q \<Longrightarrow> ended p s \<Longrightarrow> ended q s"
  by (erule copy_step.cases) (auto simp: ended_def)

lemma peer_step_ended: "peer_step p q \<Longrightarrow> ended p s \<Longrightarrow> ended q s"
  by (erule peer_step.cases) (auto simp: ended_def)

lemma once_work_le: "once_work k \<le> 2"
  by (cases k) simp_all

lemma own_step_work:
  assumes "copy_step s p q" and "proxy_ok p"
  shows "own_work q s < own_work p s"
proof -
  have o: "px_once p \<noteq> Complete" if "px_open p t" for t
    using assms(2) that by (cases t) (auto simp: proxy_ok_def once_ok_def)
  from assms(1) show ?thesis
  proof (cases rule: copy_step.cases)
    case (read_some chunk rest)
    with o [of s] show ?thesis by (cases chunk) (simp_all add: own_work_def)
  next
    case (write_some chunk rest room)
    with o [of "other s"] show ?thesis by (cases chunk) (simp_all add: own_work_def)
  qed (use once_work_le [of "px_once p"] in \<open>simp_all add: own_work_def\<close>)
qed

lemma other_step_work: "copy_step t p q \<Longrightarrow> t \<noteq> s \<Longrightarrow> own_work q s \<le> own_work p s"
  by (erule copy_step.cases) (auto simp: own_work_def split: copier.splits)

lemma peer_step_work:
  assumes "peer_step p q" and "ended p s"
  shows "own_work q s \<le> own_work p s"
  using assms once_work_le [of "px_once p"]
  by (cases rule: peer_step.cases) (auto simp: own_work_def ended_def split: copier.splits)

lemma interleaved_keeps:
  "interleaved p ls q \<Longrightarrow> proxied p \<Longrightarrow> ended p s \<Longrightarrow>
   proxied q \<and> ended q s \<and> count_list ls (Some s) + own_work q s \<le> own_work p s"
proof (induction rule: interleaved.induct)
  case (own t p p' ls q)
  then have "proxied q \<and> ended q s \<and> count_list ls (Some s) + own_work q s \<le> own_work p' s"
    using copy_step_ended by (blast intro: proxied.copy)
  with own_step_work [of s p p'] other_step_work [of t p p' s] own.hyps(1) proxied_ok [OF own.prems(1)] show ?case
    by (cases "t = s") auto
next
  case (outside p p' ls q)
  then have "proxied q \<and> ended q s \<and> count_list ls (Some s) + own_work q s \<le> own_work p' s"
    using peer_step_ended by (blast intro: proxied.peer)
  with peer_step_work [OF outside.hyps(1) outside.prems(2)] show ?case by simp
qed simp

definition proxy_closed :: "proxy \<Rightarrow> bool" where
  "proxy_closed p \<longleftrightarrow> (\<forall>s. \<not> px_open p s \<and> px_copier p s = CopierDone)"

text \<open>Waiting for bytes, and waiting for room at the peer.\<close>

definition waits_to_read :: "proxy \<Rightarrow> side \<Rightarrow> bool" where
  "waits_to_read p s \<longleftrightarrow> px_copier p s = Reading \<and> px_open p s \<and> px_unread p s = '''' \<and> \<not> px_fin p s"

definition waits_to_write :: "proxy \<Rightarrow> side \<Rightarrow> bool" where
  "waits_to_write p s \<longleftrightarrow> (\<exists>chunk. px_copier p s = Writing chunk) \<and> px_open p (other s) \<and> px_room p (other s) = 0"

definition proxy_idle :: "proxy \<Rightarrow> bool" where
  "proxy_idle p \<longleftrightarrow> (\<forall>s. px_copier p s = Reading \<and> px_open p s \<and> px_unread p s = '''' \<and> \<not> px_fin p s)"

definition proxy_stuck :: "proxy \<Rightarrow> bool" where
  "proxy_stuck p \<longleftrightarrow> (\<forall>s q. \<not> copy_step s p q)"

text \<open>What a goroutine that is not done can do: step, wait, or let the other one finish the closing.\<close>

lemma copier_progress:
  assumes "proxied p"
  shows "px_copier p s = CopierDone \<or> waits_to_read p s \<or> waits_to_write p s \<or> (\<exists>q. copy_step s p q)
    \<or> px_once p = ClosedOne (other s) \<and> (\<exists>q. copy_step (other s) p q)"
proof (cases "px_copier p s")
  case Reading
  with read_closed [of p s] read_eof [of p s] read_some [of p s "px_unread p s" "''''"] show ?thesis
    by (auto simp: waits_to_read_def)
next
  case (Writing chunk)
  then have "chunk \<noteq> ''''" using proxied_ok [OF assms(1)] by (auto simp: proxy_ok_def side_ok_def dest: spec [of _ s])
  then obtain c cs where "chunk = [c] @ cs" by (cases chunk) auto
  with Writing write_closed [of p s chunk] write_some [of p s "[c]" cs "px_room p (other s) - 1"] show ?thesis
    by (cases "px_room p (other s)") (auto simp: waits_to_write_def)
next
  case CopyEnded
  show ?thesis
  proof (cases "px_once p")
    case (ClosedOne t)
    then have "copy_step t p (p\<lparr>px_open := (px_open p)(SideB := False), px_once := Complete,
        px_copier := (px_copier p)(t := CopierDone)\<rparr>)"
      using proxied_ok [OF assms(1)] by (intro close_b) (simp_all add: proxy_ok_def once_ok_def)
    moreover have "t = s \<or> t = other s" by (cases s; cases t; simp)
    ultimately show ?thesis using ClosedOne by blast
  qed (use CopyEnded close_a once_returns in blast)+
qed simp

lemma stuck_copier:
  assumes "proxied p" and "proxy_stuck p"
  shows "px_copier p s = CopierDone \<or> waits_to_read p s \<or> waits_to_write p s"
  using copier_progress [OF assms(1), of s] assms(2) by (auto simp: proxy_stuck_def)

lemma done_closed: "proxied p \<Longrightarrow> px_copier p s = CopierDone \<Longrightarrow> \<not> px_open p t"
  by (cases t) (auto dest!: proxied_ok simp: proxy_ok_def side_ok_def once_ok_def split: copier.splits dest: spec [of _ s])

lemma ended_no_read: "proxied p \<Longrightarrow> ended p s \<Longrightarrow> \<not> waits_to_read p s"
  by (cases s) (auto dest!: proxied_ok simp: ended_def waits_to_read_def proxy_ok_def once_ok_def)

text \<open>The goroutines are stuck when all is closed, or each of them waits, with both connections open.\<close>

lemma stuck_cases:
  assumes "proxied p" and stuck: "proxy_stuck p"
  shows "proxy_closed p \<or> px_once p = Unused \<and> (\<forall>s. px_open p s \<and> (waits_to_read p s \<or> waits_to_write p s))"
proof -
  note state = stuck_copier [OF assms]
  have ok: "side_ok p s" "once_ok p" for s using proxied_ok [OF assms(1)] by (auto simp: proxy_ok_def)
  show ?thesis
  proof (cases "px_once p")
    case Unused
    then have "px_copier p s \<noteq> CopierDone" for s using ok(1) [of s] by (auto simp: side_ok_def)
    moreover have "px_open p s" for s using Unused ok(2) by (cases s) (simp_all add: once_ok_def)
    ultimately show ?thesis using Unused state by blast
  next
    case (ClosedOne t)
    then have "px_copier p t = CopyEnded" using ok(2) by (simp add: once_ok_def)
    with state [of t] show ?thesis by (simp add: waits_to_read_def waits_to_write_def)
  next
    case Complete
    then have closed: "\<not> px_open p t" for t using ok(2) by (cases t) (simp_all add: once_ok_def)
    then have "px_copier p t = CopierDone" for t
      using state [of t] by (auto simp: waits_to_read_def waits_to_write_def)
    with closed show ?thesis by (simp add: proxy_closed_def)
  qed
qed

text \<open>
  C39: A proxied pair is torn down when either side ends, unless a peer stops reading: from any
  state in which a side's peer ended its stream, its copy stopped or the closing was done, in any
  interleaving of the goroutines with the peers, who may go on sending and reading on either side,
  the goroutine of that side takes only as many steps as it has work left. In every state on the
  way it is done, with both connections closed, or it can take its next step, or the other one is
  about to finish the closing for it, or it waits with bytes for a peer that does not read. And
  when both goroutines can go no further, both copies are over and both connections are closed, or
  it waits for such a peer and both connections are still open.
\<close>

theorem proxy_closes_both:
  assumes "proxied p" and "ended p s" and "interleaved p schedule q"
  shows "count_list schedule (Some s) \<le> own_work p s
       \<and> (px_copier q s = CopierDone \<and> (\<forall>t. \<not> px_open q t) \<or> (\<exists>r. copy_step s q r)
          \<or> px_once q = ClosedOne (other s) \<and> (\<exists>r. copy_step (other s) q r) \<or> waits_to_write q s)
       \<and> (proxy_stuck q \<longrightarrow> proxy_closed q \<or> waits_to_write q s \<and> (\<forall>t. px_open q t))"
proof (intro conjI impI)
  note keeps = interleaved_keeps [OF assms(3,1,2)]
  then show "count_list schedule (Some s) \<le> own_work p s" by simp
  have no_read: "\<not> waits_to_read q s" using keeps ended_no_read by blast
  then show "px_copier q s = CopierDone \<and> (\<forall>t. \<not> px_open q t) \<or> (\<exists>r. copy_step s q r)
          \<or> px_once q = ClosedOne (other s) \<and> (\<exists>r. copy_step (other s) q r) \<or> waits_to_write q s"
    using copier_progress [of q s] done_closed [of q s] keeps by blast
  assume "proxy_stuck q"
  with stuck_cases keeps no_read show "proxy_closed q \<or> waits_to_write q s \<and> (\<forall>t. px_open q t)" by blast
qed

text \<open>
  There is no deadline on the writes: while one goroutine waits for a peer that does not read and
  the other for bytes, neither moves, although the sender ended its stream.
\<close>

theorem unread_pair_stays_open:
  assumes "waits_to_write p s" and "waits_to_read p (other s)"
  shows "proxy_stuck p"
proof -
  obtain chunk where w: "px_copier p s = Writing chunk" "px_open p (other s)" "px_room p (other s) = 0"
    using assms(1) by (auto simp: waits_to_write_def)
  have r: "px_copier p (other s) = Reading" "px_open p (other s)" "px_unread p (other s) = ''''" "\<not> px_fin p (other s)"
    using assms(2) by (simp_all add: waits_to_read_def)
  have "False" if st: "copy_step t p q" for t q
  proof -
    have "t = s \<or> t = other s" by (cases s; cases t; simp)
    with st w r show False by (elim disjE; cases rule: copy_step.cases) simp_all
  qed
  then show ?thesis unfolding proxy_stuck_def by blast
qed

text \<open>
  C40: The bytes of a proxied pair arrive as they were sent: at every moment and in every
  interleaving, what was delivered to a side is a prefix of what the other side sent, and when
  the goroutines wait for more with neither side ended it is all of it.
\<close>

theorem proxied_bytes:
  assumes "proxied p"
  shows "prefix (px_delivered p (other s)) (px_sent p s)
       \<and> (proxy_idle p \<longrightarrow> px_delivered p (other s) = px_sent p s)"
proof -
  have "side_ok p s" using proxied_ok [OF assms] by (auto simp: proxy_ok_def)
  with side_ok_prefix [of p s] show ?thesis by (auto simp: side_ok_def proxy_idle_def)
qed

section \<open>Half-closed streams\<close>

definition any_step :: "proxy \<Rightarrow> proxy \<Rightarrow> bool" where
  "any_step p q \<longleftrightarrow> (\<exists>s. copy_step s p q) \<or> peer_step p q"

lemma closed_stays: "any_step p q \<Longrightarrow> \<not> px_open p s \<Longrightarrow> \<not> px_open q s \<and> px_delivered q s = px_delivered p s"
  by (auto simp: any_step_def elim!: copy_step.cases peer_step.cases split: if_splits)

lemma closed_stays_steps:
  "any_step\<^sup>*\<^sup>* p q \<Longrightarrow> \<not> px_open p s \<Longrightarrow> \<not> px_open q s \<and> px_delivered q s = px_delivered p s"
  by (induction rule: rtranclp_induct) (auto dest: closed_stays)

text \<open>
  A half-closed stream loses its reply: when the peer of the first connection has sent its
  request, all of it was passed on, and it ends its sending side to wait for the reply, then the
  goroutines' next two steps can close its connection, and no reply sent afterwards is ever
  delivered to it.
\<close>

theorem half_close_cuts_reply:
  assumes "proxied p" and "px_copier p SideA = Reading" and "px_fin p SideA" and "px_unread p SideA = ''''"
    and "px_once p = Unused"
  shows "\<exists>q. (copy_step SideA ^^ 2) p q \<and> px_delivered q SideB = px_sent p SideA
       \<and> (\<forall>r. any_step\<^sup>*\<^sup>* q r \<longrightarrow> px_delivered r SideA = px_delivered p SideA)"
proof -
  have ok: "side_ok p SideA" "once_ok p" using proxied_ok [OF assms(1)] by (simp_all add: proxy_ok_def)
  then have o: "px_open p SideA" and d: "px_delivered p SideB = px_sent p SideA"
    using assms(2,4,5) by (simp_all add: side_ok_def once_ok_def)
  let ?p1 = "p\<lparr>px_copier := (px_copier p)(SideA := CopyEnded)\<rparr>"
  let ?q = "?p1\<lparr>px_open := (px_open ?p1)(SideA := False), px_once := ClosedOne SideA\<rparr>"
  have "copy_step SideA p ?p1" by (rule read_eof [OF assms(2) o assms(4,3)])
  moreover have "copy_step SideA ?p1 ?q" by (rule close_a) (simp_all add: assms(5))
  ultimately have "(copy_step SideA ^^ 2) p ?q" by (auto simp: numeral_2_eq_2)
  moreover have "px_delivered r SideA = px_delivered p SideA" if "any_step\<^sup>*\<^sup>* ?q r" for r
    using closed_stays_steps [OF that, of SideA] by simp
  ultimately show ?thesis using d by (intro exI [of _ ?q]) simp
qed

text \<open>
  A request passed on, and the end of the sending side; the second peer has room for the request
  and the first reads nothing yet.
\<close>

definition asked :: proxy where
  "asked = (proxyConns (\<lambda>s. 0))\<lparr>px_sent := (\<lambda>s. '''')(SideA := ''get''), px_delivered := (\<lambda>s. '''')(SideB := ''get''),
     px_fin := (\<lambda>s. False)(SideA := True)\<rparr>"

lemma asked_proxied: "proxied asked"
proof -
  let ?p0 = "proxyConns ((\<lambda>s. 0)(SideB := 3))"
  let ?p1 = "?p0\<lparr>px_sent := (px_sent ?p0)(SideA := px_sent ?p0 SideA @ ''get''),
      px_unread := (px_unread ?p0)(SideA := px_unread ?p0 SideA @ ''get'')\<rparr>"
  let ?p2 = "?p1\<lparr>px_unread := (px_unread ?p1)(SideA := ''''), px_copier := (px_copier ?p1)(SideA := Writing ''get'')\<rparr>"
  let ?p3 = "?p2\<lparr>px_delivered := (px_delivered ?p2)(other SideA := px_delivered ?p2 (other SideA) @ ''get''),
      px_room := (px_room ?p2)(other SideA := 0),
      px_copier := (px_copier ?p2)(SideA := if ('''' :: string) = '''' then Reading else Writing '''')\<rparr>"
  let ?p4 = "?p3\<lparr>px_fin := (px_fin ?p3)(SideA := True)\<rparr>"
  have "peer_step ?p0 ?p1" by (rule sends) (simp add: proxyConns_def)
  moreover have "copy_step SideA ?p1 ?p2" by (rule read_some) (simp_all add: proxyConns_def)
  moreover have "copy_step SideA ?p2 ?p3" by (rule write_some) (simp_all add: proxyConns_def)
  moreover have "peer_step ?p3 ?p4" by (rule ends)
  ultimately have "proxied ?p4" by (meson proxied.intros)
  also have "?p4 = asked" by (simp add: asked_def proxyConns_def fun_eq_iff)
  finally show ?thesis .
qed

lemma asked_simps [simp]: "px_copier asked s = Reading" "px_fin asked SideA" "px_unread asked s = ''''"
  "px_once asked = Unused" "px_sent asked SideA = ''get''" "px_delivered asked SideA = ''''" "\<not> px_fin asked SideB"
  "px_open asked s" "px_room asked s = 0"
  by (simp_all add: asked_def proxyConns_def)

theorem half_close_cuts_reply_witness:
  "\<exists>q. (copy_step SideA ^^ 2) asked q \<and> px_delivered q SideB = ''get''
     \<and> (\<forall>r. any_step\<^sup>*\<^sup>* q r \<longrightarrow> px_delivered r SideA = '''')"
  using half_close_cuts_reply [OF asked_proxied] by simp

theorem proxied_bytes_witness: "prefix (px_delivered asked SideB) ''get''"
  using proxied_bytes [OF asked_proxied, of SideA] by simp

text \<open>
  The same pair: the first goroutine closes both, while the second peer sends a reply that is
  never passed on.
\<close>

theorem proxy_closes_both_witness:
  "\<exists>schedule q. interleaved asked schedule q \<and> count_list schedule (Some SideA) = 3 \<and> own_work asked SideA = 5
     \<and> px_unread q SideB = ''re'' \<and> proxy_closed q"
proof -
  let ?p1 = "asked\<lparr>px_copier := (px_copier asked)(SideA := CopyEnded)\<rparr>"
  let ?p2 = "?p1\<lparr>px_sent := (px_sent ?p1)(SideB := px_sent ?p1 SideB @ ''re''),
      px_unread := (px_unread ?p1)(SideB := px_unread ?p1 SideB @ ''re'')\<rparr>"
  let ?p3 = "?p2\<lparr>px_open := (px_open ?p2)(SideA := False), px_once := ClosedOne SideA\<rparr>"
  let ?p4 = "?p3\<lparr>px_open := (px_open ?p3)(SideB := False), px_once := Complete,
      px_copier := (px_copier ?p3)(SideA := CopierDone)\<rparr>"
  let ?p5 = "?p4\<lparr>px_copier := (px_copier ?p4)(SideB := CopyEnded)\<rparr>"
  let ?q = "?p5\<lparr>px_copier := (px_copier ?p5)(SideB := CopierDone)\<rparr>"
  let ?sched = "[Some SideA, None, Some SideA, Some SideA, Some SideB, Some SideB]"
  have s1: "copy_step SideA asked ?p1" by (rule read_eof) simp_all
  have s2: "peer_step ?p1 ?p2" by (rule sends) simp
  have s3: "copy_step SideA ?p2 ?p3" by (rule close_a) simp_all
  have s4: "copy_step SideA ?p3 ?p4" by (rule close_b) simp_all
  have s5: "copy_step SideB ?p4 ?p5" by (rule read_closed) simp_all
  have s6: "copy_step SideB ?p5 ?q" by (rule once_returns) simp_all
  have run: "interleaved asked ?sched ?q"
    by (rule interleaved.own [OF s1 interleaved.outside [OF s2 interleaved.own [OF s3 interleaved.own [OF s4
          interleaved.own [OF s5 interleaved.own [OF s6 interleaved.none]]]]]])
  have d: "px_copier ?q s = CopierDone" for s by (cases s) simp_all
  then have "proxy_stuck ?q" by (auto simp: proxy_stuck_def elim!: copy_step.cases)
  moreover have "\<not> waits_to_write ?q SideA" by (simp add: waits_to_write_def)
  ultimately have "proxy_closed ?q"
    using proxy_closes_both [OF asked_proxied _ run, of SideA] by (simp add: ended_def)
  moreover have "own_work asked SideA = 5" by (simp add: own_work_def)
  ultimately show ?thesis using run by (intro exI [of _ ?sched] exI [of _ ?q]) simp
qed

text \<open>
  A peer that does not read: the first peer has sent more than the second takes and has ended its
  stream, and both connections stay open.
\<close>

definition stalled :: proxy where
  "stalled = (proxyConns (\<lambda>s. 0))\<lparr>px_sent := (\<lambda>s. '''')(SideA := ''get''), px_delivered := (\<lambda>s. '''')(SideB := ''ge''),
     px_copier := (\<lambda>s. Reading)(SideA := Writing ''t''), px_fin := (\<lambda>s. False)(SideA := True)\<rparr>"

lemma stalled_proxied: "proxied stalled"
proof -
  let ?p0 = "proxyConns ((\<lambda>s. 0)(SideB := 2))"
  let ?p1 = "?p0\<lparr>px_sent := (px_sent ?p0)(SideA := px_sent ?p0 SideA @ ''get''),
      px_unread := (px_unread ?p0)(SideA := px_unread ?p0 SideA @ ''get'')\<rparr>"
  let ?p2 = "?p1\<lparr>px_unread := (px_unread ?p1)(SideA := ''''), px_copier := (px_copier ?p1)(SideA := Writing ''get'')\<rparr>"
  let ?p3 = "?p2\<lparr>px_delivered := (px_delivered ?p2)(other SideA := px_delivered ?p2 (other SideA) @ ''ge''),
      px_room := (px_room ?p2)(other SideA := 0),
      px_copier := (px_copier ?p2)(SideA := if ''t'' = '''' then Reading else Writing ''t'')\<rparr>"
  let ?p4 = "?p3\<lparr>px_fin := (px_fin ?p3)(SideA := True)\<rparr>"
  have "peer_step ?p0 ?p1" by (rule sends) (simp add: proxyConns_def)
  moreover have "copy_step SideA ?p1 ?p2" by (rule read_some) (simp_all add: proxyConns_def)
  moreover have "copy_step SideA ?p2 ?p3" by (rule write_some) (simp_all add: proxyConns_def)
  moreover have "peer_step ?p3 ?p4" by (rule ends)
  ultimately have "proxied ?p4" by (meson proxied.intros)
  also have "?p4 = stalled" by (simp add: stalled_def proxyConns_def fun_eq_iff)
  finally show ?thesis .
qed

theorem unread_pair_stays_open_witness: "proxied stalled \<and> ended stalled SideA \<and> proxy_stuck stalled \<and> (\<forall>s. px_open stalled s)"
proof -
  have "waits_to_write stalled SideA" "waits_to_read stalled (other SideA)"
    by (simp_all add: waits_to_write_def waits_to_read_def stalled_def proxyConns_def)
  from unread_pair_stays_open [OF this] stalled_proxied show ?thesis
    by (simp add: ended_def stalled_def proxyConns_def)
qed

end
