(* ===== verification/Key_File.thy ===== *)
theory Key_File
  imports Go_Strings
begin

text \<open>
  The temporary files the private keys are handed to \<open>wg\<close> in: \<open>writePrivateKeyFile\<close> of
  internal/agent/wireguard.go and \<open>writeHubPrivateKey\<close> of internal/controller/wireguard_hub.go.
  \<open>os.CreateTemp\<close> gives a name that did not exist; which of the operations fails is an argument.
\<close>

datatype key_op = CreateKeyFile | ChmodKeyFile | WriteKeyFile | CloseKeyFile

type_synonym key_files = "string \<Rightarrow> string option"

definition writePrivateKeyFile ::
  "(key_op \<Rightarrow> bool) \<Rightarrow> string \<Rightarrow> string \<Rightarrow> key_files \<Rightarrow> string option \<times> key_files" where
  "writePrivateKeyFile fails name privateKey files =
     (if fails CreateKeyFile then (None, files)
      else let created = files(name \<mapsto> '''')
      in if fails ChmodKeyFile then (None, created(name := None))
      else if fails WriteKeyFile then (None, created(name := None))
      else let written = created(name \<mapsto> privateKey @ [CHR 0x0A])
      in if fails CloseKeyFile then (None, written(name := None)) else (Some name, written))"

definition writeHubPrivateKey ::
  "(key_op \<Rightarrow> bool) \<Rightarrow> string \<Rightarrow> string \<Rightarrow> key_files \<Rightarrow> string option \<times> key_files" where
  "writeHubPrivateKey fails name privateKey files =
     (if fails CreateKeyFile then (None, files)
      else let created = files(name \<mapsto> '''')
      in if fails ChmodKeyFile then (None, created(name := None))
      else if fails WriteKeyFile then (None, created(name := None))
      else let written = created(name \<mapsto> trim_space privateKey @ [CHR 0x0A])
      in if fails CloseKeyFile then (None, written(name := None)) else (Some name, written))"

text \<open>A failure leaves no key behind; a success leaves the one file.\<close>

lemma key_file_written:
  assumes "files name = None"
  shows "writePrivateKeyFile fails name key files =
      (if \<exists>op. fails op then (None, files) else (Some name, files(name \<mapsto> key @ [CHR 0x0A])))"
    and "writeHubPrivateKey fails name key files = writePrivateKeyFile fails name (trim_space key) files"
proof -
  have ops: "(\<exists>op. fails op) \<longleftrightarrow> fails CreateKeyFile \<or> fails ChmodKeyFile \<or> fails WriteKeyFile \<or> fails CloseKeyFile"
    by (metis key_op.exhaust)
  have "files(name := None) = files" using assms by (simp add: fun_upd_idem)
  then show "writePrivateKeyFile fails name key files =
      (if \<exists>op. fails op then (None, files) else (Some name, files(name \<mapsto> key @ [CHR 0x0A])))"
    unfolding ops by (auto simp: writePrivateKeyFile_def Let_def)
  show "writeHubPrivateKey fails name key files = writePrivateKeyFile fails name (trim_space key) files"
    by (simp add: writeHubPrivateKey_def writePrivateKeyFile_def)
qed

end
