(* ===== verification/Entry_Points.thy ===== *)
theory Entry_Points
  imports End_To_End
begin

text \<open>
  The three programs of cmd: how the parts are put together and how a run ends. The command line
  is read with Go's \<open>flag\<close> package, of which \<open>parseOne\<close> is modelled. A program ends with an
  exit status (\<open>log.Fatal\<close> is status 1, a bad command line status 2), with a panic, or is still
  running when what its surroundings do is used up. \<open>ctx.Err() != nil\<close>, the arrival of SIGINT or
  SIGTERM before the end, is an argument.
\<close>

section \<open>Flags\<close>

datatype flag_kind = StringFlag | BoolFlag

datatype flag_end = FlagsRead "(string \<times> string) list" "string list" | HelpWanted | BadFlag

definition flag_name :: "string \<Rightarrow> string" where "flag_name s = takeWhile (\<lambda>c. c \<noteq> CHR ''='') s"

definition flag_value :: "string \<Rightarrow> string option" where
  "flag_value s = (case dropWhile (\<lambda>c. c \<noteq> CHR ''='') s of [] \<Rightarrow> None | _ # v \<Rightarrow> Some v)"

fun add_flag :: "string \<times> string \<Rightarrow> flag_end \<Rightarrow> flag_end" where
  "add_flag a (FlagsRead as rest) = FlagsRead (a # as) rest"
| "add_flag a e = e"

text \<open>One argument of the form \<open>-name\<close>: its name and value, its name alone, or an end of the flags.\<close>

definition flag_word :: "string \<Rightarrow> string option" where
  "flag_word s =
     (if length s < 2 \<or> hd s \<noteq> CHR ''-'' then None
      else Some (if s ! 1 = CHR ''-'' then drop 2 s else drop 1 s))"

fun parse_flags :: "(string \<Rightarrow> flag_kind option) \<Rightarrow> string list \<Rightarrow> flag_end" where
  "parse_flags kinds [] = FlagsRead [] []"
| "parse_flags kinds (s # args) =
     (case flag_word s of
        None \<Rightarrow> FlagsRead [] (s # args)
      | Some w \<Rightarrow>
          if s = ''--'' then FlagsRead [] args
          else if w = '''' \<or> hd w = CHR ''-'' \<or> hd w = CHR ''='' then BadFlag
          else (case kinds (flag_name w) of
                  None \<Rightarrow> if flag_name w \<in> {''help'', ''h''} then HelpWanted else BadFlag
                | Some BoolFlag \<Rightarrow>
                    (case flag_value w of
                       None \<Rightarrow> add_flag (flag_name w, ''true'') (parse_flags kinds args)
                     | Some v \<Rightarrow>
                         if parse_bool v = None then BadFlag else add_flag (flag_name w, v) (parse_flags kinds args))
                | Some StringFlag \<Rightarrow>
                    (case flag_value w of
                       Some v \<Rightarrow> add_flag (flag_name w, v) (parse_flags kinds args)
                     | None \<Rightarrow>
                         (case args of
                            [] \<Rightarrow> BadFlag
                          | v # args' \<Rightarrow> add_flag (flag_name w, v) (parse_flags kinds args')))))"

datatype program_end = Exited nat | Panicked | StillUp

section \<open>linkbit-agent forward\<close>

definition forward_flag :: "string \<Rightarrow> flag_kind option" where
  "forward_flag =
     map_of [(''listen'', StringFlag), (''target'', StringFlag), (''controller'', StringFlag), (''state'', StringFlag)]"

record forward_options =
  fo_listen :: string
  fo_target :: string
  fo_cfg :: agent_config

definition set_forward_flag :: "string \<times> string \<Rightarrow> forward_options \<Rightarrow> forward_options" where
  "set_forward_flag a opts =
     (case a of (name, v) \<Rightarrow>
        if name = ''listen'' then opts\<lparr>fo_listen := v\<rparr>
        else if name = ''target'' then opts\<lparr>fo_target := v\<rparr>
        else if name = ''controller'' then opts\<lparr>fo_cfg := (fo_cfg opts)\<lparr>ac_ControllerURL := v\<rparr>\<rparr>
        else if name = ''state'' then opts\<lparr>fo_cfg := (fo_cfg opts)\<lparr>ac_StatePath := v\<rparr>\<rparr>
        else opts)"

text \<open>What the forwarder is started with: its client, the address to listen on, the target, the source.\<close>

record forward_call =
  fc_client :: http_client
  fc_listen :: string
  fc_target :: string
  fc_port :: int
  fc_source :: string

definition forward_prepare :: "os_env \<Rightarrow> agent_config \<Rightarrow> string list \<Rightarrow> disk \<Rightarrow> program_end + forward_call" where
  "forward_prepare env loaded args disk =
     (case parse_flags forward_flag args of
        HelpWanted \<Rightarrow> Inl (Exited 0)
      | BadFlag \<Rightarrow> Inl (Exited 2)
      | FlagsRead as rest \<Rightarrow>
          (let opts = fold set_forward_flag as \<lparr>fo_listen = ''127.0.0.1:10022'', fo_target = '''', fo_cfg = loaded\<rparr>
           in case ParseRelayTarget (fo_target opts) of
                Inl e \<Rightarrow> Inl (Exited 1)
              | Inr (host, port) \<Rightarrow>
                  (case Load env (Some (NewFileStateStore (ac_StatePath (fo_cfg opts)))) disk of
                     Inl e \<Rightarrow> Inl (Exited 1)
                   | Inr state \<Rightarrow>
                       Inr \<lparr>fc_client = SetDeviceCredentials (d_ID (resp_Device state)) (d_DeviceToken (resp_Device state))
                              (NewHTTPRegistrationClient (ac_ControllerURL (fo_cfg opts)) '''' '''' ''''),
                            fc_listen = fo_listen opts, fc_target = host, fc_port = port,
                            fc_source = d_ID (resp_Device state)\<rparr>)))"

definition runForward ::
  "os_env \<Rightarrow> agent_config \<Rightarrow> string list \<Rightarrow> disk \<Rightarrow> (string \<Rightarrow> bool) \<Rightarrow> (bool \<times> bool) list \<Rightarrow> bool \<Rightarrow> program_end" where
  "runForward env loaded args disk listen accepts signalled =
     (case forward_prepare env loaded args disk of
        Inl e \<Rightarrow> e
      | Inr c \<Rightarrow>
          (case fst (ListenAndServe listen accepts (fc_listen c) (fc_target c) (fc_port c)) of
             None \<Rightarrow> StillUp
           | Some err \<Rightarrow> Exited (if err = ContextDone \<or> signalled then 0 else 1)))"

section \<open>linkbit-agent\<close>

definition agent_flag :: "string \<Rightarrow> flag_kind option" where
  "agent_flag =
     map_of [(''controller'', StringFlag), (''enrollment-key'', StringFlag), (''name'', StringFlag),
       (''state'', StringFlag), (''endpoint'', StringFlag), (''interface'', StringFlag),
       (''tcp-relay'', BoolFlag), (''dry-run'', BoolFlag), (''once'', BoolFlag)]"

definition set_agent_flag :: "string \<times> string \<Rightarrow> agent_config \<Rightarrow> agent_config" where
  "set_agent_flag a cfg =
     (case a of (name, v) \<Rightarrow>
        if name = ''controller'' then cfg\<lparr>ac_ControllerURL := v\<rparr>
        else if name = ''enrollment-key'' then cfg\<lparr>ac_EnrollmentKey := v\<rparr>
        else if name = ''name'' then cfg\<lparr>ac_DeviceName := v\<rparr>
        else if name = ''state'' then cfg\<lparr>ac_StatePath := v\<rparr>
        else if name = ''endpoint'' then cfg\<lparr>ac_Endpoint := v\<rparr>
        else if name = ''interface'' then cfg\<lparr>ac_WireGuardInterface := v\<rparr>
        else if name = ''tcp-relay'' then cfg\<lparr>ac_RelayEnabled := (parse_bool v = Some True)\<rparr>
        else if name = ''dry-run'' then cfg\<lparr>ac_WireGuardDryRun := (parse_bool v = Some True)\<rparr>
        else if name = ''once'' then cfg\<lparr>ac_RunOnce := (parse_bool v = Some True)\<rparr>
        else cfg)"

text \<open>The machine an agent runs on: Curve25519 and SHA-256, what its files do, what a run meets.\<close>

record agent_machine =
  am_x25519 :: "nat list \<Rightarrow> nat list option"
  am_sha256 :: "string \<Rightarrow> nat list"
  am_identity :: os_env
  am_run :: run_env
  am_listen :: "string \<Rightarrow> bool"
  am_accepts :: "(bool \<times> bool) list"
  am_signalled :: bool

definition exit_of :: "bool \<Rightarrow> outcome \<Rightarrow> program_end" where
  "exit_of signalled out =
     (case out of
        Finished None \<Rightarrow> Exited 0
      | Finished (Some err) \<Rightarrow> Exited (if err = ContextEnded \<or> signalled then 0 else 1)
      | TickerPanic \<Rightarrow> Panicked
      | StillRunning \<Rightarrow> StillUp)"

definition agent_world :: "disk \<Rightarrow> http_client \<Rightarrow> world" where
  "agent_world disk client = \<lparr>w_disk = disk, w_client = client, w_trace = [], w_relay = None\<rparr>"

definition agent_service :: "agent_config \<Rightarrow> identity \<Rightarrow> service option" where
  "agent_service cfg ident =
     NewService (cfg\<lparr>ac_WireGuardPrivateKey := id_PrivateKey ident, ac_WireGuardPublicKey := id_PublicKey ident\<rparr>)
       True True (Some (NewControllerHealthReporter True [ac_Endpoint cfg]))"

definition agent_client :: "agent_config \<Rightarrow> identity \<Rightarrow> http_client" where
  "agent_client cfg ident =
     NewHTTPRegistrationClient (ac_ControllerURL cfg) (id_PublicKey ident) (id_Fingerprint ident) (ac_Endpoint cfg)"

text \<open>How it ended, the disk, and what was done to the machine.\<close>

definition agent_start :: "agent_machine \<Rightarrow> agent_config \<Rightarrow> disk \<Rightarrow> program_end \<times> disk \<times> event list" where
  "agent_start m cfg disk =
     (case EnsureIdentity (am_x25519 m) (am_sha256 m) (am_identity m) (ac_StatePath cfg)
             (ac_WireGuardPrivateKey cfg) (ac_WireGuardPublicKey cfg) (ac_DeviceFingerprint cfg) disk of
        (Inl e, disk') \<Rightarrow> (Exited 1, disk', [])
      | (Inr ident, disk') \<Rightarrow>
          (case agent_service cfg ident of
             None \<Rightarrow> (Exited 1, disk', [])
           | Some s \<Rightarrow>
               (case Run (am_run m) s (agent_world disk' (agent_client cfg ident)) of
                  (out, w) \<Rightarrow> (exit_of (am_signalled m) out, w_disk w, w_trace w))))"

definition agent_main ::
  "agent_machine \<Rightarrow> agent_config \<Rightarrow> string list \<Rightarrow> disk \<Rightarrow> program_end \<times> disk \<times> event list" where
  "agent_main m loaded args disk =
     (if args \<noteq> [] \<and> hd args = ''forward''
      then (runForward (am_identity m) loaded (tl args) disk (am_listen m) (am_accepts m) (am_signalled m), disk, [])
      else case parse_flags agent_flag args of
        HelpWanted \<Rightarrow> (Exited 0, disk, [])
      | BadFlag \<Rightarrow> (Exited 2, disk, [])
      | FlagsRead as rest \<Rightarrow> agent_start m (fold set_agent_flag as loaded) disk)"

text \<open>A run that did everything it is for, once: identity, device, tunnel and report.\<close>

definition all_done :: "agent_machine \<Rightarrow> agent_config \<Rightarrow> disk \<Rightarrow> bool" where
  "all_done m cfg disk \<longleftrightarrow>
     (\<exists>ident d s s1 w1 w2.
        EnsureIdentity (am_x25519 m) (am_sha256 m) (am_identity m) (ac_StatePath cfg)
          (ac_WireGuardPrivateKey cfg) (ac_WireGuardPublicKey cfg) (ac_DeviceFingerprint cfg) disk = (Inr ident, d)
        \<and> agent_service cfg ident = Some s
        \<and> obtain_device (am_run m) s (agent_world d (agent_client cfg ident)) = (Inr s1, w1)
        \<and> start_tunnel (am_run m) s1 w1 = (None, w2) \<and> report (re_report (am_run m)) s1 w2 = None)"

lemma obtain_device_fields:
  assumes "obtain_device env s w = (Inr s1, w1)"
  shows "ag_cfg s1 = ag_cfg s" "ag_tunnel s1 = ag_tunnel s" "ag_health s1 = ag_health s" "ag_registration s1 = ag_registration s"
  using assms
  by (auto simp: obtain_device_def load_device_def register_device_def Let_def
      split: if_splits prod.splits sum.splits option.splits)

lemma Apply_None_interface:
  "Apply goos run keyFile cfg network tr = (None, tr') \<Longrightarrow>
   ac_WireGuardInterface cfg \<noteq> '''' \<and> (ac_WireGuardDryRun cfg \<or> goos = ''linux'')"
  by (auto simp: Apply_def validateNetworkConfig_def applyCommands_def split: if_splits option.splits prod.splits)

lemma start_tunnel_interface:
  "start_tunnel env s w = (None, w') \<Longrightarrow>
   ac_WireGuardInterface (ag_cfg s) \<noteq> '''' \<and> (ac_WireGuardDryRun (ag_cfg s) \<or> re_goos env = ''linux'')"
  by (auto simp: start_tunnel_def split: if_splits sum.splits prod.splits option.splits dest!: Apply_None_interface)

lemma agent_service_fields:
  assumes "agent_service cfg ident = Some s"
  shows "ag_tunnel s" "ac_RunOnce (ag_cfg s) = ac_RunOnce cfg" "ac_WireGuardDryRun (ag_cfg s) = ac_WireGuardDryRun cfg"
    "ac_WireGuardInterface (ag_cfg s) = ac_WireGuardInterface cfg"
  using assms by (auto simp: agent_service_def NewService_def split: if_splits)

text \<open>A run with \<open>-once\<close> from its service.\<close>

lemma Run_once:
  assumes "Run env s w = (out, w')" and "ag_tunnel s" and "ac_RunOnce (ag_cfg s)"
  shows "\<exists>err. out = Finished err \<and> err \<noteq> Some ContextEnded
      \<and> (err = None \<longleftrightarrow> (\<exists>s1 w1 w2. obtain_device env s w = (Inr s1, w1) \<and> start_tunnel env s1 w1 = (None, w2)
            \<and> report (re_report env) s1 w2 = None))
      \<and> (err = None \<longrightarrow> ac_WireGuardDryRun (ag_cfg s)
            \<or> last (w_trace w') = Ran [''ip'', ''link'', ''del'', ac_WireGuardInterface (ag_cfg s)])"
proof (cases "obtain_device env s w")
  case (Pair x w1)
  show ?thesis
  proof (cases x)
    case (Inl e)
    have "e \<noteq> ContextEnded"
      using Pair Inl by (auto simp: obtain_device_def register_device_def Let_def split: if_splits prod.splits sum.splits option.splits)
    with Pair Inl assms(1) show ?thesis by (auto simp: Run_def)
  next
    case (Inr s1)
    note same = obtain_device_fields [OF Pair [unfolded Inr]]
    obtain te w2 where t: "start_tunnel env s1 w1 = (te, w2)" by fastforce
    show ?thesis
    proof (cases te)
      case (Some e)
      have "e \<noteq> ContextEnded"
        using t Some by (auto simp: start_tunnel_def split: if_splits prod.splits sum.splits option.splits)
      with Pair Inr t Some same assms show ?thesis by (auto simp: Run_def)
    next
      case None
      have relay: "start_relay s1 w2 = w2" using same assms(3) by (simp add: start_relay_def)
      have out: "out = Finished (map_option ReportFailed (report (re_report env) s1 w2))"
        and w': "w' = deferred_destroy env s1 out w2"
        using assms Pair Inr t None same by (auto simp: Run_def Let_def relay serve_health_def)
      have "ac_WireGuardDryRun (ag_cfg s) \<or> last (w_trace w') = Ran [''ip'', ''link'', ''del'', ac_WireGuardInterface (ag_cfg s)]"
        using start_tunnel_interface [OF t [unfolded None]] same assms(2) out
        by (auto simp: w' deferred_destroy_def Destroy_def runCommand_def)
      then show ?thesis using out Pair Inr t None by auto
    qed
  qed
qed

text \<open>
  C38: \<open>linkbit-agent -once\<close> always ends, without a panic and whatever fails, and its exit status
  is 0 exactly when it had an identity, obtained the device, applied the network configuration and
  had its report accepted; but the deferred clean-up runs first, so that unless it was a dry run
  the last thing it did is to delete the interface it had just configured.
\<close>

theorem once_run_ends:
  assumes "parse_flags agent_flag args = FlagsRead as rest" and "cfg = fold set_agent_flag as loaded"
    and "ac_RunOnce cfg" and "agent_main m loaded args disk = (ended, disk', tr)" and "\<not> am_signalled m"
    and "args = [] \<or> hd args \<noteq> ''forward''"
  shows "(ended = Exited 0 \<or> ended = Exited 1) \<and> (ended = Exited 0 \<longleftrightarrow> all_done m cfg disk)
       \<and> (ended = Exited 0 \<longrightarrow> ac_WireGuardDryRun cfg \<or> last tr = Ran [''ip'', ''link'', ''del'', ac_WireGuardInterface cfg])"
proof -
  have st: "agent_start m cfg disk = (ended, disk', tr)" using assms(1,2,4,6) by (auto simp: agent_main_def)
  obtain x d where i: "EnsureIdentity (am_x25519 m) (am_sha256 m) (am_identity m) (ac_StatePath cfg)
      (ac_WireGuardPrivateKey cfg) (ac_WireGuardPublicKey cfg) (ac_DeviceFingerprint cfg) disk = (x, d)" by fastforce
  show ?thesis
  proof (cases x)
    case (Inl e)
    with st i show ?thesis by (auto simp: agent_start_def all_done_def)
  next
    case (Inr ident)
    show ?thesis
    proof (cases "agent_service cfg ident")
      case None
      with st i Inr show ?thesis by (auto simp: agent_start_def all_done_def)
    next
      case (Some s)
      obtain out w where r: "Run (am_run m) s (agent_world d (agent_client cfg ident)) = (out, w)" by fastforce
      note fields = agent_service_fields [OF Some]
      obtain err where out: "out = Finished err" "err \<noteq> Some ContextEnded"
        and ok: "err = None \<longleftrightarrow> (\<exists>s1 w1 w2. obtain_device (am_run m) s (agent_world d (agent_client cfg ident)) = (Inr s1, w1)
            \<and> start_tunnel (am_run m) s1 w1 = (None, w2) \<and> report (re_report (am_run m)) s1 w2 = None)"
        and gone: "err = None \<longrightarrow> ac_WireGuardDryRun cfg \<or> last (w_trace w) = Ran [''ip'', ''link'', ''del'', ac_WireGuardInterface cfg]"
        using Run_once [OF r fields(1)] assms(3) fields by auto
      have e: "ended = exit_of False out" "tr = w_trace w" using st i Inr Some r assms(5) by (simp_all add: agent_start_def)
      have zero: "ended = Exited 0 \<longleftrightarrow> err = None" "ended = Exited 0 \<or> ended = Exited 1"
        using e(1) out by (auto simp: exit_of_def split: option.splits)
      have "all_done m cfg disk \<longleftrightarrow> err = None" using i Inr Some ok by (auto simp: all_done_def)
      with zero gone e(2) show ?thesis by simp
    qed
  qed
qed

text \<open>A first start without an enrollment key.\<close>

definition bare_config :: agent_config where
  "bare_config = demo_agent_config\<lparr>ac_ControllerURL := '''', ac_EnrollmentKey := '''', ac_StatePath := '''', ac_RunOnce := False\<rparr>"

definition demo_machine :: agent_machine where
  "demo_machine = \<lparr>am_x25519 = demo_curve, am_sha256 = (\<lambda>s. [1]), am_identity = demo_os, am_run = demo_run demo_os,
     am_listen = (\<lambda>a. True), am_accepts = [], am_signalled = False\<rparr>"

theorem once_run_ends_witness:
  "fst (agent_main demo_machine bare_config [''-once'', ''--controller=https://c'', ''rest''] demo_disk) = Exited 1"
proof -
  let ?args = "[''-once'', ''--controller=https://c'', ''rest'']" and ?as = "[(''once'', ''true''), (''controller'', ''https://c'')]"
  let ?cfg = "fold set_agent_flag ?as bare_config"
  obtain ended disk' tr where r: "agent_main demo_machine bare_config ?args demo_disk = (ended, disk', tr)"
    by (cases "agent_main demo_machine bare_config ?args demo_disk") auto
  have p: "parse_flags agent_flag ?args = FlagsRead ?as [''rest'']"
    by (simp add: flag_word_def flag_name_def flag_value_def agent_flag_def)
  have cfg: "?cfg = bare_config\<lparr>ac_RunOnce := True, ac_ControllerURL := ''https://c''\<rparr>"
    by (simp add: set_agent_flag_def parse_bool_def)
  have "\<not> all_done demo_machine ?cfg demo_disk"
    unfolding all_done_def cfg
    by (auto simp: bare_config_def agent_service_def NewService_def obtain_device_def load_device_def
        register_device_def empty_response_def empty_device_def)
  moreover have "ac_RunOnce ?cfg" "\<not> am_signalled demo_machine" unfolding cfg by (simp_all add: demo_machine_def)
  moreover have "hd [''-once'', ''--controller=https://c'', ''rest''] \<noteq> ''forward''" by simp
  ultimately show ?thesis using once_run_ends [OF p refl _ r] by (simp only: r fst_conv) blast
qed

section \<open>linkbit-relay\<close>

definition node_end :: "bool \<Rightarrow> node_outcome \<Rightarrow> program_end" where
  "node_end signalled out =
     (case out of
        RegistrationFailed e \<Rightarrow> Exited (if signalled then 0 else 1)
      | NodeTickerPanic \<Rightarrow> Panicked
      | NodeCancelled \<Rightarrow> Exited 0
      | DerpEnded None \<Rightarrow> Exited 0
      | DerpEnded (Some e) \<Rightarrow> Exited (if signalled then 0 else 1)
      | NodeRunning \<Rightarrow> StillUp)"

definition relay_main :: "environment \<Rightarrow> transport \<Rightarrow> node_event list \<Rightarrow> bool \<Rightarrow> http_request list \<times> program_end" where
  "relay_main env send events signalled =
     (case NewDERPHTTPService (rc_ListenAddr (LoadRelay env)) of
        None \<Rightarrow> ([], Exited 1)
      | Some addr \<Rightarrow>
          (case NewNode (LoadRelay env) True of
             None \<Rightarrow> ([], Exited 1)
           | Some n \<Rightarrow> (case node_run send events n of (sent, out) \<Rightarrow> (sent, node_end signalled out))))"

section \<open>linkbit-controller\<close>

datatype log_level = LevelDebug | LevelInfo | LevelWarn | LevelError

text \<open>
  \<open>strings.ToLower\<close> as far as it can give the ASCII words below: besides the ASCII letters, only
  U+0130 and U+212A have a lower case among them.
\<close>

function lower_runes :: "string \<Rightarrow> string" where
  "lower_runes s =
     (if s = [] then []
      else if prefix [CHR 0xE2, CHR 0x84, CHR 0xAA] s then CHR ''k'' # lower_runes (drop 3 s)
      else if prefix [CHR 0xC4, CHR 0xB0] s then CHR ''i'' # lower_runes (drop 2 s)
      else ascii_lower (hd s) # lower_runes (tl s))"
  by pat_completeness auto
termination by (relation "measure length") auto

declare lower_runes.simps [simp del]

definition parseLogLevel :: "string \<Rightarrow> log_level" where
  "parseLogLevel value =
     (let w = lower_runes (trim_space value)
      in if w = ''debug'' then LevelDebug
         else if w = ''warn'' \<or> w = ''warning'' then LevelWarn
         else if w = ''error'' then LevelError
         else LevelInfo)"

text \<open>The server it listens with, and the log level. An argument gives the stored database, None when it cannot be opened.\<close>

definition controller_main ::
  "lib \<Rightarrow> (string \<Rightarrow> string option) \<Rightarrow> environment \<Rightarrow> db option \<Rightarrow> gotime \<Rightarrow> env \<Rightarrow> program_end + server \<times> log_level" where
  "controller_main lib wg_pubkey vars opened now env =
     (case LoadController vars of
        (cfg, Some err) \<Rightarrow> Inl (Exited 1)
      | (cfg, None) \<Rightarrow>
          if vars ''LINKBIT_BOOTSTRAP_API_KEY'' = '''' then Inl (Exited 1)
          else case opened of
            None \<Rightarrow> Inl (Exited 1)
          | Some storage \<Rightarrow>
              (case Migrate now storage of
                 (Inl e, d) \<Rightarrow> Inl (Exited 1)
               | (Inr _, d) \<Rightarrow>
                   (case NewServer lib wg_pubkey cfg (vars ''LINKBIT_BOOTSTRAP_API_KEY'') d of
                      Inl e \<Rightarrow> Inl (Exited 1)
                    | Inr sv \<Rightarrow> Inr (snd (SyncHub env sv), parseLogLevel (cc_LogLevel cfg)))))"

text \<open>
  The program: it ends at once, or serves until listening ends, which is always with an error. The
  last argument is that error, None while the controller listens.
\<close>

definition controller_program :: "program_end + server \<times> log_level \<Rightarrow> string option \<Rightarrow> program_end" where
  "controller_program started listen_err =
     (case started of
        Inl e \<Rightarrow> e
      | Inr _ \<Rightarrow> (case listen_err of None \<Rightarrow> StillUp | Some err \<Rightarrow> Exited 1))"

lemma Migrate_again:
  assumes "db_ok d" and "db_faults d = []"
  shows "Migrate now d = (Inr (), d)"
proof -
  have "tbl_insert (\<lambda>a b. u_ID a = u_ID b) (default_user now) (db_users d) = None"
    "tbl_insert (\<lambda>a b. g_ID a = g_ID b) (default_group now) (db_groups d) = None"
    using assms(1) by (force simp: tbl_insert_None_iff db_ok_def default_user_def default_group_def)+
  with assms(2) show ?thesis by (simp add: Migrate_def then_stmt_def exec_quiet_def exec_stmt_def insert_or_ignore_def)
qed

text \<open>
  C37: A restarted controller knows everyone it knew: started on the database a controller left, with
  a working store, it has exactly that database, no relay session, and the bootstrap key of its
  environment opens the admin routes; and if the pepper is still the same, every device token is
  worth what it was.
\<close>

theorem controller_restart:
  assumes "db_ok (sv_db old)" and "db_faults (sv_db old) = []"
    and "controller_main lib wg_pubkey vars (Some (sv_db old)) now env = Inr (sv, level)"
  shows "sv_db sv = sv_db old \<and> sv_broker sv = NewTCPRelayBroker
       \<and> key_grants lib sv (vars ''LINKBIT_BOOTSTRAP_API_KEY'') [''admin'']
       \<and> (pepper sv = pepper old \<longrightarrow> (\<forall>did token d. credentials_of lib sv did token d = credentials_of lib old did token d))"
proof -
  obtain cfg sv0 where n: "NewServer lib wg_pubkey cfg (vars ''LINKBIT_BOOTSTRAP_API_KEY'') (sv_db old) = Inr sv0"
    and sv: "sv = snd (SyncHub env sv0)"
    using assms(3) Migrate_again [OF assms(1,2), of now]
    by (auto simp: controller_main_def split: prod.splits option.splits if_splits sum.splits)
  have s0: "sv_db sv0 = sv_db old" "sv_broker sv0 = NewTCPRelayBroker" "sv_cfg sv0 = cfg"
    "HashAPIKey (l_mac lib) (vars ''LINKBIT_BOOTSTRAP_API_KEY'') (pepper sv0) = Inr (sv_adminDigest sv0)"
    using n by (auto simp: NewServer_def pepper_def split: sum.splits)
  obtain x where h: "SyncHub env sv0 = (x, sv)" by (metis sv surjective_pairing)
  have "sv_db sv = sv_db old" using SyncHub_quiet [OF _ h] s0(1) assms(2) by simp
  moreover have "sv_broker sv = sv_broker sv0" "pepper sv = pepper sv0" "sv_adminDigest sv = sv_adminDigest sv0"
    using h by (auto simp: SyncHub_def pepper_def split: option.splits prod.splits)
  ultimately show ?thesis using s0(2,4) by (auto simp: key_grants_def credentials_of_def)
qed

definition demo_vars :: environment where
  "demo_vars = (\<lambda>k. '''')(''LINKBIT_API_KEY_PEPPER'' := ''p'', ''LINKBIT_BOOTSTRAP_API_KEY'' := ''root'')"

lemma controller_starts:
  assumes "db_ok d" and "db_faults d = []"
  obtains sv level where "controller_main demo_lib (\<lambda>k. None) demo_vars (Some d) (GoTime 1) demo_env = Inr (sv, level)"
    "pepper sv = ''p''" "level = LevelInfo"
proof -
  obtain cfg where c: "LoadController demo_vars = (cfg, None)" "cc_APIKeyPepper cfg = ''p''" "\<not> cc_HubWireGuardEnabled cfg"
    "cc_LogLevel cfg = ''info''"
    by (simp add: LoadController_def Let_def demo_vars_def getenvBool_def getenv_def)
  then obtain sv where n: "NewServer demo_lib (\<lambda>k. None) cfg ''root'' d = Inr sv" and sv: "sv_hub sv = None" "pepper sv = ''p''"
    by (simp add: NewServer_def HashAPIKey_def space_free_root NewWireGuardHub_def pepper_def)
  have t: "trim_space ''info'' = ''info''" by (rule trim_space_id) (simp add: space_free_def space_encodings_def)
  have level: "parseLogLevel ''info'' = LevelInfo" by (simp add: parseLogLevel_def t lower_runes.simps ascii_lower_def)
  have "controller_main demo_lib (\<lambda>k. None) demo_vars (Some d) (GoTime 1) demo_env = Inr (sv, LevelInfo)"
    using n sv(1) level c Migrate_again [OF assms, of "GoTime 1"]
    by (simp add: controller_main_def) (simp add: demo_vars_def SyncHub_def)
  then show thesis by (rule that) (simp_all add: sv)
qed

theorem controller_restart_witness:
  "\<exists>sv level. controller_main demo_lib (\<lambda>k. None) demo_vars (Some (sv_db (device_server [demo_device ''a'']))) (GoTime 1) demo_env
      = Inr (sv, level) \<and> credentials_of demo_lib sv ''a'' ''k'' (demo_device ''a'')"
proof -
  let ?old = "device_server [demo_device ''a'']"
  have ok: "db_ok (sv_db ?old)"
    using demo_db_ok by (simp add: db_ok_def device_server_def unique_on_def demo_db_def empty_db_def)
  have nf: "db_faults (sv_db ?old) = []" by simp
  obtain sv level where r: "controller_main demo_lib (\<lambda>k. None) demo_vars (Some (sv_db ?old)) (GoTime 1) demo_env = Inr (sv, level)"
    and p: "pepper sv = ''p''" by (rule controller_starts [OF ok nf])
  have "credentials_of demo_lib ?old ''a'' ''k'' (demo_device ''a'')" by (simp add: credentials_of_def demo_hash)
  with controller_restart [OF ok nf r] p have "credentials_of demo_lib sv ''a'' ''k'' (demo_device ''a'')" by simp
  with r show ?thesis by blast
qed

end
