(* ===== verification/Web_Console.thy ===== *)
theory Web_Console
  imports Http_Wire
begin

text \<open>
  internal/controller/static.go on a machine with files: the paths of Go's \<open>path/filepath\<close>, the
  single-page fallback \<open>spaFileServer\<close>, and what \<open>http.FileServer\<close> answers for the path it is
  handed. The files of the machine are a function from absolute paths, as lists of segments, to
  files and directories (no symbolic links); every file can be read. Conditional and range
  requests are not modelled.
\<close>

section \<open>Paths\<close>

text \<open>\<open>filepath.Clean\<close> (and \<open>path.Clean\<close>, the same on Unix): the segments kept so far, last first.\<close>

definition clean_step :: "bool \<Rightarrow> string list \<Rightarrow> string \<Rightarrow> string list" where
  "clean_step rooted kept s =
     (if s = '''' \<or> s = ''.'' then kept
      else if s = ''..'' then
        (case kept of
           [] \<Rightarrow> if rooted then [] else [''..'']
         | t # rest \<Rightarrow> if t = ''..'' then ''..'' # kept else rest)
      else s # kept)"

definition slashed :: "string list \<Rightarrow> string" where
  "slashed segs = (case segs of [] \<Rightarrow> '''' | s # rest \<Rightarrow> s @ join_path rest)"

abbreviation segments :: "string \<Rightarrow> string list" where "segments \<equiv> split_on CHR ''/''"

definition filepath_clean :: "string \<Rightarrow> string" where
  "filepath_clean p =
     (let rooted = prefix ''/'' p; out = slashed (rev (foldl (clean_step rooted) [] (segments p)))
      in if rooted then ''/'' @ out else if out = '''' then ''.'' else out)"

definition filepath_join :: "string \<Rightarrow> string \<Rightarrow> string" where
  "filepath_join a b =
     (if a \<noteq> '''' then filepath_clean (a @ ''/'' @ b) else if b \<noteq> '''' then filepath_clean b else '''')"

definition path_base :: "string \<Rightarrow> string" where
  "path_base p =
     (if p = '''' then ''.''
      else let q = trim_right p ''/'' in if q = '''' then ''/'' else last (segments q))"

section \<open>Files\<close>

datatype node = File string | Dir

record machine =
  m_files :: "string list \<Rightarrow> node option"
  m_cwd :: "string list"

text \<open>The operating system reads a relative path from the working directory and refuses NUL bytes.\<close>

definition resolve :: "machine \<Rightarrow> string \<Rightarrow> string list" where
  "resolve m p = rev (foldl (clean_step True) (if prefix ''/'' p then [] else rev (m_cwd m)) (segments p))"

definition os_stat :: "machine \<Rightarrow> string \<Rightarrow> node option" where
  "os_stat m p = (if CHR 0x00 \<in> set p then None else m_files m (resolve m p))"

definition stat_dir :: "machine \<Rightarrow> string \<Rightarrow> bool option" where
  "stat_dir m p = map_option (\<lambda>n. n = Dir) (os_stat m p)"

section \<open>The file server\<close>

datatype opened = Opened "string list" node | NotThere | Unsafe

text \<open>
  \<open>http.Dir.Open\<close>: the part of a path below the directory, and what is there. A path with a NUL
  byte or that is not UTF-8 is refused by \<open>filepath.Localize\<close>.
\<close>

definition below :: "string \<Rightarrow> string" where
  "below name = (let p = drop 1 (filepath_clean (''/'' @ name)) in if p = '''' then ''.'' else p)"

definition dir_open :: "machine \<Rightarrow> string \<Rightarrow> string \<Rightarrow> opened" where
  "dir_open m webRoot name =
     (let full = filepath_join (if webRoot = '''' then ''.'' else webRoot) (below name)
      in if CHR 0x00 \<in> set (below name) \<or> \<not> valid_utf8 (below name) then Unsafe
         else (case os_stat m full of None \<Rightarrow> NotThere | Some n \<Rightarrow> Opened (resolve m full) n))"

text \<open>A file, a listing of a directory, a redirection, 404, or 500.\<close>

datatype console_answer = Sent string | Listing "string list" | Moved string | Missing | Fault

definition serve_file :: "machine \<Rightarrow> string \<Rightarrow> string \<Rightarrow> string \<Rightarrow> console_answer" where
  "serve_file m webRoot url name =
     (if suffix ''/index.html'' url then Moved ''./''
      else case dir_open m webRoot name of
        NotThere \<Rightarrow> Missing
      | Unsafe \<Rightarrow> Fault
      | Opened p (File content) \<Rightarrow>
          if last url = CHR ''/''
          then (let base = path_base url in if base = ''/'' \<or> base = ''.'' then Fault else Moved (''../'' @ base))
          else Sent content
      | Opened p Dir \<Rightarrow>
          if last url \<noteq> CHR ''/'' then Moved (path_base url @ ''/'')
          else
            (case dir_open m webRoot ((if suffix ''/'' name then butlast name else name) @ ''/index.html'') of
               Opened p' (File content) \<Rightarrow> Sent content
             | Opened p' Dir \<Rightarrow> Listing p'
             | _ \<Rightarrow> Listing p))"

definition file_server :: "machine \<Rightarrow> string \<Rightarrow> string \<Rightarrow> console_answer" where
  "file_server m webRoot urlPath =
     (let url = (if prefix ''/'' urlPath then urlPath else ''/'' @ urlPath)
      in serve_file m webRoot url (filepath_clean url))"

text \<open>The console: the fallback in front of the file server.\<close>

definition web_console :: "machine \<Rightarrow> string \<Rightarrow> string \<Rightarrow> console_answer" where
  "web_console m webRoot urlPath =
     file_server m webRoot (spaFileServer filepath_clean filepath_join (stat_dir m) webRoot urlPath)"

section \<open>Clean paths\<close>

definition plain_seg :: "string \<Rightarrow> bool" where
  "plain_seg s \<longleftrightarrow> s \<notin> {'''', ''.'', ''..''} \<and> CHR ''/'' \<notin> set s"

lemma clean_step_plain [simp]: "plain_seg s \<Longrightarrow> clean_step r kept s = s # kept"
  by (simp add: plain_seg_def clean_step_def)

lemma clean_step_blank [simp]: "clean_step r kept '''' = kept" "clean_step r kept ''.'' = kept"
  by (simp_all add: clean_step_def)

lemma clean_step_up [simp]:
  "clean_step r [] ''..'' = (if r then [] else [''..''])"
  "clean_step r (t # rest) ''..'' = (if t = ''..'' then ''..'' # t # rest else rest)"
  by (simp_all add: clean_step_def)

lemma plain_not_up [simp]: "\<not> plain_seg ''..''"
  by (simp add: plain_seg_def)

lemma clean_step_cases [consumes 1]:
  assumes "CHR ''/'' \<notin> set s"
  obtains (blank) "s = ''''" | (dot) "s = ''.''" | (up) "s = ''..''" | (plain) "plain_seg s"
  using assms by (auto simp: plain_seg_def)

lemma foldl_clean_plain: "list_all plain_seg ss \<Longrightarrow> foldl (clean_step r) kept ss = rev ss @ kept"
  by (induction ss arbitrary: kept) simp_all

lemma segments_no_slash: "s \<in> set (segments p) \<Longrightarrow> CHR ''/'' \<notin> set s"
  by (induction p arbitrary: s) (auto split: list.splits if_splits)

lemma rooted_step: "CHR ''/'' \<notin> set x \<Longrightarrow> list_all plain_seg kept \<Longrightarrow> list_all plain_seg (clean_step True kept x)"
  by (cases kept; erule clean_step_cases) auto

lemma rooted_plain:
  "list_all plain_seg kept \<Longrightarrow> \<forall>s \<in> set xs. CHR ''/'' \<notin> set s
   \<Longrightarrow> list_all plain_seg (foldl (clean_step True) kept xs)"
  by (induction xs arbitrary: kept) (simp_all add: rooted_step)

text \<open>Without a root, the dots that lead out come first.\<close>

definition kept_seg :: "string \<Rightarrow> bool" where
  "kept_seg s \<longleftrightarrow> plain_seg s \<or> s = ''..''"

lemma kept_step: "CHR ''/'' \<notin> set x \<Longrightarrow> list_all kept_seg kept \<Longrightarrow> list_all kept_seg (clean_step r kept x)"
  by (cases kept; erule clean_step_cases) (auto simp: kept_seg_def)

lemma unrooted_kept:
  "list_all kept_seg kept \<Longrightarrow> \<forall>s \<in> set xs. CHR ''/'' \<notin> set s
   \<Longrightarrow> list_all kept_seg (foldl (clean_step r) kept xs)"
  by (induction xs arbitrary: kept) (simp_all add: kept_step)

lemma slashed_segments:
  assumes "ss \<noteq> []" and "\<forall>s \<in> set ss. CHR ''/'' \<notin> set s"
  shows "segments (slashed ss) = ss"
proof -
  obtain x xs where "ss = x # xs" using assms(1) by (cases ss) auto
  then show ?thesis using split_join_path [of x xs] assms(2) by (simp add: slashed_def)
qed

lemma kept_first: "kept_seg s \<Longrightarrow> \<exists>c w. s = c # w \<and> c \<noteq> CHR ''/''"
  by (cases s) (auto simp: kept_seg_def plain_seg_def)

lemma slashed_prefix: "list_all kept_seg ss \<Longrightarrow> \<not> prefix ''/'' (slashed ss)"
proof (cases ss)
  case (Cons s rest)
  assume "list_all kept_seg ss"
  with kept_first [of s] obtain c w where "s = c # w" "c \<noteq> CHR ''/''" by (auto simp: Cons)
  then show ?thesis by (simp add: Cons slashed_def)
qed (simp add: slashed_def)

lemma slashed_Nil_iff: "list_all kept_seg ss \<Longrightarrow> slashed ss = '''' \<longleftrightarrow> ss = []"
proof (cases ss)
  case (Cons s rest)
  assume "list_all kept_seg ss"
  with kept_first [of s] obtain c w where "s = c # w" by (auto simp: Cons)
  then show ?thesis by (simp add: Cons slashed_def)
qed (simp add: slashed_def)

lemma kept_seg_no_slash: "kept_seg s \<Longrightarrow> CHR ''/'' \<notin> set s"
  unfolding kept_seg_def plain_seg_def by (elim disjE) simp_all

lemma kept_no_slash: "list_all kept_seg ss \<Longrightarrow> \<forall>s \<in> set ss. CHR ''/'' \<notin> set s"
  using kept_seg_no_slash by (simp add: list_all_iff)

text \<open>The kept segments of a clean path, and that it starts where the path does.\<close>

definition cleaned :: "string \<Rightarrow> string list" where
  "cleaned p = rev (foldl (clean_step (prefix ''/'' p)) [] (segments p))"

lemma cleaned_kept: "list_all kept_seg (cleaned p)"
  using unrooted_kept [of "[]" "segments p"] by (simp add: cleaned_def list_all_rev segments_no_slash)

lemma cleaned_plain: "prefix ''/'' p \<Longrightarrow> list_all plain_seg (cleaned p)"
  using rooted_plain [of "[]" "segments p"] by (simp add: cleaned_def list_all_rev segments_no_slash)

lemma clean_cleaned:
  "filepath_clean p = (if prefix ''/'' p then CHR ''/'' # slashed (cleaned p)
     else if cleaned p = [] then ''.'' else slashed (cleaned p))"
  using slashed_Nil_iff [OF cleaned_kept, of p] unfolding filepath_clean_def Let_def cleaned_def [symmetric] by auto

lemma clean_prefix: "prefix ''/'' (filepath_clean p) \<longleftrightarrow> prefix ''/'' p"
  using slashed_prefix [OF cleaned_kept, of p] by (simp add: clean_cleaned)

text \<open>Cleaning a path does not change where it leads.\<close>

lemma foldl_cleaned:
  assumes "list_all plain_seg start" and "r \<Longrightarrow> start = []" and "\<forall>s \<in> set xs. CHR ''/'' \<notin> set s"
  shows "foldl (clean_step True) start (rev (foldl (clean_step r) [] xs)) = foldl (clean_step True) start xs"
  using assms(3)
proof (induction xs rule: rev_induct)
  case (snoc x xs)
  let ?kept = "foldl (clean_step r) [] xs" and ?at = "foldl (clean_step True) start"
  have IH: "?at (rev ?kept) = ?at xs" using snoc by simp
  have kept: "list_all kept_seg ?kept" using unrooted_kept [of "[]" xs r] snoc.prems by simp
  have plain: "list_all plain_seg (?at ys)" if "\<forall>s \<in> set ys. CHR ''/'' \<notin> set s" for ys
    using rooted_plain [OF assms(1) that] .
  have "CHR ''/'' \<notin> set x" using snoc.prems by simp
  then show ?case
  proof (cases rule: clean_step_cases)
    case up
    show ?thesis
    proof (cases ?kept)
      case Nil
      then show ?thesis using IH up assms(2) by (cases r) auto
    next
      case (Cons t rest)
      then have "plain_seg t \<or> t = ''..''" using kept by (auto simp: kept_seg_def)
      then show ?thesis
      proof
        assume t: "plain_seg t"
        then have "t \<noteq> ''..''" by auto
        moreover have "?at xs = t # ?at (rev rest)" using IH Cons t by simp
        ultimately show ?thesis using Cons up by simp
      qed (use IH Cons up in auto)
    qed
  qed (use IH in auto)
qed simp

lemma resolve_clean: "resolve m (filepath_clean p) = resolve m p" if "list_all plain_seg (m_cwd m)"
proof (cases "prefix ''/'' p")
  case True
  have "foldl (clean_step True) [] (segments (CHR ''/'' # slashed (cleaned p))) = foldl (clean_step True) [] (cleaned p)"
    using slashed_segments [OF _ kept_no_slash [OF cleaned_kept], of p]
    by (cases "cleaned p = []") (simp_all add: slashed_def)
  also have "\<dots> = foldl (clean_step True) [] (segments p)"
    using foldl_cleaned [of "[]" True "segments p"] True by (simp add: cleaned_def segments_no_slash)
  finally show ?thesis using True by (simp add: resolve_def clean_cleaned)
next
  case False
  let ?cwd = "rev (m_cwd m)"
  have "foldl (clean_step True) ?cwd (segments (filepath_clean p)) = foldl (clean_step True) ?cwd (cleaned p)"
    using slashed_segments [OF _ kept_no_slash [OF cleaned_kept], of p] False
    by (cases "cleaned p = []") (simp_all add: clean_cleaned)
  also have "\<dots> = foldl (clean_step True) ?cwd (segments p)"
    using foldl_cleaned [of ?cwd False "segments p"] False that by (simp add: cleaned_def segments_no_slash list_all_rev)
  finally show ?thesis using False clean_prefix [of p] by (simp add: resolve_def)
qed

lemma segments_append: "segments (a @ CHR ''/'' # b) = segments a @ segments b"
  by (induction a) (auto split: list.splits)

text \<open>A path joined to a directory leads from where the directory is.\<close>

lemma resolve_join:
  assumes "list_all plain_seg (m_cwd m)" and "a \<noteq> ''''"
  shows "resolve m (filepath_join a b) = rev (foldl (clean_step True) (rev (resolve m a)) (segments b))"
proof -
  have "resolve m (filepath_join a b) = resolve m (a @ ''/'' @ b)"
    using resolve_clean [OF assms(1)] assms(2) by (simp add: filepath_join_def)
  also have "\<dots> = rev (foldl (clean_step True) (rev (resolve m a)) (segments b))"
    using assms(2) segments_append [of a b] by (cases a) (auto simp: resolve_def simp del: split_on.simps(2))
  finally show ?thesis .
qed

section \<open>Opening files\<close>

lemma plain_kept: "list_all plain_seg ss \<Longrightarrow> list_all kept_seg ss"
  by (auto simp: list_all_iff kept_seg_def)

lemma cleaned_slashed:
  assumes "list_all plain_seg ss"
  shows "cleaned (CHR ''/'' # slashed ss) = ss" "cleaned (CHR ''/'' # CHR ''/'' # slashed ss) = ss"
    "ss \<noteq> [] \<Longrightarrow> cleaned (slashed ss) = ss"
proof -
  note k = plain_kept [OF assms]
  have "segments (slashed ss) = ss" if "ss \<noteq> []" using slashed_segments [OF that kept_no_slash [OF k]] .
  then show "cleaned (CHR ''/'' # slashed ss) = ss" "cleaned (CHR ''/'' # CHR ''/'' # slashed ss) = ss"
    "ss \<noteq> [] \<Longrightarrow> cleaned (slashed ss) = ss"
    using foldl_clean_plain [OF assms] slashed_prefix [OF k]
    by (cases "ss = []"; simp add: cleaned_def slashed_def)+
qed

text \<open>The address of a path below the web directory.\<close>

definition address :: "string list \<Rightarrow> string" where "address ss = CHR ''/'' # slashed ss"

lemma below_cleaned:
  "below name = (if cleaned (CHR ''/'' # name) = [] then ''.'' else slashed (cleaned (CHR ''/'' # name)))"
proof -
  have "list_all plain_seg (cleaned (CHR ''/'' # name))" by (rule cleaned_plain) simp
  from slashed_Nil_iff [OF plain_kept [OF this]] show ?thesis by (simp add: below_def clean_cleaned)
qed

lemma segments_below: "foldl (clean_step True) kept (segments (below name)) = rev (cleaned (CHR ''/'' # name)) @ kept"
proof -
  have plain: "list_all plain_seg (cleaned (CHR ''/'' # name))" by (rule cleaned_plain) simp
  then show ?thesis
    using foldl_clean_plain [OF plain] slashed_segments [OF _ kept_no_slash [OF plain_kept [OF plain]]]
    by (simp add: below_cleaned)
qed

lemma valid_slash [simp]: "valid_utf8 (CHR ''/'' # s) \<longleftrightarrow> valid_utf8 s"
proof -
  have "utf8_size (CHR ''/'' # s) = None"
    by (cases s) (auto simp: two_bytes_def three_bytes_def four_bytes_def byte_in_def split: list.splits)
  then show ?thesis by (simp add: valid_utf8_def first_unit_def char_unit_def)
qed

lemma valid_blank [simp]: "valid_utf8 ''''" "valid_utf8 ''.''"
  by (simp_all add: valid_utf8_def first_unit_def char_unit_def)

lemma valid_index [simp]: "valid_utf8 (address [''index.html''])"
  by code_simp

lemma valid_below: "valid_utf8 (below name) \<longleftrightarrow> valid_utf8 (address (cleaned (CHR ''/'' # name)))"
  by (simp add: below_cleaned address_def slashed_def)

lemma dir_open_eq:
  assumes "list_all plain_seg (m_cwd m)" and "webRoot \<noteq> ''''"
  shows "dir_open m webRoot name =
    (if CHR 0x00 \<in> set (below name) \<or> \<not> valid_utf8 (address (cleaned (CHR ''/'' # name))) then Unsafe
     else if CHR 0x00 \<in> set (filepath_join webRoot (below name)) then NotThere
     else (case m_files m (resolve m webRoot @ cleaned (CHR ''/'' # name)) of
             None \<Rightarrow> NotThere | Some n \<Rightarrow> Opened (resolve m webRoot @ cleaned (CHR ''/'' # name)) n))"
proof -
  have "resolve m (filepath_join webRoot (below name)) = resolve m webRoot @ cleaned (CHR ''/'' # name)"
    using resolve_join [OF assms] by (simp add: segments_below)
  then show ?thesis
    using assms(2) by (simp add: dir_open_def os_stat_def Let_def valid_below split: option.split)
qed


section \<open>The console\<close>


definition home_page :: "machine \<Rightarrow> string \<Rightarrow> console_answer" where
  "home_page m webRoot =
     (case m_files m (resolve m webRoot @ [''index.html'']) of
        Some (File content) \<Rightarrow> Sent content
      | Some Dir \<Rightarrow> Listing (resolve m webRoot @ [''index.html''])
      | None \<Rightarrow> Listing (resolve m webRoot))"

lemma set_segments: "(\<Union>s \<in> set (segments p). set s) \<subseteq> set p"
proof (induction p)
  case (Cons a p)
  then show ?case by (cases "segments p") auto
qed simp

lemma set_kept: "(\<Union>s \<in> set (foldl (clean_step r) kept xs). set s) \<subseteq> (\<Union>s \<in> set (kept @ xs). set s)"
proof (induction xs arbitrary: kept)
  case (Cons x xs)
  have "(\<Union>s \<in> set (clean_step r kept x). set s) \<subseteq> (\<Union>s \<in> set (kept @ [x]). set s)"
    by (cases kept) (auto simp: clean_step_def)
  with Cons [of "clean_step r kept x"] show ?case by auto
qed simp

lemma set_join_segments: "set (join_path zs) \<subseteq> {CHR ''/''} \<union> (\<Union>s \<in> set zs. set s)"
  by (induction zs) auto

lemma set_slashed: "set (slashed zs) \<subseteq> {CHR ''/''} \<union> (\<Union>s \<in> set zs. set s)"
  by (cases zs) (use set_join_segments in \<open>simp_all add: slashed_def, blast\<close>)

lemma set_clean: "set (filepath_clean p) \<subseteq> set p \<union> {CHR ''/'', CHR ''.''}"
proof -
  have "(\<Union>s \<in> set (cleaned p). set s) \<subseteq> (\<Union>s \<in> set (segments p). set s)"
    using set_kept [of "prefix ''/'' p" "[]" "segments p"] by (simp add: cleaned_def)
  with set_segments [of p] set_slashed [of "cleaned p"] have "set (slashed (cleaned p)) \<subseteq> set p \<union> {CHR ''/''}" by blast
  then show ?thesis by (auto simp: clean_cleaned)
qed

lemma dir_open_clean:
  assumes "list_all plain_seg (m_cwd m)" and "webRoot \<noteq> ''''" and "CHR 0x00 \<notin> set webRoot" and "CHR 0x00 \<notin> set name"
  shows "dir_open m webRoot name =
    (if \<not> valid_utf8 (address (cleaned (CHR ''/'' # name))) then Unsafe
     else case m_files m (resolve m webRoot @ cleaned (CHR ''/'' # name)) of
       None \<Rightarrow> NotThere | Some n \<Rightarrow> Opened (resolve m webRoot @ cleaned (CHR ''/'' # name)) n)"
proof -
  have "set (below name) \<subseteq> set name \<union> {CHR ''/'', CHR ''.''}"
    using set_clean [of "''/'' @ name"] set_drop_subset [of 1 "filepath_clean (''/'' @ name)"] by (auto simp: below_def Let_def)
  then have b: "CHR 0x00 \<notin> set (below name)" using assms(4) by auto
  moreover have "CHR 0x00 \<notin> set (filepath_join webRoot (below name))"
    using set_clean [of "webRoot @ ''/'' @ below name"] b assms(2,3) by (auto simp: filepath_join_def)
  ultimately show ?thesis by (simp add: dir_open_eq [OF assms(1,2)])
qed

lemma join_path_snoc: "join_path (ss @ [s]) = join_path ss @ CHR ''/'' # s"
  by (induction ss) simp_all

lemma address_snoc: "address (ss @ [s]) = join_path ss @ CHR ''/'' # s"
  using join_path_snoc [of ss s] by (cases ss) (simp_all add: address_def slashed_def)

lemma address_last:
  assumes "list_all kept_seg ss" and "ss \<noteq> []" and "plain_seg (last ss)"
  shows "last (address ss) \<noteq> CHR ''/''" "suffix ''/index.html'' (address ss) \<longleftrightarrow> last ss = ''index.html''"
proof -
  have ss: "ss = butlast ss @ [last ss]" using assms(2) by simp
  from assms(3) have "last ss \<noteq> '''' \<and> last (last ss) \<noteq> CHR ''/''" unfolding plain_seg_def by (metis insertI1 last_in_set)
  then show "last (address ss) \<noteq> CHR ''/''" using ss address_snoc [of "butlast ss" "last ss"] by simp
  have seg: "segments (address ss) = '''' # ss"
    using slashed_segments [OF assms(2) kept_no_slash [OF assms(1)]] by (simp add: address_def)
  show "suffix ''/index.html'' (address ss) \<longleftrightarrow> last ss = ''index.html''"
  proof
    assume "suffix ''/index.html'' (address ss)"
    then obtain w where "address ss = w @ CHR ''/'' # ''index.html''" by (auto simp: suffix_def)
    with seg segments_append [of w "''index.html''"] have "'''' # ss = segments w @ [''index.html'']"
      by (simp add: split_on_none)
    then show "last ss = ''index.html''" using assms(2) by (metis last_ConsR last_snoc)
  next
    assume "last ss = ''index.html''"
    then have "address ss = join_path (butlast ss) @ ''/index.html''" using ss address_snoc [of "butlast ss" "last ss"] by simp
    then show "suffix ''/index.html'' (address ss)" by (simp add: suffix_def)
  qed
qed

lemma clean_names:
  "''..'' \<notin> set xs \<Longrightarrow> foldl (clean_step r) kept xs = rev (filter (\<lambda>s. s \<noteq> '''' \<and> s \<noteq> ''.'') xs) @ kept"
  by (induction xs arbitrary: kept) (auto simp: clean_step_def)

lemma cleaned_names: "''..'' \<notin> set (segments p) \<Longrightarrow> cleaned p = filter (\<lambda>s. s \<noteq> '''' \<and> s \<noteq> ''.'') (segments p)"
  using clean_names [of "segments p" _ "[]"] by (simp add: cleaned_def)

text \<open>
  The paths \<open>http.ServeMux\<close> serves without a redirection: those \<open>cleanPath\<close>, which is \<open>path.Clean\<close>
  with a slash at the end put back, leaves as they are. This is what \<open>clean_segments\<close> says.
\<close>

definition cleanPath :: "string \<Rightarrow> string" where
  "cleanPath p =
     (let q = (if prefix ''/'' p then p else CHR ''/'' # p); np = filepath_clean q
      in if last q = CHR ''/'' \<and> np \<noteq> ''/'' then np @ ''/'' else np)"

lemma slashed_snoc: "ss \<noteq> [] \<Longrightarrow> slashed (ss @ [s]) = slashed ss @ CHR ''/'' # s"
  using join_path_snoc by (cases ss) (simp_all add: slashed_def)

lemma slashed_of_segments: "slashed (segments s) = s"
proof (induction s)
  case (Cons c s)
  then show ?case by (cases "segments s") (auto simp: slashed_def)
qed (simp add: slashed_def)

lemma plain_clean_segments:
  assumes "list_all plain_seg ss" and "l = '''' \<or> plain_seg l"
  shows "clean_segments (ss @ [l])"
  using assms by (auto simp: clean_segments_def list_all_iff plain_seg_def)

lemma cleanPath_iff: "cleanPath (CHR ''/'' # rel) = CHR ''/'' # rel \<longleftrightarrow> clean_segments (segments rel)"
proof -
  let ?p = "CHR ''/'' # rel" and ?S = "segments rel"
  let ?C = "cleaned ?p"
  have plain: "list_all plain_seg ?C" by (rule cleaned_plain) simp
  note kept = plain_kept [OF plain]
  have np: "filepath_clean ?p = CHR ''/'' # slashed ?C" by (simp add: clean_cleaned)
  show ?thesis
  proof
    assume eq: "cleanPath ?p = ?p"
    show "clean_segments ?S"
    proof (cases "last ?p = CHR ''/'' \<and> filepath_clean ?p \<noteq> ''/''")
      case True
      then have rel: "rel = slashed ?C @ CHR ''/'' # ''''" and ne: "?C \<noteq> []"
        using eq np by (auto simp: cleanPath_def slashed_def)
      have "?S = ?C @ ['''']"
        using segments_append [of "slashed ?C" "''''"] slashed_segments [OF ne kept_no_slash [OF kept]] rel by simp
      then show ?thesis using plain_clean_segments [OF plain, of "''''"] by simp
    next
      case False
      then have rel: "rel = slashed ?C" using eq np by (auto simp: cleanPath_def)
      show ?thesis
      proof (cases "?C = []")
        case True
        with rel show ?thesis by (simp add: slashed_def clean_segments_def)
      next
        case ne: False
        have "?S = ?C" using slashed_segments [OF ne kept_no_slash [OF kept]] rel by simp
        moreover have "list_all plain_seg (butlast ?C)" "plain_seg (last ?C)" "?C = butlast ?C @ [last ?C]"
          using plain ne by (auto simp: list_all_iff dest: in_set_butlastD)
        ultimately show ?thesis using plain_clean_segments by metis
      qed
    qed
  next
    assume clean: "clean_segments ?S"
    define B where "B = butlast ?S"
    define l where "l = last ?S"
    have S: "?S = B @ [l]" by (simp add: B_def l_def)
    have rel: "rel = slashed (B @ [l])" using slashed_of_segments [of rel] by (simp add: S)
    have no: "CHR ''/'' \<notin> set s" if "s \<in> set ?S" for s using segments_no_slash [OF that] .
    have plainB: "list_all plain_seg B" using clean no by (auto simp: S clean_segments_def list_all_iff plain_seg_def)
    have "''..'' \<notin> set (segments ?p)" using clean by (simp add: clean_segments_def)
    from cleaned_names [OF this] have C: "?C = B @ (if l = '''' then [] else [l])"
      using clean plainB by (auto simp: S clean_segments_def filter_id_conv list_all_iff plain_seg_def)
    show "cleanPath ?p = ?p"
    proof (cases "l = ''''")
      case True
      have "slashed B \<noteq> ''''" if "B \<noteq> []" using slashed_Nil_iff [OF plain_kept [OF plainB]] that by simp
      then show ?thesis
        using True C np rel slashed_snoc [of B l] by (cases "B = []") (auto simp: cleanPath_def slashed_def)
    next
      case False
      then have l: "plain_seg l" using clean no by (auto simp: S clean_segments_def plain_seg_def)
      have "list_all kept_seg (B @ [l])" using plainB l by (auto simp: kept_seg_def list_all_iff)
      from address_last(1) [OF this] l have "last ?p \<noteq> CHR ''/''" by (simp add: address_def rel)
      then show ?thesis using False C np rel by (simp add: cleanPath_def)
    qed
  qed
qed

section \<open>What is answered\<close>

lemma open_url:
  assumes "list_all plain_seg (m_cwd m)" and "webRoot \<noteq> ''''" and "CHR 0x00 \<notin> set webRoot"
    and "prefix ''/'' url" and "CHR 0x00 \<notin> set url"
  shows "dir_open m webRoot (filepath_clean url) =
    (if \<not> valid_utf8 (address (cleaned url)) then Unsafe
     else case m_files m (resolve m webRoot @ cleaned url) of
       None \<Rightarrow> NotThere | Some n \<Rightarrow> Opened (resolve m webRoot @ cleaned url) n)"
proof -
  have "filepath_clean url = CHR ''/'' # slashed (cleaned url)" using assms(4) by (simp add: clean_cleaned)
  then have "cleaned (CHR ''/'' # filepath_clean url) = cleaned url"
    using cleaned_slashed(2) [OF cleaned_plain [OF assms(4)]] by simp
  moreover have "CHR 0x00 \<notin> set (filepath_clean url)" using set_clean [of url] assms(5) by auto
  ultimately show ?thesis
    using dir_open_clean [OF assms(1-3), of "filepath_clean url"] by (simp cong: option.case_cong)
qed

lemma file_server_plain:
  assumes cwd: "list_all plain_seg (m_cwd m)" and webRoot: "webRoot \<noteq> ''''" "CHR 0x00 \<notin> set webRoot"
    and url: "prefix ''/'' url" "CHR 0x00 \<notin> set url" "last url \<noteq> CHR ''/''" "\<not> suffix ''/index.html'' url"
  shows "file_server m webRoot url =
    (if \<not> valid_utf8 (address (cleaned url)) then Fault
     else case m_files m (resolve m webRoot @ cleaned url) of
       None \<Rightarrow> Missing | Some Dir \<Rightarrow> Moved (path_base url @ ''/'') | Some (File content) \<Rightarrow> Sent content)"
  using open_url [OF cwd webRoot url(1,2)] url
  by (simp add: file_server_def serve_file_def Let_def split: option.split node.split)

lemma file_server_home:
  assumes "list_all plain_seg (m_cwd m)" and "webRoot \<noteq> ''''" and "CHR 0x00 \<notin> set webRoot"
    and "m_files m (resolve m webRoot) = Some Dir" and "prefix ''/'' url" "CHR 0x00 \<notin> set url" "last url = CHR ''/''" "cleaned url = []"
  shows "file_server m webRoot url = home_page m webRoot"
proof -
  have "filepath_clean url = ''/''" "cleaned ''//index.html'' = [''index.html'']"
    using assms(5,8) by (simp_all add: clean_cleaned cleaned_def slashed_def clean_step_def)
  moreover have "valid_utf8 (address [])" by (simp add: address_def slashed_def)
  moreover have "\<not> suffix ''/index.html'' url" using assms(7) by (auto simp: suffix_def)
  ultimately show ?thesis
    using open_url [OF assms(1-3,5,6)] dir_open_clean [OF assms(1-3), of "''/index.html''"] assms(4,5,7,8)
    by (simp add: file_server_def serve_file_def Let_def home_page_def split: option.split node.split)
qed

lemma file_server_root:
  assumes "list_all plain_seg (m_cwd m)" and "webRoot \<noteq> ''''" and "CHR 0x00 \<notin> set webRoot"
    and "m_files m (resolve m webRoot) = Some Dir"
  shows "file_server m webRoot ''/'' = home_page m webRoot"
  by (rule file_server_home [OF assms]) (simp_all add: cleaned_def)

text \<open>Where the fallback looks.\<close>

lemma stat_rel:
  assumes "list_all plain_seg (m_cwd m)" and "webRoot \<noteq> ''''" and "CHR 0x00 \<notin> set webRoot" and "CHR 0x00 \<notin> set rel"
  shows "stat_dir m (filepath_join webRoot (filepath_clean rel)) =
    map_option (\<lambda>n. n = Dir) (m_files m (rev (foldl (clean_step True) (rev (resolve m webRoot)) (segments (filepath_clean rel)))))"
proof -
  have "CHR 0x00 \<notin> set (filepath_join webRoot (filepath_clean rel))"
    using set_clean [of "webRoot @ ''/'' @ filepath_clean rel"] set_clean [of rel] assms(2-4)
    by (auto simp: filepath_join_def)
  then show ?thesis using resolve_join [OF assms(1,2)] by (simp add: stat_dir_def os_stat_def)
qed

lemma clean_slashed: "list_all plain_seg ss \<Longrightarrow> filepath_clean (slashed ss) = (if ss = [] then ''.'' else slashed ss)"
  using slashed_prefix [OF plain_kept, of ss]
  by (cases "ss = []") (simp_all add: clean_cleaned cleaned_slashed, simp add: slashed_def cleaned_def)

lemma slashed_not_dot: "list_all plain_seg ss \<Longrightarrow> slashed ss \<noteq> ''.''"
proof
  assume "list_all plain_seg ss" "slashed ss = ''.''"
  moreover from this have "ss \<noteq> []" by (auto simp: slashed_def)
  ultimately have "segments ''.'' = ss"
    using slashed_segments [OF _ kept_no_slash [OF plain_kept], of ss] by simp
  then have "ss = [''.'']" by simp
  with \<open>list_all plain_seg ss\<close> show False by (simp add: plain_seg_def)
qed

text \<open>
  C17: What the console answers for a path without dot segments, doubled slashes or a slash at the
  end: the content of the file the path names below the web directory (a redirection when it is an
  \<open>index.html\<close>, which is served under the path of its directory, and an error when its name is not
  UTF-8), and for every other such path, directories included, the start page, so that the
  client's router can read the path.
\<close>

theorem console_answer:
  assumes "list_all plain_seg (m_cwd m)" and "webRoot \<noteq> ''''" and "CHR 0x00 \<notin> set webRoot"
    and "m_files m (resolve m webRoot) = Some Dir" and "list_all plain_seg ss" and "CHR 0x00 \<notin> set (address ss)"
  shows "web_console m webRoot (address ss) =
    (case m_files m (resolve m webRoot @ ss) of
       Some (File content) \<Rightarrow>
         if last ss = ''index.html'' then Moved ''./'' else if valid_utf8 (address ss) then Sent content else Fault
     | _ \<Rightarrow> home_page m webRoot)"
proof (cases "ss = []")
  case True
  have "web_console m webRoot ''/'' = file_server m webRoot ''/''"
    by (simp add: web_console_def spaFileServer_def Let_def split: option.split)
  then show ?thesis
    using file_server_root [OF assms(1-4)] assms(4) True by (simp add: address_def slashed_def)
next
  case False
  have "plain_seg (last ss)" using assms(5) False by (simp add: list_all_iff)
  note last = address_last [OF plain_kept [OF assms(5)] False this]
  have rel: "drop 1 (address ss) = slashed ss" "prefix ''/'' (address ss)" "CHR 0x00 \<notin> set (slashed ss)"
    using assms(6) by (simp_all add: address_def)
  have clean: "filepath_clean (slashed ss) = slashed ss" "slashed ss \<noteq> ''.''"
    using clean_slashed [OF assms(5)] slashed_not_dot [OF assms(5)] False by simp_all
  have seg: "segments (slashed ss) = ss"
    using slashed_segments [OF False kept_no_slash [OF plain_kept [OF assms(5)]]] .
  have stat: "stat_dir m (filepath_join webRoot (slashed ss)) = map_option (\<lambda>n. n = Dir) (m_files m (resolve m webRoot @ ss))"
    using stat_rel [OF assms(1-3) rel(3)] by (simp add: clean seg foldl_clean_plain [OF assms(5)])
  have "cleaned (address ss) = ss" using cleaned_slashed(1) [OF assms(5)] by (simp add: address_def)
  note served = file_server_plain [OF assms(1-3) rel(2) assms(6) last(1), unfolded this]
  have redirect: "file_server m webRoot (address ss) = Moved ''./''" if "last ss = ''index.html''"
    using that last(2) rel(2) by (simp add: file_server_def serve_file_def)
  show ?thesis
    using stat served redirect last(2) file_server_root [OF assms(1-4)] rel clean
    by (auto simp: web_console_def spaFileServer_def Let_def split: option.split node.split)
qed

section \<open>Any path\<close>







text \<open>
  The fallback looks outside the web directory: it asks the file system about the path as it was
  sent, dots included, and the file server then reads it below the web directory. So the answer
  tells anyone whether a file exists anywhere on the controller's machine: 404 when it does, the
  start page when it does not.
\<close>

lemma ups_rooted: "foldl (clean_step True) kept (replicate k ''..'') = drop k kept" if "list_all plain_seg kept"
  using that
proof (induction k arbitrary: kept)
  case (Suc k)
  then show ?case by (cases kept) auto
qed simp

lemma ups_unrooted: "foldl (clean_step False) [] (replicate k ''..'') = replicate k ''..''"
proof -
  have "foldl (clean_step False) (replicate n ''..'') (replicate k ''..'') = replicate (k + n) ''..''" for n
  proof (induction k arbitrary: n)
    case (Suc k)
    have "clean_step False (replicate n ''..'') ''..'' = replicate (Suc n) ''..''" by (cases n) simp_all
    then show ?case using Suc [of "Suc n"] by simp
  qed simp
  from this [of 0] show ?thesis by simp
qed

theorem console_probe:
  assumes "list_all plain_seg (m_cwd m)" and "webRoot \<noteq> ''''" and "CHR 0x00 \<notin> set webRoot"
    and "m_files m (resolve m webRoot) = Some Dir" and "list_all plain_seg t" and "t \<noteq> []" and "last t \<noteq> ''index.html''"
    and "CHR 0x00 \<notin> set (address (replicate k ''..'' @ t))" and "length (resolve m webRoot) \<le> k"
    and "m_files m (resolve m webRoot @ t) = None" and "valid_utf8 (address t)"
  shows "web_console m webRoot (address (replicate k ''..'' @ t)) =
    (case m_files m t of Some (File content) \<Rightarrow> Missing | _ \<Rightarrow> home_page m webRoot)"
proof -
  let ?us = "replicate k ''..'' @ t"
  have kept: "list_all kept_seg ?us" using plain_kept [OF assms(5)] by (auto simp: kept_seg_def list_all_iff)
  have ne: "?us \<noteq> []" using assms(6) by simp
  note seg = slashed_segments [OF ne kept_no_slash [OF kept]]
  have pl: "plain_seg (last ?us)" using assms(5,6) by (simp add: list_all_iff)
  note last = address_last [OF kept ne pl]
  have up: "prefix ''/'' (address ?us)" "last (address ?us) \<noteq> CHR ''/''" "\<not> suffix ''/index.html'' (address ?us)"
    using last assms(6,7) by (simp_all add: address_def)
  have cu: "cleaned (address ?us) = t"
    using seg ups_rooted [of "[]" k] foldl_clean_plain [OF assms(5)] by (simp add: cleaned_def address_def)
  note served = file_server_plain [OF assms(1-3) up(1) assms(8) up(2,3), unfolded cu assms(10)]
  have "cleaned (slashed ?us) = ?us"
    using seg ups_unrooted [of k] foldl_clean_plain [OF assms(5)] slashed_prefix [OF kept] by (simp add: cleaned_def)
  then have clean: "filepath_clean (slashed ?us) = slashed ?us"
    using slashed_prefix [OF kept] ne by (metis clean_cleaned)
  have rel: "drop 1 (address ?us) = slashed ?us" "CHR 0x00 \<notin> set (slashed ?us)" using assms(8) by (simp_all add: address_def)
  have not_dot: "slashed ?us \<noteq> ''.''"
  proof
    assume e: "slashed ?us = ''.''"
    have "?us = segments ''.''" using seg by (simp only: e)
    also have "\<dots> = [''.'']" by simp
    finally have l: "last ?us = last [''.'']" by (rule arg_cong)
    from pl [unfolded l] show False by (simp add: plain_seg_def)
  qed
  have plain_root: "list_all plain_seg (rev (resolve m webRoot))"
    using rooted_plain [of _ "segments webRoot"] assms(1) by (simp add: resolve_def list_all_rev segments_no_slash)
  have "stat_dir m (filepath_join webRoot (slashed ?us)) = map_option (\<lambda>n. n = Dir) (m_files m t)"
    using stat_rel [OF assms(1-3) rel(2)] ups_rooted [OF plain_root] foldl_clean_plain [OF assms(5)] assms(9)
    by (simp add: clean seg)
  then show ?thesis
    using served rel(1) up(1) clean not_dot file_server_root [OF assms(1-4)] assms(11)
    by (auto simp: web_console_def spaFileServer_def Let_def split: option.split node.split)
qed

section \<open>A web directory\<close>

definition demo_machine :: machine where
  "demo_machine = \<lparr>m_files = map_of [([''srv'', ''web''], Dir), ([''srv'', ''web'', ''index.html''], File ''start''),
       ([''srv'', ''web'', ''app.js''], File ''code''), ([''srv'', ''web'', ''css''], Dir), ([''etc'', ''passwd''], File ''users'')],
     m_cwd = [''srv'']\<rparr>"

lemma demo_machine_simps [simp]: "list_all plain_seg (m_cwd demo_machine)" "resolve demo_machine ''web'' = [''srv'', ''web'']"
  "resolve demo_machine ''/srv/web'' = [''srv'', ''web'']"
  by (simp_all add: demo_machine_def plain_seg_def resolve_def clean_step_def)

lemma demo_names [simp]: "valid_utf8 ''app.js''" "valid_utf8 ''etc/passwd''" "valid_utf8 ''etc/shadow''"
  by code_simp+

theorem console_answer_witness:
  "web_console demo_machine ''web'' (address [''app.js'']) = Sent ''code''
   \<and> web_console demo_machine ''web'' (address [''devices'', ''d1'']) = Sent ''start''"
  using console_answer [of demo_machine "''web''" "[''app.js'']"] console_answer [of demo_machine "''web''" "[''devices'', ''d1'']"]
  by (simp add: demo_machine_def [THEN arg_cong [of _ _ m_files]] plain_seg_def address_def slashed_def home_page_def)


theorem console_probe_witness:
  "web_console demo_machine ''web'' ''/../../etc/passwd'' = Missing
   \<and> web_console demo_machine ''web'' ''/../../etc/shadow'' = Sent ''start''"
  using console_probe [of demo_machine "''web''" "[''etc'', ''passwd'']" 2]
    console_probe [of demo_machine "''web''" "[''etc'', ''shadow'']" 2]
  by (simp add: demo_machine_def [THEN arg_cong [of _ _ m_files]] plain_seg_def address_def slashed_def home_page_def
      numeral_2_eq_2)

end
