(* ===== verification/Schema.thy ===== *)
theory Schema
  imports Sqlite_Rows
begin

text \<open>
  Opening and migrating the database file (\<open>New\<close> and \<open>Migrate\<close> of
  internal/store/sqlite/store.go) with its schema: a file has tables, a table its columns and
  rows, and may have been written by an earlier version, whose devices have no token digest or no
  endpoint. Every single SQL statement of the migration can fail. Once a file has the schema, the
  tables of \<open>Sqlite_Rows\<close> are its rows.
\<close>

section \<open>Files and statements\<close>

record sqlite_file =
  sf_tables :: "string \<Rightarrow> (string list \<times> sql_row list) option"
  sf_faults :: "bool list"

record sqlite_store =
  ss_path :: string
  ss_file :: "sqlite_file option"

text \<open>\<open>sql.Open\<close> is an argument: the file, or an error. A closed store has no file.\<close>

definition New :: "(string \<Rightarrow> sqlite_file option) \<Rightarrow> string \<Rightarrow> sqlite_store option" where
  "New sql_open path =
     (case sql_open path of None \<Rightarrow> None | Some file \<Rightarrow> Some \<lparr>ss_path = path, ss_file = Some file\<rparr>)"

definition Path :: "sqlite_store \<Rightarrow> string" where "Path s = ss_path s"

definition Close :: "sqlite_store \<Rightarrow> sqlite_store" where "Close s = s\<lparr>ss_file := None\<rparr>"

text \<open>A statement gives the text of its error, if any.\<close>

type_synonym file_stmt = "sqlite_file \<Rightarrow> string option \<times> sqlite_file"

definition exec_file :: "file_stmt \<Rightarrow> file_stmt" where
  "exec_file f s =
     (case sf_faults s of
        [] \<Rightarrow> f s
      | fault # rest \<Rightarrow>
          if fault then (Some ''disk I/O error (10)'', s\<lparr>sf_faults := rest\<rparr>) else f (s\<lparr>sf_faults := rest\<rparr>))"

definition put_table :: "string \<Rightarrow> string list \<Rightarrow> sql_row list \<Rightarrow> sqlite_file \<Rightarrow> sqlite_file" where
  "put_table t cols rows s = s\<lparr>sf_tables := (sf_tables s)(t \<mapsto> (cols, rows))\<rparr>"

definition pragma_foreign_keys :: file_stmt where
  "pragma_foreign_keys = exec_file (\<lambda>s. (None, s))"

definition create_table :: "string \<times> string list \<Rightarrow> file_stmt" where
  "create_table = (\<lambda>(t, cols). exec_file (\<lambda>s.
     (None, case sf_tables s t of None \<Rightarrow> put_table t cols [] s | Some _ \<Rightarrow> s)))"

definition no_table :: "string \<Rightarrow> string" where
  "no_table t = ''SQL logic error: no such table: '' @ t @ '' (1)''"

text \<open>\<open>ALTER TABLE t ADD COLUMN c TEXT NOT NULL DEFAULT ''\<close>.\<close>

definition add_column :: "string \<Rightarrow> string \<Rightarrow> file_stmt" where
  "add_column t c = exec_file (\<lambda>s.
     (case sf_tables s t of
        None \<Rightarrow> (Some (no_table t), s)
      | Some (cols, rows) \<Rightarrow>
          if c \<in> set cols then (Some (''SQL logic error: duplicate column name: '' @ c @ '' (1)''), s)
          else (None, put_table t (cols @ [c]) (map (\<lambda>r. r(c := Text '''')) rows) s)))"

definition insert_or_ignore_into :: "string \<Rightarrow> string list \<Rightarrow> sql_value list \<Rightarrow> file_stmt" where
  "insert_or_ignore_into t cols vals = exec_file (\<lambda>s.
     (case sf_tables s t of
        None \<Rightarrow> (Some (no_table t), s)
      | Some (cs, rows) \<Rightarrow>
          if \<not> set cols \<subseteq> set cs then (Some (''SQL logic error: table '' @ t @ '' has no such column (1)''), s)
          else if list_ex (conflicts t (row_of cols vals)) rows then (None, s)
          else (None, put_table t cs (rows @ [row_of cols vals]) s)))"

text \<open>The statements of one \<open>ExecContext\<close> run up to the first error.\<close>

fun exec_script :: "file_stmt list \<Rightarrow> file_stmt" where
  "exec_script [] s = (None, s)"
| "exec_script (f # fs) s =
     (case f s of (Some e, s') \<Rightarrow> (Some e, s') | (None, s') \<Rightarrow> exec_script fs s')"

section \<open>The migration\<close>

definition schema :: "(string \<times> string list) list" where
  "schema =
    [(''relays'', [''id'', ''name'', ''region'', ''public_url'', ''ipv4'', ''ipv6'', ''status'', ''load'',
        ''last_seen_at'', ''registered'']),
     (''users'', [''id'', ''name'', ''email'', ''role'', ''created_at'']),
     (''groups'', [''id'', ''name'', ''description'', ''created_at'']),
     (''invitations'', [''id'', ''token_hash'', ''user_id'', ''group_id'', ''reusable'', ''expires_at'',
        ''used_at'', ''created_at'']),
     (''api_keys'', [''id'', ''name'', ''digest'', ''scope'', ''created_at'', ''last_used_at'', ''revoked_at'']),
     (''devices'', [''id'', ''user_id'', ''group_id'', ''name'', ''virtual_ip'', ''public_key'', ''endpoint'',
        ''token_hash'', ''status'', ''last_seen_at'', ''created_at'', ''fingerprint'']),
     (''policies'', [''id'', ''name'', ''source_id'', ''target_id'', ''ports_json'', ''protocol'', ''enabled'',
        ''description'', ''created_at'', ''updated_at''])]"

definition isDuplicateColumn :: "string option \<Rightarrow> bool" where
  "isDuplicateColumn err = (case err of None \<Rightarrow> False | Some e \<Rightarrow> contains_string e ''duplicate column name'')"

fun add_columns :: "string list \<Rightarrow> file_stmt" where
  "add_columns [] s = (None, s)"
| "add_columns (c # cs) s =
     (case add_column ''devices'' c s of
        (err, s') \<Rightarrow> if err \<noteq> None \<and> \<not> isDuplicateColumn err then (err, s') else add_columns cs s')"

definition default_rows :: "gotime \<Rightarrow> file_stmt list" where
  "default_rows now =
    [insert_or_ignore_into ''users'' [''id'', ''name'', ''email'', ''role'', ''created_at'']
       [Text ''default-user'', Text ''Default User'', Text '''', Text ''admin'', time_text now],
     insert_or_ignore_into ''groups'' [''id'', ''name'', ''description'', ''created_at'']
       [Text ''default'', Text ''Default'', Text ''Default Linkbit device group'', time_text now]]"

definition migrate_file :: "gotime \<Rightarrow> file_stmt" where
  "migrate_file now s =
     (case exec_script (pragma_foreign_keys # map create_table schema) s of
        (Some e, s1) \<Rightarrow> (Some e, s1)
      | (None, s1) \<Rightarrow>
          (case add_columns [''token_hash'', ''endpoint''] s1 of
             (Some e, s2) \<Rightarrow> (Some e, s2)
           | (None, s2) \<Rightarrow> exec_script (default_rows now) s2))"

section \<open>What the statements keep\<close>

text \<open>A file of this version or an earlier one, whose rows have a value in just the columns of their table.\<close>

definition later_columns :: "string \<Rightarrow> string list" where
  "later_columns t = (if t = ''devices'' then [''token_hash'', ''endpoint''] else [])"

definition upgradable :: "sqlite_file \<Rightarrow> bool" where
  "upgradable s \<longleftrightarrow> (\<forall>(t, cols) \<in> set schema. \<forall>cs rows. sf_tables s t = Some (cs, rows) \<longrightarrow>
     set cs \<subseteq> set cols \<and> set cols \<subseteq> set cs \<union> set (later_columns t))"

definition typed :: "sqlite_file \<Rightarrow> bool" where
  "typed s \<longleftrightarrow> (\<forall>t cs rows. sf_tables s t = Some (cs, rows) \<longrightarrow> list_all (\<lambda>r. \<forall>c. r c = Null \<longleftrightarrow> c \<notin> set cs) rows)"

text \<open>A later file has every table, with its columns and its rows, and empty text in the columns that were added.\<close>

definition filled :: "string list \<Rightarrow> sql_row \<Rightarrow> sql_row" where
  "filled ext r c = (if c \<in> set ext then Text '''' else r c)"

definition evolves :: "sqlite_file \<Rightarrow> sqlite_file \<Rightarrow> bool" where
  "evolves s s' \<longleftrightarrow> (\<forall>t cs rows. sf_tables s t = Some (cs, rows) \<longrightarrow>
     (\<exists>ext extra. sf_tables s' t = Some (cs @ ext, map (filled ext) rows @ extra) \<and> set ext \<inter> set cs = {}))"

lemma filled_simps [simp]: "filled [] = (\<lambda>r. r)" "filled b (filled a r) = filled (a @ b) r"
  by (auto simp: filled_def fun_eq_iff)

lemma evolves_refl: "sf_tables s' = sf_tables s \<Longrightarrow> evolves s s'"
  unfolding evolves_def by (auto intro: exI [of _ "[]"])

lemma evolves_trans: "evolves s s' \<Longrightarrow> evolves s' s'' \<Longrightarrow> evolves s s''"
  unfolding evolves_def
proof (intro allI impI)
  fix t cs rows
  assume 1: "\<forall>t cs rows. sf_tables s t = Some (cs, rows) \<longrightarrow>
      (\<exists>ext extra. sf_tables s' t = Some (cs @ ext, map (filled ext) rows @ extra) \<and> set ext \<inter> set cs = {})"
    and 2: "\<forall>t cs rows. sf_tables s' t = Some (cs, rows) \<longrightarrow>
      (\<exists>ext extra. sf_tables s'' t = Some (cs @ ext, map (filled ext) rows @ extra) \<and> set ext \<inter> set cs = {})"
    and "sf_tables s t = Some (cs, rows)"
  then obtain e x where t': "sf_tables s' t = Some (cs @ e, map (filled e) rows @ x)" "set e \<inter> set cs = {}" by blast
  then obtain e' x' where "sf_tables s'' t = Some ((cs @ e) @ e', map (filled e') (map (filled e) rows @ x) @ x')"
    "set e' \<inter> set (cs @ e) = {}" using 2 by blast
  with t' show "\<exists>ext extra. sf_tables s'' t = Some (cs @ ext, map (filled ext) rows @ extra) \<and> set ext \<inter> set cs = {}"
    by (intro exI [of _ "e @ e'"] exI [of _ "map (filled e') x @ x'"]) (auto simp: comp_def)
qed

definition keeps_file :: "file_stmt \<Rightarrow> bool" where
  "keeps_file f \<longleftrightarrow> (\<forall>s e s'. upgradable s \<longrightarrow> typed s \<longrightarrow> f s = (e, s') \<longrightarrow> upgradable s' \<and> typed s' \<and> evolves s s')"

lemma keeps_fileD:
  "keeps_file f \<Longrightarrow> upgradable s \<Longrightarrow> typed s \<Longrightarrow> f s = (e, s') \<Longrightarrow> upgradable s' \<and> typed s' \<and> evolves s s'"
  unfolding keeps_file_def by blast

lemma then_keeps:
  assumes "keeps_file f" and "keeps_file g" and "upgradable s" and "typed s" and "f s = (x, t)" and "g t = (e, s')"
  shows "upgradable s' \<and> typed s' \<and> evolves s s'"
  using keeps_fileD [OF assms(1,3,4,5)] keeps_fileD [OF assms(2) _ _ assms(6)] evolves_trans by blast

lemma same_tables_upgradable: "sf_tables s' = sf_tables s \<Longrightarrow> upgradable s' = upgradable s \<and> typed s' = typed s"
  by (simp add: upgradable_def typed_def)

lemma keeps_fileI:
  assumes "\<And>s e s'. upgradable s \<Longrightarrow> typed s \<Longrightarrow> f s = (e, s') \<Longrightarrow> upgradable s' \<and> typed s' \<and> evolves s s'"
  shows "keeps_file (exec_file f)"
  unfolding keeps_file_def
proof (intro allI impI)
  fix s e s'
  assume s: "upgradable s" "typed s" and run: "exec_file f s = (e, s')"
  let ?t = "s\<lparr>sf_faults := tl (sf_faults s)\<rparr>"
  have t: "upgradable ?t" "typed ?t" using same_tables_upgradable [of ?t s] s by simp_all
  have ev: "evolves s ?t" by (rule evolves_refl) simp
  consider "f s = (e, s')" | "s' = ?t" | "f ?t = (e, s')"
    using run by (auto simp: exec_file_def split: list.splits if_splits)
  then show "upgradable s' \<and> typed s' \<and> evolves s s'"
  proof cases
    case 1
    from assms [OF s this] show ?thesis .
  next
    case 2
    with t ev show ?thesis by simp
  next
    case 3
    from assms [OF t this] evolves_trans [OF ev] show ?thesis by blast
  qed
qed

text \<open>A table that is put keeps a file when it follows from the table that was there.\<close>

lemma put_keeps:
  assumes "upgradable s" and "typed s"
    and "\<And>cols. (t, cols) \<in> set schema \<Longrightarrow> set cs' \<subseteq> set cols \<and> set cols \<subseteq> set cs' \<union> set (later_columns t)"
    and "list_all (\<lambda>r. \<forall>c. r c = Null \<longleftrightarrow> c \<notin> set cs') rows'"
    and "\<And>cs rows. sf_tables s t = Some (cs, rows) \<Longrightarrow> \<exists>ext extra. cs' = cs @ ext \<and> rows' = map (filled ext) rows @ extra \<and> set ext \<inter> set cs = {}"
  shows "upgradable (put_table t cs' rows' s) \<and> typed (put_table t cs' rows' s) \<and> evolves s (put_table t cs' rows' s)"
proof (intro conjI)
  show "upgradable (put_table t cs' rows' s)"
    using assms(1,3) by (fastforce simp: upgradable_def put_table_def split: if_splits)
  show "typed (put_table t cs' rows' s)"
    using assms(2,4) by (auto simp: typed_def put_table_def split: if_splits)
  show "evolves s (put_table t cs' rows' s)"
    using assms(5) evolves_refl [of s s] by (auto simp: evolves_def put_table_def)
qed

lemma keeps_pragma: "keeps_file pragma_foreign_keys"
  unfolding pragma_foreign_keys_def by (rule keeps_fileI) (simp add: evolves_refl)

lemma schema_columns: "(t, cols) \<in> set schema \<Longrightarrow> (t, cols') \<in> set schema \<Longrightarrow> cols' = cols"
  by (auto simp: schema_def)

lemma keeps_create: "td \<in> set schema \<Longrightarrow> keeps_file (create_table td)"
proof (cases td)
  case (Pair t cols)
  assume "td \<in> set schema"
  then have mem: "(t, cols) \<in> set schema" by (simp add: Pair)
  show ?thesis
    unfolding create_table_def Pair prod.case
  proof (rule keeps_fileI)
    fix s e s'
    assume s: "upgradable s" "typed s"
      and run: "(None, case sf_tables s t of None \<Rightarrow> put_table t cols [] s | Some _ \<Rightarrow> s) = (e, s')"
    show "upgradable s' \<and> typed s' \<and> evolves s s'"
    proof (cases "sf_tables s t")
      case None
      have "upgradable (put_table t cols [] s) \<and> typed (put_table t cols [] s) \<and> evolves s (put_table t cols [] s)"
        using None schema_columns [OF mem] by (intro put_keeps [OF s]) auto
      with run None show ?thesis by simp
    qed (use run s evolves_refl in auto)
  qed
qed

lemma keeps_add_column:
  assumes "c \<in> {''token_hash'', ''endpoint''}"
  shows "keeps_file (add_column ''devices'' c)"
  unfolding add_column_def
proof (rule keeps_fileI)
  fix s e s'
  assume s: "upgradable s" "typed s"
    and run: "(case sf_tables s ''devices'' of
        None \<Rightarrow> (Some (no_table ''devices''), s)
      | Some (cols, rows) \<Rightarrow>
          if c \<in> set cols then (Some (''SQL logic error: duplicate column name: '' @ c @ '' (1)''), s)
          else (None, put_table ''devices'' (cols @ [c]) (map (\<lambda>r. r(c := Text '''')) rows) s)) = (e, s')"
  show "upgradable s' \<and> typed s' \<and> evolves s s'"
  proof (cases "e = None")
    case True
    then obtain cs rows where d: "sf_tables s ''devices'' = Some (cs, rows)" "c \<notin> set cs"
      and s': "s' = put_table ''devices'' (cs @ [c]) (map (\<lambda>r. r(c := Text '''')) rows) s"
      using run by (auto split: option.splits if_splits)
    have fill: "map (\<lambda>r. r(c := Text '''')) rows = map (filled [c]) rows" by (auto simp: filled_def fun_eq_iff)
    show ?thesis
      unfolding s'
    proof (rule put_keeps [OF s])
      show "set (cs @ [c]) \<subseteq> set cols \<and> set cols \<subseteq> set (cs @ [c]) \<union> set (later_columns ''devices'')"
        if "(''devices'', cols) \<in> set schema" for cols
        using that s(1) d(1) assms by (auto simp: upgradable_def schema_def)
      show "list_all (\<lambda>r. \<forall>x. r x = Null \<longleftrightarrow> x \<notin> set (cs @ [c])) (map (\<lambda>r. r(c := Text '''')) rows)"
        using s(2) d(1) by (fastforce simp: typed_def list_all_iff)
      show "\<exists>ext extra. cs @ [c] = cs' @ ext \<and> map (\<lambda>r. r(c := Text '''')) rows = map (filled ext) rows' @ extra
          \<and> set ext \<inter> set cs' = {}"
        if "sf_tables s ''devices'' = Some (cs', rows')" for cs' rows'
        using that d fill by (intro exI [of _ "[c]"] exI [of _ "[]"]) simp
    qed
  next
    case False
    then have "s' = s" using run by (auto split: option.splits if_splits)
    then show ?thesis using s evolves_refl by simp
  qed
qed

lemma row_of_Null: "length vals = length cols \<Longrightarrow> Null \<notin> set vals \<Longrightarrow> row_of cols vals c = Null \<longleftrightarrow> c \<notin> set cols"
proof (induction cols arbitrary: vals)
  case (Cons x cols)
  then obtain v vs where "vals = v # vs" by (cases vals) auto
  with Cons show ?case by (auto simp: row_of_def)
qed (simp add: row_of_def)

lemma keeps_insert:
  assumes "(t, cols) \<in> set schema" and "later_columns t = []" and "length vals = length cols" and "Null \<notin> set vals"
  shows "keeps_file (insert_or_ignore_into t cols vals)"
  unfolding insert_or_ignore_into_def
proof (rule keeps_fileI)
  fix s e s'
  assume s: "upgradable s" "typed s"
    and run: "(case sf_tables s t of
        None \<Rightarrow> (Some (no_table t), s)
      | Some (cs, rows) \<Rightarrow>
          if \<not> set cols \<subseteq> set cs then (Some (''SQL logic error: table '' @ t @ '' has no such column (1)''), s)
          else if list_ex (conflicts t (row_of cols vals)) rows then (None, s)
          else (None, put_table t cs (rows @ [row_of cols vals]) s)) = (e, s')"
  show "upgradable s' \<and> typed s' \<and> evolves s s'"
  proof (cases "s' = s")
    case False
    then obtain cs rows where d: "sf_tables s t = Some (cs, rows)" and s': "s' = put_table t cs (rows @ [row_of cols vals]) s"
      using run by (auto split: option.splits if_splits)
    have cs: "set cs = set cols" using s(1) d assms(1,2) by (fastforce simp: upgradable_def)
    show ?thesis
      unfolding s'
    proof (rule put_keeps [OF s])
      show "set cs \<subseteq> set cols' \<and> set cols' \<subseteq> set cs \<union> set (later_columns t)" if "(t, cols') \<in> set schema" for cols'
        using schema_columns [OF assms(1) that] cs by simp
      show "list_all (\<lambda>r. \<forall>c. r c = Null \<longleftrightarrow> c \<notin> set cs) (rows @ [row_of cols vals])"
        using s(2) [unfolded typed_def, rule_format, OF d] row_of_Null [OF assms(3,4)] cs by simp
      show "\<exists>ext extra. cs = cs' @ ext \<and> rows @ [row_of cols vals] = map (filled ext) rows' @ extra \<and> set ext \<inter> set cs' = {}"
        if "sf_tables s t = Some (cs', rows')" for cs' rows'
        using that d by auto
    qed
  qed (use s evolves_refl in simp)
qed

lemma keeps_script: "list_all keeps_file fs \<Longrightarrow> keeps_file (exec_script fs)"
proof (induction fs)
  case Nil
  show ?case by (simp add: keeps_file_def evolves_refl)
next
  case (Cons f fs)
  then have f: "keeps_file f" and fs: "keeps_file (exec_script fs)" by simp_all
  show ?case
    unfolding keeps_file_def
  proof (intro allI impI)
    fix s e s'
    assume s: "upgradable s" "typed s" and run: "exec_script (f # fs) s = (e, s')"
    obtain x t where t: "f s = (x, t)" by fastforce
    show "upgradable s' \<and> typed s' \<and> evolves s s'"
    proof (cases x)
      case None
      then have "exec_script fs t = (e, s')" using run t by simp
      then show ?thesis by (rule then_keeps [OF f fs s t])
    next
      case (Some err)
      then have "s' = t" using run t by simp
      then show ?thesis using keeps_fileD [OF f s t] by simp
    qed
  qed
qed

lemma keeps_columns: "set cs \<subseteq> {''token_hash'', ''endpoint''} \<Longrightarrow> keeps_file (add_columns cs)"
proof (induction cs)
  case Nil
  show ?case by (simp add: keeps_file_def evolves_refl)
next
  case (Cons c cs)
  then have f: "keeps_file (add_column ''devices'' c)" and fs: "keeps_file (add_columns cs)"
    using keeps_add_column [of c] by simp_all
  show ?case
    unfolding keeps_file_def
  proof (intro allI impI)
    fix s e s'
    assume s: "upgradable s" "typed s" and run: "add_columns (c # cs) s = (e, s')"
    obtain x t where t: "add_column ''devices'' c s = (x, t)" by fastforce
    show "upgradable s' \<and> typed s' \<and> evolves s s'"
    proof (cases "x \<noteq> None \<and> \<not> isDuplicateColumn x")
      case False
      then have "add_columns cs t = (e, s')" using run t by auto
      then show ?thesis by (rule then_keeps [OF f fs s t])
    next
      case True
      then have "s' = t" using run t by simp
      then show ?thesis using keeps_fileD [OF f s t] by simp
    qed
  qed
qed

section \<open>A migration that succeeds\<close>

definition has_row :: "string \<Rightarrow> string \<Rightarrow> sqlite_file \<Rightarrow> bool" where
  "has_row t rid s \<longleftrightarrow> (\<exists>cs rows. sf_tables s t = Some (cs, rows) \<and> ''id'' \<in> set cs \<and> list_ex (\<lambda>r. r ''id'' = Text rid) rows)"

text \<open>The schema of this version, with the default user and group.\<close>

definition current :: "sqlite_file \<Rightarrow> bool" where
  "current s \<longleftrightarrow> (\<forall>(t, cols) \<in> set schema. \<exists>cs rows. sf_tables s t = Some (cs, rows) \<and> set cs = set cols)
     \<and> has_row ''users'' ''default-user'' s \<and> has_row ''groups'' ''default'' s"

definition has_column :: "string \<Rightarrow> string \<Rightarrow> sqlite_file \<Rightarrow> bool" where
  "has_column t c s \<longleftrightarrow> (\<exists>cs rows. sf_tables s t = Some (cs, rows) \<and> c \<in> set cs)"

lemma evolves_has:
  assumes "evolves s s'"
  shows "has_row t rid s \<Longrightarrow> has_row t rid s'" "has_column t c s \<Longrightarrow> has_column t c s'"
    "sf_tables s t \<noteq> None \<Longrightarrow> sf_tables s' t \<noteq> None"
proof -
  show "has_row t rid s'" if has: "has_row t rid s"
  proof -
    obtain cs rows where d: "sf_tables s t = Some (cs, rows)" "''id'' \<in> set cs" "list_ex (\<lambda>r. r ''id'' = Text rid) rows"
      using has by (auto simp: has_row_def)
    then obtain ext extra where d': "sf_tables s' t = Some (cs @ ext, map (filled ext) rows @ extra)" "set ext \<inter> set cs = {}"
      using assms unfolding evolves_def by blast
    obtain r where r: "r \<in> set rows" "r ''id'' = Text rid" using d(3) by (auto simp: list_ex_iff)
    have "''id'' \<notin> set ext" using d(2) d'(2) by blast
    then have "filled ext r ''id'' = Text rid" using r(2) by (simp add: filled_def)
    moreover have "filled ext r \<in> set (map (filled ext) rows @ extra)" using r(1) by simp
    ultimately have "list_ex (\<lambda>r. r ''id'' = Text rid) (map (filled ext) rows @ extra)" unfolding list_ex_iff by blast
    moreover have "''id'' \<in> set (cs @ ext)" using d(2) by simp
    ultimately show ?thesis using d'(1) unfolding has_row_def by blast
  qed
  have later: "\<exists>ext rows'. sf_tables s' t = Some (cs @ ext, rows')" if "sf_tables s t = Some (cs, rows)" for cs rows
    using that assms unfolding evolves_def by blast
  show "has_column t c s'" if has: "has_column t c s"
  proof -
    obtain cs rows where d: "sf_tables s t = Some (cs, rows)" "c \<in> set cs" using has by (auto simp: has_column_def)
    with later [OF d(1)] show ?thesis by (auto simp: has_column_def)
  qed
  show "sf_tables s' t \<noteq> None" if has: "sf_tables s t \<noteq> None"
  proof -
    obtain cs rows where "sf_tables s t = Some (cs, rows)" using has by auto
    with later show ?thesis by auto
  qed
qed

lemma script_success:
  assumes "exec_script fs s = (None, s')" and "list_all keeps_file fs" and "f \<in> set fs" and "upgradable s" and "typed s"
  shows "\<exists>t t'. f t = (None, t') \<and> evolves t' s'"
  using assms
proof (induction fs arbitrary: s)
  case (Cons g fs)
  obtain t where t: "g s = (None, t)" and rest: "exec_script fs t = (None, s')"
    using Cons.prems(1) by (auto split: prod.splits option.splits)
  have g: "keeps_file g" and fs: "list_all keeps_file fs" using Cons.prems(2) by simp_all
  note kt = keeps_fileD [OF g Cons.prems(4,5) t]
  show ?case
  proof (cases "f = g")
    case True
    with t keeps_fileD [OF keeps_script [OF fs] _ _ rest] kt show ?thesis by blast
  next
    case False
    with Cons.IH [OF rest fs] Cons.prems(3) kt show ?thesis by simp
  qed
qed simp

lemma exec_file_outcome:
  assumes "exec_file f s = (x, s')"
  obtains (fault) "x = Some ''disk I/O error (10)''" | (ran) fs where "f (s\<lparr>sf_faults := fs\<rparr>) = (x, s')"
proof (cases "sf_faults s")
  case Nil
  then have "s = s\<lparr>sf_faults := []\<rparr>" by simp
  with Nil assms ran [of "[]"] show thesis by (simp add: exec_file_def)
next
  case (Cons b fs)
  with assms fault ran [of fs] show thesis by (auto simp: exec_file_def split: if_splits)
qed

lemma put_table_tables [simp]: "sf_tables (put_table t cs rows s) = (sf_tables s)(t \<mapsto> (cs, rows))"
  by (simp add: put_table_def)

lemma create_success:
  assumes "create_table (t, cols) s = (None, s')"
  shows "sf_tables s' t \<noteq> None"
  using assms unfolding create_table_def prod.case
  by (cases rule: exec_file_outcome) (auto split: option.splits)

lemma insert_success:
  assumes "insert_or_ignore_into t cols vals s = (None, s')" and "''id'' \<in> set cols" and "key_columns t = [''id'']"
    and "row_of cols vals ''id'' = Text rid"
  shows "has_row t rid s'"
  using assms(1) unfolding insert_or_ignore_into_def
proof (cases rule: exec_file_outcome)
  case (ran fs)
  then obtain cs rows where d: "sf_tables s t = Some (cs, rows)" "set cols \<subseteq> set cs"
    and s': "s' = (if list_ex (conflicts t (row_of cols vals)) rows then s\<lparr>sf_faults := fs\<rparr>
                   else put_table t cs (rows @ [row_of cols vals]) (s\<lparr>sf_faults := fs\<rparr>))"
    by (auto split: option.splits if_splits)
  have id: "''id'' \<in> set cs" using d(2) assms(2) by blast
  show ?thesis
  proof (cases "list_ex (conflicts t (row_of cols vals)) rows")
    case True
    then have "list_ex (\<lambda>r. r ''id'' = Text rid) rows"
      using assms(3,4) by (auto simp: list_ex_iff conflicts_def)
    then show ?thesis using True s' d(1) id by (simp add: has_row_def)
  next
    case False
    then show ?thesis using s' assms(4) id by (simp add: has_row_def)
  qed
qed simp

lemma no_duplicate: "\<not> isDuplicateColumn (Some ''disk I/O error (10)'')"
  by code_simp

lemma add_column_success:
  assumes "add_column ''devices'' c s = (x, t)" and "x = None \<or> isDuplicateColumn x" and "sf_tables s ''devices'' \<noteq> None"
  shows "has_column ''devices'' c t"
  using assms(1) unfolding add_column_def
proof (cases rule: exec_file_outcome)
  case fault
  with assms(2) no_duplicate show ?thesis by simp
next
  case (ran fs)
  obtain cs rows where d: "sf_tables s ''devices'' = Some (cs, rows)" using assms(3) by auto
  have "t = (if c \<in> set cs then s\<lparr>sf_faults := fs\<rparr>
      else put_table ''devices'' (cs @ [c]) (map (\<lambda>r. r(c := Text '''')) rows) (s\<lparr>sf_faults := fs\<rparr>))"
    using ran d by (auto split: if_splits)
  then show ?thesis using d by (simp add: has_column_def)
qed

lemma columns_success:
  assumes "add_columns cs s = (None, s')" and "set cs \<subseteq> {''token_hash'', ''endpoint''}" and "upgradable s" and "typed s"
    and "sf_tables s ''devices'' \<noteq> None" and "c \<in> set cs"
  shows "has_column ''devices'' c s'"
  using assms
proof (induction cs arbitrary: s)
  case (Cons x cs)
  obtain e t where t: "add_column ''devices'' x s = (e, t)" by fastforce
  then have ok: "e = None \<or> isDuplicateColumn e" and rest: "add_columns cs t = (None, s')"
    using Cons.prems(1) by (auto split: if_splits)
  have x: "x \<in> {''token_hash'', ''endpoint''}" and cs: "set cs \<subseteq> {''token_hash'', ''endpoint''}"
    using Cons.prems(2) by simp_all
  note kt = keeps_fileD [OF keeps_add_column [OF x] Cons.prems(3,4) t]
  note ks = keeps_fileD [OF keeps_columns [OF cs] _ _ rest]
  have "has_column ''devices'' x s'"
    using evolves_has(2) [of t s'] add_column_success [OF t ok Cons.prems(5)] kt ks by blast
  moreover have "c \<in> set cs \<Longrightarrow> has_column ''devices'' c s'"
    using Cons.IH [OF rest cs] kt evolves_has(3) [of s t "''devices''"] Cons.prems(5) by blast
  ultimately show ?case using Cons.prems(6) by auto
qed simp

text \<open>What the whole migration leaves when it reports no error.\<close>

lemma keeps_tables: "list_all keeps_file (pragma_foreign_keys # map create_table schema)"
  using keeps_create keeps_pragma by (simp add: list_all_iff)

lemma schema_users: "(''users'', [''id'', ''name'', ''email'', ''role'', ''created_at'']) \<in> set schema"
  "(''groups'', [''id'', ''name'', ''description'', ''created_at'']) \<in> set schema"
  by (simp_all add: schema_def)

lemma keeps_defaults: "list_all keeps_file (default_rows now)"
  unfolding default_rows_def
  using keeps_insert [OF schema_users(1)] keeps_insert [OF schema_users(2)]
  by (simp add: later_columns_def time_text_def)

lemma keeps_migrate: "keeps_file (migrate_file now)"
  unfolding keeps_file_def
proof (intro allI impI)
  fix s e s'
  assume s: "upgradable s" "typed s" and run: "migrate_file now s = (e, s')"
  obtain x s1 where 1: "exec_script (pragma_foreign_keys # map create_table schema) s = (x, s1)" by fastforce
  obtain y s2 where 2: "add_columns [''token_hash'', ''endpoint''] s1 = (y, s2)" by fastforce
  note k1 = keeps_fileD [OF keeps_script [OF keeps_tables] s 1]
  have columns: "keeps_file (add_columns [''token_hash'', ''endpoint''])" by (rule keeps_columns) simp
  note k2 = then_keeps [OF keeps_script [OF keeps_tables] columns s 1 2]
  note k3 = keeps_fileD [OF keeps_script [OF keeps_defaults]]
  show "upgradable s' \<and> typed s' \<and> evolves s s'"
  proof (cases x)
    case (Some err)
    then show ?thesis using run 1 k1 by (simp add: migrate_file_def)
  next
    case None
    show ?thesis
    proof (cases y)
      case (Some err)
      then show ?thesis using run 1 2 None k2 by (simp add: migrate_file_def)
    next
      case None
      then have "exec_script (default_rows now) s2 = (e, s')" using run 1 2 \<open>x = None\<close> by (simp add: migrate_file_def)
      from k3 [OF _ _ this] k2 evolves_trans [of s s2 s'] show ?thesis by blast
    qed
  qed
qed

lemma migrate_success:
  assumes "upgradable s" and "typed s" and "migrate_file now s = (None, s')"
  shows "current s'"
proof -
  note k = keeps_fileD [OF keeps_migrate assms]
  obtain s1 s2 where 1: "exec_script (pragma_foreign_keys # map create_table schema) s = (None, s1)"
    and 2: "add_columns [''token_hash'', ''endpoint''] s1 = (None, s2)"
    and 3: "exec_script (default_rows now) s2 = (None, s')"
    using assms(3) by (auto simp: migrate_file_def simp del: exec_script.simps add_columns.simps split: prod.splits option.splits)
  have k1: "upgradable s1 \<and> typed s1" using keeps_fileD [OF keeps_script [OF keeps_tables] assms(1,2) 1] by simp
  have k2: "upgradable s2 \<and> typed s2 \<and> evolves s1 s2" using keeps_fileD [OF keeps_columns _ _ 2] k1 by simp
  have k3: "evolves s2 s'" using keeps_fileD [OF keeps_script [OF keeps_defaults] _ _ 3] k2 by simp
  have e: "evolves s1 s'" using k2 k3 evolves_trans by blast
  have tables: "sf_tables s1 t \<noteq> None" if "(t, cols) \<in> set schema" for t cols
  proof -
    have "create_table (t, cols) \<in> set (pragma_foreign_keys # map create_table schema)" using that by force
    from script_success [OF 1 keeps_tables this assms(1,2)] create_success evolves_has(3) show ?thesis by blast
  qed
  have devices: "has_column ''devices'' c s'" if "c \<in> {''token_hash'', ''endpoint''}" for c
  proof -
    have "has_column ''devices'' c s2"
      using columns_success [OF 2 _ _ _ tables] k1 that by (auto simp: schema_def)
    then show ?thesis by (rule evolves_has(2) [OF k3])
  qed
  have "\<exists>cs rows. sf_tables s' t = Some (cs, rows) \<and> set cs = set cols" if mem: "(t, cols) \<in> set schema" for t cols
  proof -
    obtain cs rows where d: "sf_tables s' t = Some (cs, rows)"
      using evolves_has(3) [OF e tables [OF mem]] by auto
    then have "set cs \<subseteq> set cols \<and> set cols \<subseteq> set cs \<union> set (later_columns t)"
      using bspec [OF k [THEN conjunct1, unfolded upgradable_def] mem] by simp
    moreover have "set (later_columns t) \<subseteq> set cs"
      using devices d by (auto simp: later_columns_def has_column_def)
    ultimately show ?thesis using d by blast
  qed
  moreover have "has_row ''users'' ''default-user'' s'" "has_row ''groups'' ''default'' s'"
  proof -
    have f: "list_all keeps_file (default_rows now)" by (rule keeps_defaults)
    have "hd (default_rows now) \<in> set (default_rows now)" "last (default_rows now) \<in> set (default_rows now)"
      by (simp_all add: default_rows_def)
    from this [THEN script_success [OF 3 f _ conjunct1 [OF k2] conjunct1 [OF conjunct2 [OF k2]]]]
    obtain t t' u u' where "hd (default_rows now) t = (None, t')" "evolves t' s'"
      "last (default_rows now) u = (None, u')" "evolves u' s'" by blast
    moreover have "has_row ''users'' ''default-user'' t'" if "hd (default_rows now) t = (None, t')"
      using that by (intro insert_success) (auto simp: default_rows_def key_columns_def row_of_def)
    moreover have "has_row ''groups'' ''default'' u'" if "last (default_rows now) u = (None, u')"
      using that by (intro insert_success) (auto simp: default_rows_def key_columns_def row_of_def)
    ultimately show "has_row ''users'' ''default-user'' s'" "has_row ''groups'' ''default'' s'"
      using evolves_has(1) by blast+
  qed
  ultimately show ?thesis by (auto simp: current_def)
qed

section \<open>Running undisturbed\<close>

lemma quiet_file [simp]: "sf_faults s = [] \<Longrightarrow> exec_file f s = f s"
  by (simp add: exec_file_def)

lemma put_table_faults [simp]: "sf_faults (put_table t cs rows s) = sf_faults s"
  by (simp add: put_table_def)

lemma quiet_tables:
  "sf_faults s = [] \<Longrightarrow> \<exists>s'. exec_script (map create_table tds) s = (None, s') \<and> sf_faults s' = []
     \<and> (list_all (\<lambda>(t, cols). sf_tables s t \<noteq> None) tds \<longrightarrow> s' = s)"
proof (induction tds arbitrary: s)
  case (Cons td tds)
  obtain t cols where td: "td = (t, cols)" by fastforce
  let ?s = "case sf_tables s t of None \<Rightarrow> put_table t cols [] s | Some _ \<Rightarrow> s"
  have "create_table td s = (None, ?s)" "sf_faults ?s = []"
    using Cons.prems by (simp_all add: create_table_def td split: option.split)
  moreover have "sf_tables s t \<noteq> None \<Longrightarrow> ?s = s" by auto
  ultimately show ?case using Cons.IH [of ?s] by (auto simp: td)
qed simp

lemma is_duplicate: "isDuplicateColumn (Some (''SQL logic error: duplicate column name: '' @ c @ '' (1)''))"
  using contains_middle [of "''SQL logic error: ''" "''duplicate column name''" "'': '' @ c @ '' (1)''"]
  by (simp add: isDuplicateColumn_def)

lemma quiet_columns:
  "sf_faults s = [] \<Longrightarrow> sf_tables s ''devices'' \<noteq> None \<Longrightarrow>
     \<exists>s'. add_columns cs s = (None, s') \<and> sf_faults s' = [] \<and> ((\<forall>c \<in> set cs. has_column ''devices'' c s) \<longrightarrow> s' = s)"
proof (induction cs arbitrary: s)
  case (Cons c cs)
  then obtain cols rows where d: "sf_tables s ''devices'' = Some (cols, rows)" by auto
  show ?case
  proof (cases "c \<in> set cols")
    case True
    then have "add_columns (c # cs) s = add_columns cs s"
      using Cons.prems d is_duplicate [of c] by (simp add: add_column_def)
    then show ?thesis using Cons.IH [OF Cons.prems] by auto
  next
    case False
    let ?s = "put_table ''devices'' (cols @ [c]) (map (\<lambda>r. r(c := Text '''')) rows) s"
    have "add_columns (c # cs) s = add_columns cs ?s" using Cons.prems d False by (simp add: add_column_def)
    moreover have "\<not> has_column ''devices'' c s" using d False by (simp add: has_column_def)
    ultimately show ?thesis using Cons.IH [of ?s] Cons.prems by auto
  qed
qed simp

lemma quiet_insert:
  assumes "sf_faults s = []" and "\<forall>c \<in> set cols. has_column t c s" and "cols \<noteq> []"
  shows "\<exists>s'. insert_or_ignore_into t cols vals s = (None, s') \<and> sf_faults s' = []
     \<and> (\<forall>t' c. has_column t' c s \<longrightarrow> has_column t' c s')
     \<and> (key_columns t = [''id''] \<longrightarrow> row_of cols vals ''id'' = Text rid \<longrightarrow> has_row t rid s \<longrightarrow> s' = s)"
proof -
  obtain cs rows where d: "sf_tables s t = Some (cs, rows)" "set cols \<subseteq> set cs"
    using assms(2,3) by (cases cols) (fastforce simp: has_column_def)+
  let ?s = "if list_ex (conflicts t (row_of cols vals)) rows then s else put_table t cs (rows @ [row_of cols vals]) s"
  have "insert_or_ignore_into t cols vals s = (None, ?s)" "sf_faults ?s = []"
    using assms(1) d by (simp_all add: insert_or_ignore_into_def)
  moreover have "has_column t' c s \<Longrightarrow> has_column t' c ?s" for t' c using d(1) by (auto simp: has_column_def)
  moreover have "?s = s" if key: "key_columns t = [''id'']" and new: "row_of cols vals ''id'' = Text rid" and has: "has_row t rid s"
  proof -
    obtain r where "r \<in> set rows" "r ''id'' = Text rid" using has d(1) by (auto simp: has_row_def list_ex_iff)
    then have "list_ex (conflicts t (row_of cols vals)) rows"
      unfolding list_ex_iff conflicts_def key using new by (intro bexI [of _ r]) simp_all
    then show ?thesis by simp
  qed
  ultimately show ?thesis by (intro exI [of _ ?s]) blast
qed

lemma current_has:
  assumes "current s" and "(t, cols) \<in> set schema"
  shows "sf_tables s t \<noteq> None" "c \<in> set cols \<Longrightarrow> has_column t c s"
  using assms by (force simp: current_def has_column_def)+

lemma created_tables:
  assumes "exec_script (pragma_foreign_keys # map create_table schema) s = (None, s1)" and "upgradable s" and "typed s"
    and "(t, cols) \<in> set schema"
  shows "sf_tables s1 t \<noteq> None"
proof -
  have "create_table (t, cols) \<in> set (pragma_foreign_keys # map create_table schema)" using assms(4) by force
  from script_success [OF assms(1) keeps_tables this assms(2,3)] create_success evolves_has(3) show ?thesis by blast
qed

lemma quiet_migrate:
  assumes "sf_faults s = []" and "upgradable s" and "typed s"
  shows "\<exists>s'. migrate_file now s = (None, s') \<and> (current s \<longrightarrow> s' = s)"
proof -
  have "exec_script (pragma_foreign_keys # map create_table schema) s = exec_script (map create_table schema) s"
    using assms(1) by (simp add: pragma_foreign_keys_def)
  with quiet_tables [OF assms(1), of schema] obtain s1 where
    1: "exec_script (pragma_foreign_keys # map create_table schema) s = (None, s1)" "sf_faults s1 = []"
      "list_all (\<lambda>(t, cols). sf_tables s t \<noteq> None) schema \<longrightarrow> s1 = s" by auto
  note tables = created_tables [OF 1(1) assms(2,3)]
  have "sf_tables s1 ''devices'' \<noteq> None" by (rule tables) (simp add: schema_def)
  with quiet_columns [OF 1(2), of "[''token_hash'', ''endpoint'']"] obtain s2 where
    2: "add_columns [''token_hash'', ''endpoint''] s1 = (None, s2)" "sf_faults s2 = []"
      "(\<forall>c \<in> {''token_hash'', ''endpoint''}. has_column ''devices'' c s1) \<longrightarrow> s2 = s1" by auto
  have "upgradable s1 \<and> typed s1" using keeps_fileD [OF keeps_script [OF keeps_tables] assms(2,3) 1(1)] by simp
  moreover have columns: "keeps_file (add_columns [''token_hash'', ''endpoint''])" by (rule keeps_columns) simp
  ultimately have u: "upgradable s2" "evolves s1 s2" using keeps_fileD [OF columns _ _ 2(1)] by simp_all
  have cols: "has_column t c s2" if mem: "(t, cols) \<in> set schema" "later_columns t = []" "c \<in> set cols" for t cols c
  proof -
    obtain cs rows where d: "sf_tables s2 t = Some (cs, rows)" using evolves_has(3) [OF u(2) tables [OF mem(1)]] by auto
    have "set cols \<subseteq> set cs" using bspec [OF u(1) [unfolded upgradable_def] mem(1)] d mem(2) by simp
    then show ?thesis using d mem(3) by (auto simp: has_column_def)
  qed
  let ?u = "[''id'', ''name'', ''email'', ''role'', ''created_at'']" and ?g = "[''id'', ''name'', ''description'', ''created_at'']"
  let ?uv = "[Text ''default-user'', Text ''Default User'', Text '''', Text ''admin'', time_text now]"
    and ?gv = "[Text ''default'', Text ''Default'', Text ''Default Linkbit device group'', time_text now]"
  have "\<forall>c \<in> set ?u. has_column ''users'' c s2" using cols [OF schema_users(1)] by (simp add: later_columns_def)
  from quiet_insert [OF 2(2) this, of ?uv "''default-user''"] obtain s3 where
    3: "insert_or_ignore_into ''users'' ?u ?uv s2 = (None, s3)" "sf_faults s3 = []"
      "\<forall>t' c. has_column t' c s2 \<longrightarrow> has_column t' c s3" "has_row ''users'' ''default-user'' s2 \<longrightarrow> s3 = s2"
    by (auto simp: key_columns_def row_of_def)
  have "\<forall>c \<in> set ?g. has_column ''groups'' c s3" using cols [OF schema_users(2)] 3(3) by (simp add: later_columns_def)
  from quiet_insert [OF 3(2) this, of ?gv "''default''"] obtain s4 where
    4: "insert_or_ignore_into ''groups'' ?g ?gv s3 = (None, s4)" "has_row ''groups'' ''default'' s3 \<longrightarrow> s4 = s3"
    by (auto simp: key_columns_def row_of_def)
  have run: "migrate_file now s = (None, s4)"
    using 1(1) 2(1) 3(1) 4(1) by (simp add: migrate_file_def default_rows_def del: exec_script.simps(2) add_columns.simps)
      (simp add: 3(1) 4(1))
  have "s4 = s" if c: "current s"
  proof -
    have "s1 = s" using 1(3) current_has(1) [OF c] by (auto simp: list_all_iff)
    moreover from this have "s2 = s1" using 2(3) current_has(2) [OF c] by (simp add: schema_def)
    ultimately show ?thesis using c 3(4) 4(2) by (simp add: current_def)
  qed
  with run show ?thesis by blast
qed

text \<open>
  C20: Migration brings any database file up to the schema and loses nothing. From a file of this
  version or an earlier one (tables missing, devices without token digest or endpoint), whatever
  single statements fail: every table keeps its columns and rows, with empty text in the columns
  that were added, and every row still has a value in exactly the columns of its table; when no
  error is reported, every table has its columns and the default user and group are there, and
  migrating again changes nothing; and without failing statements no error is reported.
\<close>

theorem migration_upgrades:
  assumes "upgradable s" and "typed s" and "migrate_file now s = (err, s')"
  shows "upgradable s' \<and> typed s' \<and> evolves s s'
       \<and> (err = None \<longrightarrow> current s' \<and> migrate_file later (s'\<lparr>sf_faults := []\<rparr>) = (None, s'\<lparr>sf_faults := []\<rparr>))
       \<and> (sf_faults s = [] \<longrightarrow> err = None)"
proof -
  let ?t = "s'\<lparr>sf_faults := []\<rparr>"
  note k = keeps_fileD [OF keeps_migrate assms]
  have same: "upgradable ?t = upgradable s'" "typed ?t = typed s'" "current ?t = current s'"
    using same_tables_upgradable [of ?t s'] by (simp_all add: current_def has_row_def)
  have "current s' \<and> migrate_file later ?t = (None, ?t)" if "err = None"
  proof -
    have "current s'" using migrate_success [OF assms(1,2)] assms(3) that by simp
    with quiet_migrate [of ?t later] k same show ?thesis by auto
  qed
  moreover have "sf_faults s = [] \<Longrightarrow> err = None"
    using quiet_migrate [OF _ assms(1,2), of now] assms(3) by auto
  ultimately show ?thesis using k by blast
qed

text \<open>
  On a file that has every table and column, the migration does to the rows what \<open>sql_Migrate\<close>
  does, the step on which the rest of the development rests.
\<close>

definition rows_in :: "sqlite_file \<Rightarrow> sqlite" where
  "rows_in s = \<lparr>sq_tables = (\<lambda>t. case sf_tables s t of None \<Rightarrow> [] | Some (cs, rows) \<Rightarrow> rows), sq_faults = []\<rparr>"

lemma insert_rows_in:
  assumes "sf_faults s = []" and "\<forall>c \<in> set cols. has_column t c s" and "cols \<noteq> []"
    and "insert_or_ignore_into t cols vals s = (None, s')"
  shows "sql_insert_or_ignore t cols vals (rows_in s) = (Inr (), rows_in s')"
proof -
  obtain cs rows where d: "sf_tables s t = Some (cs, rows)" "set cols \<subseteq> set cs"
    using assms(2,3) by (cases cols) (fastforce simp: has_column_def)+
  then have "s' = (if list_ex (conflicts t (row_of cols vals)) rows then s else put_table t cs (rows @ [row_of cols vals]) s)"
    using assms(1,4) by (simp add: insert_or_ignore_into_def split: if_splits)
  then show ?thesis
    using d(1) by (auto simp: sql_insert_or_ignore_def sql_exec_def rows_in_def with_table_def fun_eq_iff)
qed

lemma migrate_rows_in:
  assumes "sf_faults s = []" and "\<forall>(t, cols) \<in> set schema. sf_tables s t \<noteq> None \<and> (\<forall>c \<in> set cols. has_column t c s)"
    and "migrate_file now s = (None, s')"
  shows "sql_Migrate now (rows_in s) = (Inr (), rows_in s')"
proof -
  have 1: "exec_script (pragma_foreign_keys # map create_table schema) s = (None, s)"
    using quiet_tables [OF assms(1), of schema] assms(1,2) by (auto simp: pragma_foreign_keys_def list_all_iff)
  have "sf_tables s ''devices'' \<noteq> None" "\<forall>c \<in> {''token_hash'', ''endpoint''}. has_column ''devices'' c s"
    using assms(2) by (simp_all add: schema_def)
  then have 2: "add_columns [''token_hash'', ''endpoint''] s = (None, s)"
    using quiet_columns [OF assms(1), of "[''token_hash'', ''endpoint'']"] by auto
  have "exec_script (default_rows now) s = (None, s')"
    using assms(3) 1 2 by (simp add: migrate_file_def del: exec_script.simps add_columns.simps)
  then obtain s3 where
    3: "insert_or_ignore_into ''users'' user_columns [Text ''default-user'', Text ''Default User'', Text '''',
          Text ''admin'', time_text now] s = (None, s3)"
      "insert_or_ignore_into ''groups'' group_columns [Text ''default'', Text ''Default'',
          Text ''Default Linkbit device group'', time_text now] s3 = (None, s')"
    by (auto simp: default_rows_def user_columns_def group_columns_def split: prod.splits option.splits)
  have u: "\<forall>c \<in> set user_columns. has_column ''users'' c s" "\<forall>c \<in> set group_columns. has_column ''groups'' c s"
    using assms(2) by (simp_all add: schema_def user_columns_def group_columns_def)
  have s3: "sf_faults s3 = []" "\<forall>c \<in> set group_columns. has_column ''groups'' c s3"
    using quiet_insert [OF assms(1) u(1), of "[Text ''default-user'', Text ''Default User'', Text '''', Text ''admin'', time_text now]" "''''"]
      3(1) u(2) by (auto simp: user_columns_def)
  show ?thesis
    using insert_rows_in [OF assms(1) u(1) _ 3(1)] insert_rows_in [OF s3 _ 3(2)]
    by (simp add: sql_Migrate_def then_sql_def sql_schema_def sql_exec_def rows_in_def user_columns_def group_columns_def)
qed

text \<open>A file of the first version, with one device.\<close>

definition old_columns :: "string list" where
  "old_columns = [''id'', ''user_id'', ''group_id'', ''name'', ''virtual_ip'', ''public_key'', ''status'',
     ''last_seen_at'', ''created_at'', ''fingerprint'']"

definition old_file :: sqlite_file where
  "old_file = \<lparr>sf_tables = [''devices'' \<mapsto> (old_columns, [\<lambda>c. if c \<in> set old_columns then Text c else Null])], sf_faults = []\<rparr>"

theorem migration_upgrades_witness:
  "\<exists>s' cs rows. migrate_file (GoTime 0) old_file = (None, s') \<and> sf_tables s' ''devices'' = Some (cs, rows)
     \<and> (rows ! 0) ''token_hash'' = Text '''' \<and> (rows ! 0) ''name'' = Text ''name''"
proof -
  let ?old = "\<lambda>c. if c \<in> set old_columns then Text c else Null"
  obtain err s' where run: "migrate_file (GoTime 0) old_file = (err, s')" by fastforce
  have up: "upgradable old_file" "typed old_file"
    by (auto simp: upgradable_def typed_def old_file_def old_columns_def schema_def later_columns_def)
  note m = migration_upgrades [OF up run, of "GoTime 1"]
  have err: "err = None" using m by (simp add: old_file_def)
  have "sf_tables old_file ''devices'' = Some (old_columns, [?old])" by (simp add: old_file_def)
  then obtain ext extra where d: "sf_tables s' ''devices'' = Some (old_columns @ ext, map (filled ext) [?old] @ extra)"
    and disj: "set ext \<inter> set old_columns = {}" using m unfolding evolves_def by blast
  have "current s'" using m err by blast
  then have "has_column ''devices'' ''token_hash'' s'"
    by (rule current_has(2) [where t = "''devices''" and cols = device_columns]) (simp_all add: schema_def device_columns_def)
  then have "''token_hash'' \<in> set ext" using d by (auto simp: has_column_def old_columns_def)
  then have "filled ext ?old ''token_hash'' = Text ''''" by (simp add: filled_def)
  moreover have "''name'' \<notin> set ext" using disj by (auto simp: old_columns_def)
  then have "filled ext ?old ''name'' = Text ''name''" by (simp add: filled_def old_columns_def)
  ultimately show ?thesis using run err d by (intro exI conjI) (assumption | simp)+
qed

end
