(* ===== verification/Relay_Conversation.thy ===== *)
theory Relay_Conversation
  imports End_To_End
begin

text \<open>
  A relayed connection from the agents' calls to the pair of connections the controller copies
  between: the source opens a session, the target finds it by polling, and both attach a stream,
  each call a request that the controller reads, routes, authenticates and answers.
\<close>

section \<open>The calls\<close>

text \<open>
  A stream attachment as the source (client) or the target (agent) of a session: the bytes the
  agent writes on the connection, read and served by the controller.
\<close>

definition attach_stream ::
  "bool \<Rightarrow> lib \<Rightarrow> env \<Rightarrow> http_client \<Rightarrow> string \<Rightarrow> server \<Rightarrow> (response \<times> server) option" where
  "attach_stream client lib env c sid sv =
     (case l_url lib (hc_controllerURL c) of
        None \<Rightarrow> None
      | Some (scheme, host) \<Rightarrow>
          map_option (\<lambda>q. serve lib env q sv)
            (read_bytes (upgrade_request c (if client then client_target c sid else agent_target c sid) host)))"

text \<open>
  A client that can act as a device: with its id, its token and an address to call, whose bytes
  can stand in a request.
\<close>

definition speaks_for :: "lib \<Rightarrow> server \<Rightarrow> http_client \<Rightarrow> device \<Rightarrow> bool" where
  "speaks_for lib sv c d \<longleftrightarrow>
     credentials_of lib sv (hc_deviceID c) (hc_deviceToken c) d \<and> plain_id (d_ID d)
     \<and> (\<exists>scheme host. can_dial (l_url lib) c scheme host)"

lemma speaks_for_token: "speaks_for lib sv c d \<Longrightarrow> hc_deviceToken c \<noteq> ''''"
  by (auto simp: speaks_for_def can_dial_def)

lemma speaks_for_ID: "speaks_for lib sv c d \<Longrightarrow> hc_deviceID c = d_ID d"
  by (simp add: speaks_for_def credentials_of_def)

lemma speaks_for_same:
  "speaks_for lib sv c d \<Longrightarrow> sv_db sv' = sv_db sv \<Longrightarrow> sv_cfg sv' = sv_cfg sv \<Longrightarrow> speaks_for lib sv' c d"
  by (auto simp: speaks_for_def credentials_of_def pepper_def)

lemma find_by_ID:
  assumes "unique_on d_ID rows" and "d \<in> set rows"
  shows "find (\<lambda>e. d_ID e = d_ID d \<and> d_TokenHash e = d_TokenHash d) rows = Some d"
proof (cases "find (\<lambda>e. d_ID e = d_ID d \<and> d_TokenHash e = d_TokenHash d) rows")
  case None
  with assms(2) show ?thesis by (auto simp: find_None_iff)
next
  case (Some e)
  with unique_onD [OF assms(1) _ assms(2)] show ?thesis by (auto dest: find_SomeD)
qed

lemma speaker_authenticated:
  assumes "db_ok (sv_db sv)" and "db_faults (sv_db sv) = []" and "speaks_for lib sv c d" and "q_deviceToken q = hc_deviceToken c"
  shows "authenticateDeviceCredentials lib q (d_ID d) sv = (Inr d, sv)"
proof -
  have "unique_on d_ID (db_devices (sv_db sv))" using assms(1) by (simp add: db_ok_def)
  from find_by_ID [OF this, of d] assms show ?thesis
    by (intro authenticate_done) (auto simp: speaks_for_def credentials_of_def plain_id_def can_dial_def)
qed

section \<open>Opening the session\<close>

lemma resolve_done:
  assumes "db_faults (sv_db sv) = []" and "target \<in> set (db_devices (sv_db sv))" and "d_ID target \<noteq> ''''"
    and "may_reach (db_policies (sv_db sv)) source target"
    and "\<And>d. d \<in> set (db_devices (sv_db sv)) \<Longrightarrow> names_target lib (d_ID target) d \<Longrightarrow> d = target"
  shows "resolveRelayTarget lib source (d_ID target) sv = (Inr (Inr (target, True)), sv)"
proof -
  let ?devices = "order_desc (\<lambda>d. formatTime (d_CreatedAt d)) (db_devices (sv_db sv))"
  let ?policies = "order_desc (\<lambda>p. formatTime (p_CreatedAt p)) (db_policies (sv_db sv))"
  have self: "names_target lib (d_ID target) target" by (simp add: names_target_def)
  obtain d where d: "find (names_target lib (d_ID target)) ?devices = Some d"
    using assms(2) self by (cases "find (names_target lib (d_ID target)) ?devices") (auto simp: find_None_iff)
  then have "d = target" using assms(5) by (auto dest!: find_SomeD)
  moreover have "may_reach ?policies source target" using assms(4) by (simp add: may_reach_def)
  then have "list_ex (\<lambda>p. np_ID p = d_ID target) (allowedPeers source ?devices ?policies)"
    using assms(2) by (auto simp: allowedPeers_eq list_ex_iff)
  ultimately have "resolve_in lib source (d_ID target) ?devices ?policies = Inr (target, True)"
    using d assms(3) by (simp add: resolve_in_def)
  then show ?thesis
    using assms(1,3) by (simp add: resolveRelayTarget_def run_defs ListDevices_def ListPolicies_def query_all_def)
qed

definition ask_relay :: "device \<Rightarrow> device \<Rightarrow> int \<Rightarrow> tcp_relay_session_request" where
  "ask_relay source target port =
     \<lparr>tsr_SourceDeviceID = d_ID source, tsr_Target = d_ID target, tsr_TargetPort = port, tsr_Protocol = ''tcp''\<rparr>"

text \<open>What is there once the session is open: the controller with the session in its broker.\<close>

definition offers :: "server \<Rightarrow> string \<Rightarrow> session_state \<Rightarrow> bool" where
  "offers sv sid st \<longleftrightarrow> keys_distinct (sv_broker sv) \<and> session_of (sv_broker sv) sid = Some st"

lemma session_opened:
  assumes "db_ok (sv_db sv)" and "db_faults (sv_db sv) = []" and "keys_distinct (sv_broker sv)"
    and "speaks_for lib sv c source" and "target \<in> set (db_devices (sv_db sv))" and "plain_id (d_ID target)"
    and "may_reach (db_policies (sv_db sv)) source target"
    and "\<And>d. d \<in> set (db_devices (sv_db sv)) \<Longrightarrow> names_target lib (d_ID target) d \<Longrightarrow> d = target"
    and "1 \<le> port" "port \<le> 65535"
    and "sv1 = after_request lib env (hc_controllerURL c) (session_request c (ask_relay source target port)) sv"
    and "s = new_session (e_now env 1) (e_uuid env 0) source target port"
  shows "CreateRelaySession (controller lib env (hc_controllerURL c) sv) (ask_relay source target port) c = Inr s"
    and "\<exists>b. sv1 = sv\<lparr>sv_broker := b\<rparr> \<and> b_proxied b = b_proxied (sv_broker sv)
      \<and> offers sv1 (e_uuid env 0) \<lparr>st_session = s, st_client = None, st_agent = None\<rparr>"
proof -
  let ?q = "read_as c ''POST'' [''api'', ''v1'', ''relay'', ''sessions''] (SessionBody (ask_relay source target port))"
  have src: "plain_id (d_ID source)" using assms(4) by (simp add: speaks_for_def)
  then have ne: "d_ID source \<noteq> ''''" "d_ID target \<noteq> ''''" using assms(6) by (simp_all add: plain_id_def)
  have reach: "to_controller (hc_controllerURL c) (session_request c (ask_relay source target port)) = Some ?q"
    using ne by (simp add: session_reaches ask_relay_def)
  obtain b where b: "Create (e_now env 1) (e_uuid env 0) source target port (sv_broker sv) = (s, b)"
    using assms(12) by (simp add: Create_def Let_def)
  have a: "authenticateDeviceCredentials lib ?q (d_ID source) sv = (Inr source, sv)"
    by (rule speaker_authenticated [OF assms(1,2,4)]) simp
  have r: "resolveRelayTarget lib source (d_ID target) sv = (Inr (Inr (target, True)), sv)"
    by (rule resolve_done [OF assms(2,5) ne(2) assms(7,8)])
  have open': "open_session lib env (ask_relay source target port) source sv = (Inr (writeJSON 201 (PSession s)), sv\<lparr>sv_broker := b\<rparr>)"
    using assms(9,10) r b
    by (simp add: open_session_def then_act_def reject_if_def return_act_def broker_act_def ask_relay_def plain_id_trim [OF assms(6)])
  have "handleTCPRelaySessionCreate lib env ?q sv = (Inr (writeJSON 201 (PSession s)), sv\<lparr>sv_broker := b\<rparr>)"
    using a open'
    by (simp add: handleTCPRelaySessionCreate_def then_act_def decode_or_def decode_wire return_act_def)
      (simp add: ask_relay_def plain_id_trim [OF src])
  then have sv: "serve lib env ?q sv = (securityHeaders (writeJSON 201 (PSession s)), sv\<lparr>sv_broker := b\<rparr>)"
    using public_serve [OF routed(3)] by (simp add: mk_route_def handler_of_def finish_def)
  then show "CreateRelaySession (controller lib env (hc_controllerURL c) sv) (ask_relay source target port) c = Inr s"
    using reach by (simp add: CreateRelaySession_def controller_def read_reply_def wire_reply_def)
  have "sv1 = sv\<lparr>sv_broker := b\<rparr>" using sv reach assms(11) by (simp add: after_request_def)
  moreover have "b_proxied b = b_proxied (sv_broker sv)" using b by (auto simp: Create_def Let_def)
  ultimately show "\<exists>b. sv1 = sv\<lparr>sv_broker := b\<rparr> \<and> b_proxied b = b_proxied (sv_broker sv)
      \<and> offers sv1 (e_uuid env 0) \<lparr>st_session = s, st_client = None, st_agent = None\<rparr>"
    using Create_table(2,3) [OF assms(3) b] by (intro exI [of _ b]) (simp add: offers_def)
qed

section \<open>Finding it\<close>

lemma offers_cleanup:
  "offers sv sid st \<Longrightarrow> \<not> expired now st \<Longrightarrow> offers (sv\<lparr>sv_broker := cleanupLocked now (sv_broker sv)\<rparr>) sid st"
  by (simp add: offers_def keys_cleanup session_of_cleanup)

lemma session_found:
  assumes "db_ok (sv_db sv)" and "db_faults (sv_db sv) = []" and "speaks_for lib sv a target" and "offers sv sid st"
    and "\<not> expired (e_now env 1) st" and "ts_TargetDeviceID (st_session st) = d_ID target" and "st_agent st = None"
    and "sv1 = after_request lib env (hc_controllerURL a) (pending_request a) sv"
  shows "\<exists>found. PendingRelaySessions (controller lib env (hc_controllerURL a) sv) a = Inr found \<and> st_session st \<in> set found"
    and "sv1 = sv\<lparr>sv_broker := cleanupLocked (e_now env 1) (sv_broker sv)\<rparr>"
proof -
  let ?q = "(read_as a ''GET'' [''api'', ''v1'', ''relay'', ''sessions'', ''pending''] NoBody)
      \<lparr>q_deviceIDQuery := hc_deviceID a, q_wait := ''25''\<rparr>"
  let ?b = "cleanupLocked (e_now env 1) (sv_broker sv)"
  note id = speaks_for_ID [OF assms(3)]
  have plain: "plain_id (d_ID target)" using assms(3) by (simp add: speaks_for_def)
  note token = speaks_for_token [OF assms(3)]
  obtain found where p: "Pending (e_now env 1) (d_ID target) (sv_broker sv) = (found, ?b)" by (simp add: Pending_def Let_def)
  have "(sid, st) \<in> set (b_sessions (sv_broker sv))"
    using assms(4) by (auto simp: offers_def session_of_def dest: map_of_SomeD)
  then have mem: "st_session st \<in> set found"
    using p assms(5-7) by (force simp: Pending_def Let_def image_iff)
  then have w: "PendingWait (e_now env 1) (e_now env 2) (d_ID target) (25 * second) (e_cause env) (e_others env) (sv_broker sv)
      = (Answered found, ?b)"
    using p by (auto simp: PendingWait_def wait_poll_def)
  have a: "authenticateDeviceCredentials lib ?q (d_ID target) sv = (Inr target, sv)"
    by (rule speaker_authenticated [OF assms(1-3)]) simp
  have dev: "device_of_request ?q (hc_deviceID a) = d_ID target"
    using plain by (simp add: device_of_request_def id plain_id_trim) (simp add: plain_id_def)
  have "handleTCPRelayPending lib env ?q sv = (Inr (writeJSON 200 (PSessions found)), sv\<lparr>sv_broker := ?b\<rparr>)"
    using a w by (simp add: handleTCPRelayPending_def dev Let_def then_act_def broker_act_def return_act_def)
  then have sv: "serve lib env ?q sv = (securityHeaders (writeJSON 200 (PSessions found)), sv\<lparr>sv_broker := ?b\<rparr>)"
    using public_serve [OF routed(5)] by (simp add: mk_route_def handler_of_def finish_def)
  have "hc_deviceID a \<noteq> ''''" using plain by (simp add: id plain_id_def)
  then show "\<exists>found. PendingRelaySessions (controller lib env (hc_controllerURL a) sv) a = Inr found \<and> st_session st \<in> set found"
    using sv mem token by (simp add: PendingRelaySessions_def controller_def pending_reaches read_reply_def wire_reply_def)
  show "sv1 = sv\<lparr>sv_broker := ?b\<rparr>" using sv by (simp add: assms(8) after_request_def pending_reaches)
qed

section \<open>Attaching both streams\<close>

definition with_stream :: "bool \<Rightarrow> conn \<Rightarrow> session_state \<Rightarrow> session_state" where
  "with_stream client x st = (if client then st\<lparr>st_client := Some x\<rparr> else st\<lparr>st_agent := Some x\<rparr>)"

definition side_device :: "bool \<Rightarrow> session_state \<Rightarrow> string" where
  "side_device client st =
     (if client then ts_SourceDeviceID (st_session st) else ts_TargetDeviceID (st_session st))"

definition side_free :: "bool \<Rightarrow> session_state \<Rightarrow> bool" where
  "side_free client st \<longleftrightarrow> (if client then st_client st else st_agent st) = None"

lemma stream_attached:
  assumes "db_ok (sv_db sv)" and "db_faults (sv_db sv) = []" and "speaks_for lib sv c d" and "offers sv sid st"
    and "\<not> expired (e_now env 1) st" and "\<not> expired (e_now env 2) st" and "side_device client st = d_ID d"
    and "side_free client st" and "e_hijack env = Switched x" and "sid \<notin> {'''', ''.'', ''..''}"
  shows "attach_stream client lib env c sid sv = Some (securityHeaders (streamed x),
      sv\<lparr>sv_broker := settle sid (with_stream client x st) (cleanupLocked (e_now env 1) (sv_broker sv))\<rparr>)"
proof -
  let ?b = "cleanupLocked (e_now env 1) (sv_broker sv)" and ?now = "e_now env 1"
  let ?q = "if client then (read_as c ''GET'' [''api'', ''v1'', ''relay'', ''client'', sid] NoBody)
        \<lparr>q_deviceIDHeader := hc_deviceID c, q_sourceQuery := hc_deviceID c\<rparr>
      else (read_as c ''GET'' [''api'', ''v1'', ''relay'', ''agent'', sid] NoBody)
        \<lparr>q_deviceIDHeader := hc_deviceID c, q_deviceIDQuery := hc_deviceID c\<rparr>"
  note id = speaks_for_ID [OF assms(3)]
  have plain: "plain_id (d_ID d)" using assms(3) by (simp add: speaks_for_def)
  obtain scheme host where dial: "can_dial (l_url lib) c scheme host" using assms(3) by (auto simp: speaks_for_def)
  have "visible (hc_deviceID c)" using plain_visible [OF plain] by (simp add: id)
  then have reach: "read_bytes (upgrade_request c (if client then client_target c sid else agent_target c sid) host) = Some ?q"
    using stream_reaches [OF dial _ assms(10)] by simp
  have sid: "sid \<noteq> ''''" using assms(10) by simp
  have a: "authenticateDeviceCredentials lib ?q (d_ID d) sv = (Inr d, sv)"
    by (rule speaker_authenticated [OF assms(1-3)]) simp
  have row: "map_of (b_sessions ?b) sid = Some st"
    using offers_cleanup [OF assms(4,5)] by (simp add: offers_def session_of_def)
  have v: "(if client then ValidateClient else ValidateAgent) ?now sid (d_ID d) (sv_broker sv) = (Inr (), ?b)"
    using row assms(7,8)
    by (auto simp: ValidateClient_def ValidateAgent_def validate_def Let_def side_device_def side_free_def split: if_splits)
  have at: "(if client then AttachClient else AttachAgent) (e_now env 2) sid (d_ID d) x ?b
      = (Inr (), settle sid (with_stream client x st) ?b)"
    using row assms(6-8)
    by (auto simp: AttachClient_def AttachAgent_def attach_def expired_def side_device_def side_free_def with_stream_def
        split: if_splits)
  have run: "relay_stream client lib env ?q (d_ID d) sid sv
      = (Inr (streamed x), sv\<lparr>sv_broker := settle sid (with_stream client x st) ?b\<rparr>)"
    using a v at assms(9)
    by (simp add: relay_stream_def then_act_def broker_act_def hijackRelayStream_def return_act_def del: if_split)
  have dev: "device_of_request ?q (if client then q_sourceQuery ?q else q_deviceIDQuery ?q) = d_ID d"
    using plain by (simp add: device_of_request_def id plain_id_trim) (simp add: plain_id_def)
  have "serve lib env ?q sv = (securityHeaders (streamed x),
      sv\<lparr>sv_broker := settle sid (with_stream client x st) ?b\<rparr>)"
    using run dev public_serve [OF routed(6) [OF sid]] public_serve [OF routed(7) [OF sid]]
    by (cases client) (simp_all add: mk_route_def handler_of_def finish_def handleTCPRelayClientStream_def
        handleTCPRelayAgentStream_def Let_def)
  moreover have "l_url lib (hc_controllerURL c) = Some (scheme, host)" using dial by (simp add: can_dial_def)
  ultimately show ?thesis by (simp add: attach_stream_def reach del: if_split)
qed

lemma expired_iff: "st_session st = new_session now sid source target port \<Longrightarrow>
    expired t st \<longleftrightarrow> \<not> t \<le> time_add now tcpRelaySessionTTL"
  by (auto simp: expired_def new_session_def time_after_def less_eq_gotime_def)

lemma settle_first:
  assumes "offers sv sid st0" and "st_client st = None \<or> st_agent st = None"
  shows "offers (sv\<lparr>sv_broker := settle sid st (sv_broker sv)\<rparr>) sid st"
    and "b_proxied (settle sid st b) = b_proxied b"
proof -
  have eq: "settle sid st b = b\<lparr>b_sessions := AList.update sid st (b_sessions b)\<rparr>" for b
    using assms(2) by (auto simp: settle_def split: option.splits)
  show "offers (sv\<lparr>sv_broker := settle sid st (sv_broker sv)\<rparr>) sid st"
    using assms(1) by (simp add: offers_def eq session_of_update) (simp add: keys_distinct_def distinct_update)
  show "b_proxied (settle sid st b) = b_proxied b" by (simp add: eq)
qed

text \<open>Two streams on a session that waits for both: they are paired, whichever comes first.\<close>

lemma streams_paired:
  assumes "db_ok (sv_db sv)" and "db_faults (sv_db sv) = []" and "offers sv sid st" and "st_client st = None" "st_agent st = None"
    and "speaks_for lib sv c1 d1" "side_device first st = d_ID d1" and "speaks_for lib sv c2 d2" "side_device (\<not> first) st = d_ID d2"
    and "\<And>z i. st_session z = st_session st \<Longrightarrow> i \<in> {1, 2} \<Longrightarrow> \<not> expired (e_now env1 i) z \<and> \<not> expired (e_now env2 i) z"
    and "e_hijack env1 = Switched x" "e_hijack env2 = Switched y" and "sid \<notin> {'''', ''.'', ''..''}"
  shows "\<exists>sv1 sv2. attach_stream first lib env1 c1 sid sv = Some (securityHeaders (streamed x), sv1)
       \<and> attach_stream (\<not> first) lib env2 c2 sid sv1 = Some (securityHeaders (streamed y), sv2)
       \<and> b_proxied (sv_broker sv2) = b_proxied (sv_broker sv) @ [(st_session st, if first then (x, y) else (y, x))]
       \<and> session_of (sv_broker sv2) sid = None \<and> sv_db sv2 = sv_db sv"
proof -
  let ?st1 = "with_stream first x st" and ?b1 = "settle sid (with_stream first x st) (cleanupLocked (e_now env1 1) (sv_broker sv))"
  note live = assms(10) [THEN conjunct1] assms(10) [THEN conjunct2]
  define sv1 where "sv1 = sv\<lparr>sv_broker := ?b1\<rparr>"
  have first: "attach_stream first lib env1 c1 sid sv = Some (securityHeaders (streamed x), sv1)"
    unfolding sv1_def
    by (rule stream_attached [OF assms(1,2,6,3) live(1) live(1) assms(7) _ assms(11,13)])
      (use assms(4,5) in \<open>simp_all add: side_free_def\<close>)
  have one: "st_client ?st1 = None \<or> st_agent ?st1 = None" "st_session ?st1 = st_session st" "side_free (\<not> first) ?st1"
    "side_device (\<not> first) ?st1 = d_ID d2"
    using assms(4,5,9) by (cases first; simp add: with_stream_def side_free_def side_device_def)+
  have "offers (sv\<lparr>sv_broker := cleanupLocked (e_now env1 1) (sv_broker sv)\<rparr>) sid st"
    using live(1) by (intro offers_cleanup [OF assms(3)]) simp
  from settle_first [OF this one(1)]
  have o1: "offers sv1 sid ?st1" and p1: "b_proxied ?b1 = b_proxied (sv_broker sv)" by (simp_all add: sv1_def)
  let ?b2 = "settle sid (with_stream (\<not> first) y ?st1) (cleanupLocked (e_now env2 1) ?b1)"
  define sv2 where "sv2 = sv1\<lparr>sv_broker := ?b2\<rparr>"
  have b2: "sv_broker sv2 = ?b2" by (simp add: sv2_def)
  have sp: "speaks_for lib sv1 c2 d2" by (rule speaks_for_same [OF assms(8)]) (simp_all add: sv1_def)
  have second: "attach_stream (\<not> first) lib env2 c2 sid sv1 = Some (securityHeaders (streamed y), sv2)"
    using stream_attached [OF _ _ sp o1 live(2) live(2) one(4,3) assms(12,13)] assms(1,2) one(2)
    by (simp add: sv2_def sv1_def)
  have "?b2 = (cleanupLocked (e_now env2 1) ?b1)\<lparr>b_sessions := AList.delete sid (b_sessions (cleanupLocked (e_now env2 1) ?b1)),
      b_proxied := b_proxied ?b1 @ [(st_session st, if first then (x, y) else (y, x))]\<rparr>"
    using assms(4,5) by (simp add: settle_def with_stream_def)
  then have "b_proxied ?b2 = b_proxied (sv_broker sv) @ [(st_session st, if first then (x, y) else (y, x))]"
    "session_of ?b2 sid = None"
    using p1 by (auto simp: session_of_def map_of_eq_None_iff set_delete)
  then have "b_proxied (sv_broker sv2) = b_proxied (sv_broker sv) @ [(st_session st, if first then (x, y) else (y, x))]"
    "session_of (sv_broker sv2) sid = None" by (simp_all only: b2)
  moreover have "sv_db sv2 = sv_db sv" by (simp add: sv2_def sv1_def)
  ultimately show ?thesis using first second by blast
qed

text \<open>The times a request reads are not after the expiry of a session opened with \<open>opened\<close>.\<close>

definition in_time :: "env \<Rightarrow> env \<Rightarrow> bool" where
  "in_time opened env \<longleftrightarrow>
     (\<forall>i \<in> {1, 2}. e_now env i \<le> time_add (e_now opened 1) tcpRelaySessionTTL)"

text \<open>
  C11: A relayed connection can be established over the agents' calls: with a working store, when a
  policy lets a device reach another that no other device shares its id with as a name, the
  source's call opens a session, a poll of the target that follows reports it, and the stream
  attachments of both, in either order and before two minutes have passed, are read from the bytes
  the agents write and answered by switching protocols, with the broker copying between exactly
  these two connections; no table has changed and the session is used up. The UUID of the session
  is neither empty nor a dot segment.
\<close>

theorem relay_conversation:
  assumes "db_ok (sv_db sv)" and "db_faults (sv_db sv) = []" and "keys_distinct (sv_broker sv)"
    and "speaks_for lib sv c source" and "speaks_for lib sv a target" and "may_reach (db_policies (sv_db sv)) source target"
    and "\<forall>d \<in> set (db_devices (sv_db sv)). names_target lib (d_ID target) d \<longrightarrow> d = target"
    and "1 \<le> port" "port \<le> 65535" and "e_uuid env1 0 \<notin> {'''', ''.'', ''..''}"
    and "in_time env1 env2" "in_time env1 env3" "in_time env1 env4"
    and "e_hijack env3 = Switched x" "e_hijack env4 = Switched y"
    and "sv1 = after_request lib env1 (hc_controllerURL c) (session_request c (ask_relay source target port)) sv"
    and "sv2 = after_request lib env2 (hc_controllerURL a) (pending_request a) sv1"
  shows "\<exists>s found sv3 sv4. CreateRelaySession (controller lib env1 (hc_controllerURL c) sv) (ask_relay source target port) c = Inr s
       \<and> PendingRelaySessions (controller lib env2 (hc_controllerURL a) sv1) a = Inr found \<and> s \<in> set found
       \<and> attach_stream first lib env3 (if first then c else a) (ts_ID s) sv2 = Some (securityHeaders (streamed x), sv3)
       \<and> attach_stream (\<not> first) lib env4 (if first then a else c) (ts_ID s) sv3 = Some (securityHeaders (streamed y), sv4)
       \<and> b_proxied (sv_broker sv4) = b_proxied (sv_broker sv) @ [(s, if first then (x, y) else (y, x))]
       \<and> session_of (sv_broker sv4) (ts_ID s) = None \<and> sv_db sv4 = sv_db sv"
proof -
  let ?sid = "e_uuid env1 0"
  define s where "s = new_session (e_now env1 1) ?sid source target port"
  define st where "st = \<lparr>st_session = s, st_client = None, st_agent = None\<rparr>"
  let ?st' = "with_stream first x st"
  have target: "target \<in> set (db_devices (sv_db sv))" "plain_id (d_ID target)"
    using assms(5) by (auto simp: speaks_for_def credentials_of_def)
  note named = bspec [OF assms(7), THEN mp]
  note opened = session_opened [OF assms(1-4) target assms(6) named assms(8,9,16) s_def]
  obtain b where sv1: "sv1 = sv\<lparr>sv_broker := b\<rparr>" and p1: "b_proxied b = b_proxied (sv_broker sv)"
    and o1: "offers sv1 ?sid st" using opened(2) unfolding st_def by blast
  have st: "st_session st = s" "st_client st = None" "st_agent st = None" "ts_ID s = ?sid"
    "side_device True st = d_ID source" "side_device False st = d_ID target"
    by (simp_all add: st_def s_def new_session_def side_device_def)
  have live: "\<not> expired (e_now env 1) z" "\<not> expired (e_now env 2) z" if "in_time env1 env" "st_session z = s" for env z
    using that by (simp_all add: expired_iff [OF that(2) [unfolded s_def]] in_time_def)
  have sp: "speaks_for lib z c source" "speaks_for lib z a target"
    if "sv_db z = sv_db sv" "sv_cfg z = sv_cfg sv" for z
    using speaks_for_same [OF assms(4) that] speaks_for_same [OF assms(5) that] by simp_all
  have ok: "db_ok (sv_db sv1)" "db_faults (sv_db sv1) = []" using assms(1,2) by (simp_all add: sv1)
  have sp1: "speaks_for lib sv1 a target" by (rule sp(2)) (simp_all add: sv1)
  have dev: "ts_TargetDeviceID (st_session st) = d_ID target" by (simp add: st(1) s_def new_session_def)
  note found = session_found [OF ok sp1 o1 live(1) [OF assms(11) st(1)] dev st(3) assms(17)]
  have sv2: "sv2 = sv1\<lparr>sv_broker := cleanupLocked (e_now env2 1) b\<rparr>"
    using found(2) by (simp add: sv1)
  have o2: "offers sv2 ?sid st" using offers_cleanup [OF o1 live(1) [OF assms(11) st(1)]] by (simp add: sv2 sv1)
  have two: "speaks_for lib sv2 (if first then c else a) (if first then source else target)"
    "speaks_for lib sv2 (if first then a else c) (if first then target else source)"
    using sp [of sv2] by (simp_all add: sv2 sv1)
  have ok2: "db_ok (sv_db sv2)" "db_faults (sv_db sv2) = []" "sv_db sv2 = sv_db sv"
    "b_proxied (sv_broker sv2) = b_proxied (sv_broker sv)"
    using ok p1 by (simp_all add: sv2 sv1)
  have sides: "side_device first st = d_ID (if first then source else target)"
    "side_device (\<not> first) st = d_ID (if first then target else source)" using st by simp_all
  have times: "\<not> expired (e_now env3 i) z \<and> \<not> expired (e_now env4 i) z" if "st_session z = st_session st" "i \<in> {1, 2}" for z i
    using live [OF assms(12)] live [OF assms(13)] that st(1) by auto
  have "\<exists>sv3 sv4. attach_stream first lib env3 (if first then c else a) (ts_ID s) sv2 = Some (securityHeaders (streamed x), sv3)
       \<and> attach_stream (\<not> first) lib env4 (if first then a else c) (ts_ID s) sv3 = Some (securityHeaders (streamed y), sv4)
       \<and> b_proxied (sv_broker sv4) = b_proxied (sv_broker sv) @ [(s, if first then (x, y) else (y, x))]
       \<and> session_of (sv_broker sv4) (ts_ID s) = None \<and> sv_db sv4 = sv_db sv"
    using streams_paired [OF ok2(1,2) o2 st(2,3) two(1) sides(1) two(2) sides(2) times assms(14,15,10)]
    by (simp only: st(1,4) ok2(3,4))
  moreover obtain found where "PendingRelaySessions (controller lib env2 (hc_controllerURL a) sv1) a = Inr found" "s \<in> set found"
    using found(1) st(1) by auto
  moreover note opened(1)
  ultimately show ?thesis by blast
qed

definition device_client :: "string \<Rightarrow> http_client" where
  "device_client did = \<lparr>hc_controllerURL = ''c.example'', hc_publicKey = ''pk'', hc_fingerprint = '''', hc_endpoint = '''',
     hc_deviceID = did, hc_deviceToken = ''k''\<rparr>"

lemma device_client_simps [simp]: "hc_controllerURL (device_client did) = ''c.example''"
    "hc_deviceID (device_client did) = did" "hc_deviceToken (device_client did) = ''k''"
  by (simp_all add: device_client_def)

theorem relay_conversation_witness:
  "\<exists>s found sv3 sv4. attach_stream False demo_lib demo_env (device_client ''b'') (ts_ID s)
      (after_request demo_lib demo_env ''c.example'' (pending_request (device_client ''b''))
        (after_request demo_lib demo_env ''c.example''
          (session_request (device_client ''a'') (ask_relay (demo_device ''a'') (demo_device ''b'') 22))
          (device_server [demo_device ''a'', demo_device ''b'']))) = Some (securityHeaders (streamed 1), sv3)
    \<and> attach_stream True demo_lib (demo_env\<lparr>e_hijack := Switched 2\<rparr>) (device_client ''a'') (ts_ID s) sv3
        = Some (securityHeaders (streamed 2), sv4)
    \<and> b_proxied (sv_broker sv4) = [(s, 2, 1)]"
proof -
  let ?sv = "device_server [demo_device ''a'', demo_device ''b'']" and ?a = "demo_device ''a''" and ?b = "demo_device ''b''"
  let ?env4 = "demo_env\<lparr>e_hijack := Switched 2\<rparr>"
  have ok: "db_ok (sv_db ?sv)"
    using demo_db_ok by (simp add: device_server_def demo_server_def db_ok_def unique_on_def demo_db_def empty_db_def
        default_user_def default_group_def)
  have url: "l_url demo_lib = demo_url" by (simp add: demo_lib_def)
  have sp: "speaks_for demo_lib ?sv (device_client ''a'') ?a" "speaks_for demo_lib ?sv (device_client ''b'') ?b"
    by (simp_all add: speaks_for_def credentials_of_def demo_hash plain_id_def unreserved_def can_dial_def url
        demo_url_def host_char_def visible_def)
  have reach: "may_reach (db_policies (sv_db ?sv)) ?a ?b"
    by (simp add: may_reach_def demo_policy_def policyAllows_def)
  have named: "\<forall>d \<in> set (db_devices (sv_db ?sv)). names_target demo_lib (d_ID ?b) d \<longrightarrow> d = ?b"
    by (simp add: names_target_def demo_lib_def ascii_lower_def is_ascii_def)
  have keys: "keys_distinct (sv_broker ?sv)" by (simp add: keys_distinct_def NewTCPRelayBroker_def)
  have times: "in_time demo_env demo_env" "in_time demo_env ?env4"
    by (simp_all add: in_time_def demo_env_def less_eq_gotime_def time_add_def tcpRelaySessionTTL_def)
  have env: "e_uuid demo_env 0 \<notin> {'''', ''.'', ''..''}" "e_hijack demo_env = Switched 1" "e_hijack ?env4 = Switched 2"
    by (simp_all add: demo_env_def)
  show ?thesis
    using relay_conversation [OF ok _ keys sp reach named _ _ env(1) times(1,1,2) env(2,3) refl refl, of 22 False]
    by (simp add: NewTCPRelayBroker_def) blast
qed

end
