(* ===== verification/Relay_Sessions.thy ===== *)
theory Relay_Sessions
  imports Broker_Props
begin

text \<open>
  What the relay broker promises for one session, as an abstract machine that knows nothing of
  the others, and the refinement: whatever calls are made in whatever order, the broker behaves
  towards each session id as that machine does.
\<close>

section \<open>Calls of the broker\<close>

datatype relay_call =
    Call_Create gotime string device device int
  | Call_Pending gotime string
  | Call_Validate gotime string string bool
  | Call_Attach gotime string string conn bool

datatype relay_reply = Created tcp_relay_session | Found "tcp_relay_session list" | Checked "relay_error + unit"

fun broker_call :: "relay_call \<Rightarrow> broker \<Rightarrow> relay_reply \<times> broker" where
  "broker_call (Call_Create now sid source target port) b =
     (case Create now sid source target port b of (s, b') \<Rightarrow> (Created s, b'))"
| "broker_call (Call_Pending now dev) b = (case Pending now dev b of (ss, b') \<Rightarrow> (Found ss, b'))"
| "broker_call (Call_Validate now sid dev client) b =
     (case (if client then ValidateClient else ValidateAgent) now sid dev b of (r, b') \<Rightarrow> (Checked r, b'))"
| "broker_call (Call_Attach now sid dev c client) b =
     (case (if client then AttachClient else AttachAgent) now sid dev c b of (r, b') \<Rightarrow> (Checked r, b'))"

section \<open>One session\<close>

text \<open>
  The machine of one session id: the session while it is open, with the connections that wait in
  it, and the pairs it was used for. A call answers something only when it concerns the session.
\<close>

record session_spec =
  sp_open :: "session_state option"
  sp_pairs :: "(tcp_relay_session \<times> conn \<times> conn) list"

definition closed_session :: session_spec where
  "closed_session = \<lparr>sp_open = None, sp_pairs = []\<rparr>"

definition tick :: "gotime \<Rightarrow> session_spec \<Rightarrow> session_spec" where
  "tick now z =
     (case sp_open z of
        None \<Rightarrow> z
      | Some st \<Rightarrow> if now \<le> ts_ExpiresAt (st_session st) then z else z\<lparr>sp_open := None\<rparr>)"

definition spec_check :: "string \<Rightarrow> bool \<Rightarrow> session_spec \<Rightarrow> relay_error + unit" where
  "spec_check dev client z =
     (case sp_open z of
        None \<Rightarrow> Inl SessionNotFound
      | Some st \<Rightarrow>
          if client then
            if ts_SourceDeviceID (st_session st) \<noteq> dev then Inl SourceMismatch
            else if st_client st \<noteq> None then Inl ClientAttached else Inr ()
          else
            if ts_TargetDeviceID (st_session st) \<noteq> dev then Inl TargetMismatch
            else if st_agent st \<noteq> None then Inl AgentAttached else Inr ())"

text \<open>An accepted connection waits for its partner, or completes a pair and closes the session.\<close>

definition spec_join :: "conn \<Rightarrow> bool \<Rightarrow> session_state \<Rightarrow> session_spec \<Rightarrow> session_spec" where
  "spec_join c client st z =
     (case if client then st_agent st else st_client st of
        None \<Rightarrow> z\<lparr>sp_open := Some (if client then st\<lparr>st_client := Some c\<rparr> else st\<lparr>st_agent := Some c\<rparr>)\<rparr>
      | Some partner \<Rightarrow>
          \<lparr>sp_open = None,
           sp_pairs = sp_pairs z @ [(st_session st, if client then (c, partner) else (partner, c))]\<rparr>)"

definition spec_attach :: "gotime \<Rightarrow> string \<Rightarrow> conn \<Rightarrow> bool \<Rightarrow> session_spec \<Rightarrow> (relay_error + unit) \<times> session_spec" where
  "spec_attach now dev c client z =
     (case sp_open z of
        None \<Rightarrow> (Inl SessionNotFound, z)
      | Some st \<Rightarrow>
          if sp_open (tick now z) = None then (Inl SessionExpired, tick now z)
          else (case spec_check dev client z of
                  Inl _ \<Rightarrow> (Inl (if client then ClientRejected else AgentRejected), z)
                | Inr _ \<Rightarrow> (Inr (), spec_join c client st z)))"

fun spec_call :: "string \<Rightarrow> relay_call \<Rightarrow> session_spec \<Rightarrow> relay_reply option \<times> session_spec" where
  "spec_call me (Call_Create now sid source target port) z =
     (if sid = me then
        let s = new_session now sid source target port
        in (Some (Created s), z\<lparr>sp_open := Some \<lparr>st_session = s, st_client = None, st_agent = None\<rparr>\<rparr>)
      else (None, tick now z))"
| "spec_call me (Call_Pending now dev) z =
     (Some (Found (case sp_open (tick now z) of
        None \<Rightarrow> []
      | Some st \<Rightarrow> if ts_TargetDeviceID (st_session st) = dev \<and> st_agent st = None then [st_session st] else [])),
      tick now z)"
| "spec_call me (Call_Validate now sid dev client) z =
     (if sid = me then Some (Checked (spec_check dev client (tick now z))) else None, tick now z)"
| "spec_call me (Call_Attach now sid dev c client) z =
     (if sid = me then (case spec_attach now dev c client z of (r, z') \<Rightarrow> (Some (Checked r), z')) else (None, z))"

text \<open>What a reply of the broker says about one session: of a poll, the sessions with its id.\<close>

fun about :: "string \<Rightarrow> relay_reply \<Rightarrow> relay_reply" where
  "about me (Found ss) = Found (filter (\<lambda>s. ts_ID s = me) ss)"
| "about me r = r"

section \<open>The simulation\<close>

definition named :: "broker \<Rightarrow> bool" where
  "named b \<longleftrightarrow> keys_distinct b \<and> (\<forall>(k, st) \<in> set (b_sessions b). ts_ID (st_session st) = k)"

definition view :: "string \<Rightarrow> broker \<Rightarrow> session_spec" where
  "view me b = \<lparr>sp_open = session_of b me, sp_pairs = filter (\<lambda>(s, _). ts_ID s = me) (b_proxied b)\<rparr>"

lemma view_init: "named NewTCPRelayBroker" "view me NewTCPRelayBroker = closed_session"
  by (simp_all add: named_def keys_distinct_def view_def closed_session_def session_of_def NewTCPRelayBroker_def)

lemma expired_le: "expired now st \<longleftrightarrow> \<not> now \<le> ts_ExpiresAt (st_session st)"
  by (auto simp: expired_def time_after_def less_eq_gotime_def)

lemma named_cleanup: "named b \<Longrightarrow> named (cleanupLocked now b)"
  by (auto simp: named_def keys_cleanup)

lemma view_cleanup: "named b \<Longrightarrow> view me (cleanupLocked now b) = tick now (view me b)"
  by (auto simp: view_def named_def session_of_cleanup tick_def expired_le split: option.split)

lemma view_signal [simp]: "view me (signalLocked b) = view me b" "named (signalLocked b) = named b"
  by (simp_all add: view_def named_def) (simp add: signalLocked_def)

lemma view_close [simp]: "view me (close_conn c b) = view me b" "named (close_conn c b) = named b"
  by (simp_all add: view_def named_def session_of_def keys_distinct_def close_conn_def)

lemma named_row: "named b \<Longrightarrow> session_of b k = Some st \<Longrightarrow> ts_ID (st_session st) = k"
  by (auto simp: named_def session_of_def dest: map_of_SomeD)

lemma named_update:
  "named b \<Longrightarrow> ts_ID (st_session st) = k \<Longrightarrow> named (b\<lparr>b_sessions := AList.update k st (b_sessions b)\<rparr>)"
  using set_update_subset [of k st "b_sessions b"]
  by (fastforce simp: named_def keys_distinct_def distinct_update)

lemma view_update:
  "named b \<Longrightarrow> view me (b\<lparr>b_sessions := AList.update k st (b_sessions b)\<rparr>)
     = (if k = me then (view me b)\<lparr>sp_open := Some st\<rparr> else view me b)"
  by (simp add: view_def named_def session_of_update)

lemma session_of_delete:
  "session_of (b\<lparr>b_sessions := AList.delete k (b_sessions b)\<rparr>) j = (if j = k then None else session_of b j)"
  by (simp add: session_of_def delete_conv')

lemma named_delete: "named b \<Longrightarrow> named (b\<lparr>b_sessions := AList.delete k (b_sessions b)\<rparr>)"
  by (auto simp: named_def keys_distinct_def set_delete distinct_map_delete)

lemma view_delete:
  "view me (b\<lparr>b_sessions := AList.delete k (b_sessions b)\<rparr>)
     = (if k = me then (view me b)\<lparr>sp_open := None\<rparr> else view me b)"
  by (simp add: view_def session_of_delete)

text \<open>The sessions with one id among those of the table that a poll reports.\<close>

lemma found_me:
  assumes "distinct (map fst xs)" and "\<forall>(k, st) \<in> set xs. ts_ID (st_session st) = k"
  shows "filter (\<lambda>s. ts_ID s = me) (map (\<lambda>(k, st). st_session st) (filter (\<lambda>(k, st). P st) xs))
     = (case map_of xs me of None \<Rightarrow> [] | Some st \<Rightarrow> if P st then [st_session st] else [])"
  using assms
proof (induction xs)
  case (Cons x xs)
  obtain k st where x: "x = (k, st)" by (cases x)
  have "map_of xs k = None" using Cons.prems(1) by (simp add: x map_of_eq_None_iff)
  then show ?case using Cons by (auto simp: x)
qed simp

lemma settle_view:
  assumes "named b" and "session_of b sid = Some st" and "(if client then st_client st else st_agent st) = None"
    and "st' = (if client then st\<lparr>st_client := Some c\<rparr> else st\<lparr>st_agent := Some c\<rparr>)"
  shows "named (settle sid st' b)"
    and "view me (settle sid st' b) = (if sid = me then spec_join c client st (view me b) else view me b)"
proof -
  let ?partner = "if client then st_agent st else st_client st"
  have id: "ts_ID (st_session st) = sid" by (rule named_row [OF assms(1,2)])
  have wait: "settle sid st' b = b\<lparr>b_sessions := AList.update sid st' (b_sessions b)\<rparr>" if "?partner = None"
    using that assms(3,4) by (auto simp: settle_def split: if_splits)
  have pair: "settle sid st' b = b\<lparr>b_sessions := AList.delete sid (b_sessions b),
      b_proxied := b_proxied b @ [(st_session st, if client then (c, p) else (p, c))]\<rparr>" if "?partner = Some p" for p
    using that assms(3,4) by (auto simp: settle_def split: if_splits)
  have st': "st_session st' = st_session st" using assms(4) by simp
  show "named (settle sid st' b)"
  proof (cases ?partner)
    case None
    then show ?thesis using named_update [OF assms(1), of st'] id st' by (simp add: wait)
  next
    case (Some p)
    then show ?thesis using named_delete [OF assms(1), of sid] by (simp add: pair named_def keys_distinct_def)
  qed
  show "view me (settle sid st' b) = (if sid = me then spec_join c client st (view me b) else view me b)"
  proof (cases ?partner)
    case None
    show ?thesis
      unfolding wait [OF None] view_update [OF assms(1)] using None assms(4) by (simp add: spec_join_def)
  next
    case (Some p)
    then show ?thesis
      using view_delete [of me sid b] id by (auto simp: pair spec_join_def view_def session_of_def)
  qed
qed

text \<open>The reply about the session is the machine's, unless the call was about another one.\<close>

definition answers :: "string \<Rightarrow> relay_reply \<Rightarrow> relay_reply option \<Rightarrow> bool" where
  "answers me r a \<longleftrightarrow> a = None \<or> a = Some (about me r)"

definition simulates :: "string \<Rightarrow> relay_call \<Rightarrow> broker \<Rightarrow> relay_reply \<Rightarrow> broker \<Rightarrow> bool" where
  "simulates me call b r b' \<longleftrightarrow>
     named b' \<and> answers me r (fst (spec_call me call (view me b))) \<and> snd (spec_call me call (view me b)) = view me b'"

lemma create_simulates:
  assumes "named b" and "Create now sid source target port b = (s, b')"
  shows "simulates me (Call_Create now sid source target port) b (Created s) b'"
proof -
  let ?st = "\<lparr>st_session = new_session now sid source target port, st_client = None, st_agent = None\<rparr>"
  let ?b = "b\<lparr>b_sessions := AList.update sid ?st (b_sessions b)\<rparr>"
  have s: "s = new_session now sid source target port" and b': "b' = signalLocked (cleanupLocked now ?b)"
    using assms(2) by (auto simp: Create_def Let_def)
  have n: "named ?b" using assms(1) by (intro named_update) (simp_all add: new_session_def)
  have "tick now ((view me b)\<lparr>sp_open := Some ?st\<rparr>) = (view me b)\<lparr>sp_open := Some ?st\<rparr>"
    by (cases now) (simp add: tick_def new_session_def less_eq_gotime_def time_add_def tcpRelaySessionTTL_def)
  then show ?thesis
    using n view_cleanup [OF n, of me now] view_update [OF assms(1), of me sid ?st]
    by (auto simp: simulates_def answers_def b' s named_cleanup Let_def)
qed

lemma pending_simulates:
  assumes "named b" and "Pending now dev b = (ss, b')"
  shows "simulates me (Call_Pending now dev) b (Found ss) b'"
proof -
  have b': "b' = cleanupLocked now b" and ss: "ss = map (\<lambda>(sid, st). st_session st)
      (filter (\<lambda>(sid, st). ts_TargetDeviceID (st_session st) = dev \<and> st_agent st = None) (b_sessions b'))"
    using assms(2) by (auto simp: Pending_def Let_def)
  have n: "named b'" using named_cleanup [OF assms(1)] by (simp add: b')
  have v: "view me b' = tick now (view me b)" using view_cleanup [OF assms(1)] by (simp add: b')
  have "filter (\<lambda>s. ts_ID s = me) ss = (case session_of b' me of None \<Rightarrow> []
      | Some st \<Rightarrow> if ts_TargetDeviceID (st_session st) = dev \<and> st_agent st = None then [st_session st] else [])"
    unfolding ss session_of_def using n by (intro found_me) (auto simp: named_def keys_distinct_def)
  moreover have "sp_open (view me b') = session_of b' me" by (simp add: view_def)
  ultimately show ?thesis using n by (simp add: simulates_def answers_def v [symmetric])
qed

lemma validate_simulates:
  assumes "named b" and "validate now sid dev client b = (r, b')"
  shows "simulates me (Call_Validate now sid dev client) b (Checked r) b'"
proof -
  have b': "b' = cleanupLocked now b" using assms(2) by (auto simp: validate_def Let_def)
  have v: "view x b' = tick now (view x b)" for x using view_cleanup [OF assms(1)] by (simp add: b')
  have "r = spec_check dev client (view sid b')"
    using assms(2) by (auto simp: validate_def Let_def b' spec_check_def view_def session_of_def split: option.splits)
  then show ?thesis using named_cleanup [OF assms(1)] v by (simp add: simulates_def answers_def b')
qed

lemma attach_simulates:
  assumes "named b" and "attach now sid dev c client b = (r, b')"
  shows "simulates me (Call_Attach now sid dev c client) b (Checked r) b'"
proof (cases "session_of b sid")
  case None
  then have "r = Inl SessionNotFound" "b' = close_conn c b"
    using assms(2) by (simp_all add: attach_def session_of_def)
  moreover have "sp_open (view sid b) = None" using None by (simp add: view_def)
  ultimately show ?thesis using assms(1) by (auto simp: simulates_def answers_def spec_attach_def)
next
  case (Some st)
  let ?side = "if client then st_client st else st_agent st"
  let ?fits = "(if client then ts_SourceDeviceID else ts_TargetDeviceID) (st_session st) = dev \<and> ?side = None"
  let ?st' = "if client then st\<lparr>st_client := Some c\<rparr> else st\<lparr>st_agent := Some c\<rparr>"
  have open': "sp_open (view sid b) = Some st" using Some by (simp add: view_def)
  consider (late) "expired now st" | (refused) "\<not> expired now st" "\<not> ?fits" | (joined) "\<not> expired now st" ?fits by blast
  then show ?thesis
  proof cases
    case late
    then have "r = Inl SessionExpired" "b' = close_conn c (b\<lparr>b_sessions := AList.delete sid (b_sessions b)\<rparr>)"
      using assms(2) Some by (simp_all add: attach_def session_of_def expired_def)
    then show ?thesis
      using late open' named_delete [OF assms(1), of sid] view_delete [of me sid b]
      by (auto simp: simulates_def answers_def spec_attach_def tick_def expired_le)
  next
    case refused
    then have "r = Inl (if client then ClientRejected else AgentRejected)" "b' = close_conn c b"
      using assms(2) Some by (auto simp: attach_def session_of_def expired_def split: if_splits)
    moreover have "spec_check dev client (view sid b) \<noteq> Inr ()"
      using refused(2) open' by (cases client) (auto simp: spec_check_def)
    then obtain e where "spec_check dev client (view sid b) = Inl e"
      by (cases "spec_check dev client (view sid b)") auto
    ultimately show ?thesis
      using refused(1) open' assms(1) by (auto simp: simulates_def answers_def spec_attach_def tick_def expired_le)
  next
    case joined
    then have r: "r = Inr ()" "b' = settle sid ?st' b"
      using assms(2) Some by (auto simp: attach_def session_of_def expired_def split: if_splits)
    have side: "?side = None" using joined by simp
    note S = settle_view [OF assms(1) Some side refl, where c = c]
    have "spec_attach now dev c client (view sid b) = (Inr (), spec_join c client st (view sid b))"
      using joined open' by (cases client) (simp_all add: spec_attach_def spec_check_def tick_def expired_le)
    then show ?thesis using S(1) S(2) [where me = me] r by (auto simp: simulates_def answers_def)
  qed
qed

lemma call_simulates: "named b \<Longrightarrow> broker_call call b = (r, b') \<Longrightarrow> simulates me call b r b'"
  by (cases call)
    (auto simp: ValidateClient_def ValidateAgent_def AttachClient_def AttachAgent_def create_simulates pending_simulates
      validate_simulates attach_simulates split: prod.splits if_splits)

section \<open>Runs\<close>

interpretation one_session: simulation broker_call "spec_call me" "view me" named "\<lambda>_. True" "answers me" for me
  by unfold_locales (use call_simulates in \<open>auto simp: simulates_def\<close>)

text \<open>
  C12: The broker keeps sessions apart. From its start on, after any sequence of calls with any
  times, devices and connections, each session id is where the machine of that one session is: open
  with the same connections waiting in it or closed, and used for the same pairs; and every answer
  of the broker that is about the session (its creation, the checks and attachments that name it,
  and the sessions with its id in a poll) is the machine's.
\<close>

theorem broker_keeps_sessions_apart:
  "\<exists>as. run_calls (spec_call me) calls closed_session
          = (as, \<lparr>sp_open = session_of (snd (run_calls broker_call calls NewTCPRelayBroker)) me,
              sp_pairs = filter (\<lambda>(s, _). ts_ID s = me) (b_proxied (snd (run_calls broker_call calls NewTCPRelayBroker)))\<rparr>)
      \<and> list_all2 (answers me) (fst (run_calls broker_call calls NewTCPRelayBroker)) as"
proof -
  obtain rs b where r: "run_calls broker_call calls NewTCPRelayBroker = (rs, b)" by fastforce
  show ?thesis using one_session.run [OF view_init(1) _ r, of me, unfolded view_init(2)]
    by (auto simp: r view_def list_all_iff)
qed

end
