(* ===== verification/Agent_Desktop.thy ===== *)
theory Agent_Desktop
  imports Command_Trace
begin

text \<open>
  The desktop parts of internal/agent that its service does not use yet: the launcher of RustDesk
  (rustdesk.go) and the tray without an icon (tray.go). Starting a program is an event of the
  command trace, its outcome the runner's; \<open>Start\<close> does not wait for the program to end.
\<close>

section \<open>RustDesk\<close>

record rustdesk_launcher =
  rl_binary :: string

definition NewRustDeskLauncher :: "string \<Rightarrow> rustdesk_launcher" where
  "NewRustDeskLauncher binary = \<lparr>rl_binary = binary\<rparr>"

datatype launch_error = BinaryNotConfigured | StartFailed

definition Launch ::
  "runner \<Rightarrow> rustdesk_launcher \<Rightarrow> string list \<Rightarrow> event list \<Rightarrow> launch_error option \<times> event list" where
  "Launch run l args tr =
     (if rl_binary l = '''' then (Some BinaryNotConfigured, tr)
      else (case runCommand run (rl_binary l # args) tr of
              (ok, tr') \<Rightarrow> (if ok then None else Some StartFailed, tr')))"

section \<open>The tray\<close>

record 'l noop_tray =
  nt_logger :: 'l

definition NewNoopTray :: "'l \<Rightarrow> 'l option \<Rightarrow> 'l noop_tray" where
  "NewNoopTray default_logger logger =
     \<lparr>nt_logger = (case logger of None \<Rightarrow> default_logger | Some l \<Rightarrow> l)\<rparr>"

text \<open>
  \<open>Run\<close> logs one line and waits for its context: what it returns, None while the context goes on,
  and what it wrote to its log. The list is the error of the context each time it is looked at.
\<close>

fun wait_done :: "'e option list \<Rightarrow> 'e option" where
  "wait_done [] = None"
| "wait_done (None # later) = wait_done later"
| "wait_done (Some err # later) = Some err"

definition tray_run :: "'l noop_tray \<Rightarrow> 'e option list \<Rightarrow> 'e option \<times> ('l \<times> string) list" where
  "tray_run t ctx = (wait_done ctx, [(nt_logger t, ''tray integration is not enabled for this build'')])"

end
