(* ===== verification/Spec2Isabelle.thy ===== *)
theory Spec2Isabelle
  imports Broker_Props Derp_Map Config Wireguard_Hub Server_Props Enrollment Device_Access
    Agent_Service Relay_Node Store_Refinement End_To_End Hub_Policy Management
    Relay_Life Relay_Proxy Key_File Entry_Points Web_Console Schema Relay_Conversation
    Relay_Sessions Agent_Desktop
begin

text \<open>
  Linkbit: a controller, agents and relay nodes that connect devices over WireGuard, with a TCP
  relay through the controller as a fallback.

  \<^bold>\<open>The program.\<close> The controller (internal/controller) keeps users, groups, devices,
  invitations, API keys, relays and policies in SQLite (internal/store/sqlite), serves a management
  API to holders of an API key and a device API to holders of a device token, keeps the pending TCP
  relay sessions in memory, and can run a WireGuard hub. An agent (internal/agent) enrolls a device
  with the key of an invitation, keeps its identity and token in a state file, configures its
  WireGuard interface from the network configuration the controller answers, reports health, and
  serves or opens TCP relay sessions. A relay node (internal/relay) registers itself and sends
  heartbeats; the controller turns the relay table into a DERP map. The programs of cmd read their
  configuration (internal/config), put these parts together and run them.

  \<^bold>\<open>What is modelled where.\<close> A definition has the name of the Go function, type or constant it
  models where Isabelle allows it; a part of a function that is named on its own says so.

  \<^item> \<open>Linkbit_Prelude\<close>: tables as lists with insert, update, delete and unique columns, the
    collections of rewrite rules the components share, and what it means that one component follows
    another over a run of calls (locale \<open>simulation\<close>). \<open>Go_Strings\<close>, \<open>Go_Net\<close>, \<open>Go_IP\<close>,
    \<open>Go_Time\<close>, \<open>Go_Base64\<close>, \<open>Json_Strings\<close>: what the code uses of Go's standard library
    (trimming, numbers, host and port, IP addresses and networks, times with their RFC 3339 text,
    base64, JSON of string lists).
  \<^item> \<open>Models\<close> (internal/models), \<open>Auth\<close> (internal/auth), \<open>Config\<close> (internal/config).
  \<^item> \<open>Sqlite_Store\<close>: the Store interface as statements on a record of tables, each of which may
    fail (\<open>db_faults\<close> lists which of the next statements do). \<open>Store_Laws\<close>: locales for what a
    registry of rows promises, interpreted for every table, the invariant \<open>db_ok\<close>, the steps
    \<open>db_step\<close> and what lasts over them. \<open>Sqlite_Rows\<close>: the SQL text of store.go column by column,
    over rows of values. \<open>Store_Refinement\<close>: the rows implement the tables (locale
    \<open>stored_table\<close>, one interpretation per table, and a simulation for every method). \<open>Schema\<close>:
    opening the database file, its schema, and the migration of a file of an earlier version.
  \<^item> \<open>Policy\<close>, \<open>Derp_Map\<close>, \<open>Wireguard_Hub\<close> (on the command traces of \<open>Command_Trace\<close>, with
    the key file of \<open>Key_File\<close>), \<open>Relay_Broker\<close> with its properties in \<open>Broker_Props\<close>
    and \<open>Relay_Sessions\<close> (the broker against the machine of a single session): the parts the
    handlers call.
  \<^item> \<open>Server\<close> (state, answers, checks), \<open>Handlers\<close> (every handler of server.go and tcp_relay.go),
    \<open>Routes\<close> (the route table and its dispatch with the redirections of \<open>http.ServeMux\<close>,
    static.go), \<open>Web_Console\<close> (the single-page fallback of static.go in front of a model of
    \<open>http.FileServer\<close>, for a tree of files), \<open>Server_Laws\<close> (a locale of relations
    every action keeps, interpreted for the invariants), \<open>Server_Props\<close>, \<open>Enrollment\<close>,
    \<open>Device_Access\<close>, \<open>Management\<close>: what requests do, for the management, registration and
    device routes.
  \<^item> \<open>Agent_State\<close>, \<open>Agent_Wireguard\<close>, \<open>Agent_Client\<close>, \<open>Relay_Stream\<close>, \<open>Agent_Relay\<close>,
    \<open>Agent_Service\<close>: the files of internal/agent. \<open>Relay_Proxy\<close>: the goroutines that copy bytes
    between two connections, in the agent and in the controller. \<open>Agent_Desktop\<close>: rustdesk.go and
    tray.go. \<open>Relay_Node\<close>: internal/relay.
  \<^item> \<open>Http_Wire\<close>: the request line, query, headers and bodies between a client and the handlers,
    and the bytes of an upgrade request.
    \<open>End_To_End\<close>, \<open>Relay_Conversation\<close>, \<open>Hub_Policy\<close>, \<open>Relay_Life\<close>, \<open>Entry_Points\<close>: properties
    of agent, relay node and controller together, and the three programs.

  \<^bold>\<open>How it is modelled.\<close> A handler is a function of the server state that returns a value or ends
  early with a response (\<open>'a act\<close>); a store method is a function of the tables that returns an
  error or a value (\<open>'a stmt\<close>). One request is one step: the handlers of net/http run
  concurrently, but each statement runs on SQLite's one connection and each broker operation under
  its lock. Where a handler consists of several statements and an interleaving matters, its parts
  are separate definitions and the property is about both orders (registration in \<open>Enrollment\<close>,
  the waiting poll in \<open>Relay_Broker\<close>); goroutines that share state are step relations
  (\<open>tstep\<close> in \<open>Agent_Relay\<close>, \<open>copy_step\<close> in \<open>Relay_Proxy\<close>, where a write waits for a peer to
  read). Commands, files and connections
  leave a trace of events; whether an operation of the operating system succeeds is an argument.
  Loops that wait for the world (the health and heartbeat loops, the poll of the relay target, the
  accept loop) take the list of what happens next and are still running at its end, so no fuel is
  needed; all other recursion is structural or has a measure. Integers are kept at 64 bits where a
  product can wrap (durations) and 32 bits for the hash of a region code.

  \<^bold>\<open>Parameters.\<close> HMAC-SHA256, SHA-256, Curve25519, random bytes, UUIDs, the clock, \<open>url.Parse\<close>,
  Unicode case folding, the iteration order of Go maps, what \<open>encoding/json\<close> decodes a body to, the
  answers of servers, the status of \<open>http.ServeMux\<close>'s redirections and the output of \<open>wg pubkey\<close>
  are arguments of the definitions. The
  hypotheses about them are the documented ones: clock readings are not the zero time
  (\<open>env_ok\<close>), an iteration order is a permutation (\<open>arranges\<close>).

  \<^bold>\<open>What the lemmas show.\<close> The store: its invariant over every run of requests, and that the SQL
  implements the tables. Access: no management route without a key of its scope, revocation is
  final, an issued key works exactly until then, no device route without the device's token, peers
  and relay sessions follow the policies. Enrollment: what a registration adds, the use of one-time
  keys in sequence and its failure when two requests overlap, the terms of invitations. The TCP
  relay: pairing joins the two devices of one session, sessions do not influence each other, polls
  are exact and are woken, with the two gaps in it (a session lost between two critical sections, a
  connection leaked on expiry); a session has one handler; the streams start and arrive exactly; a
  copy that ends closes both connections, unless a peer stops reading. The agent: its identity and
  device survive restarts, a registration that was not saved is made again, its state file is
  replaced as a whole, the tunnel's commands are an exact trace. Together: every call of an agent
  reaches its handler, a first start yields working credentials, two agents a policy connects get
  a relayed connection from their calls alone, a restarted controller knows its devices, a relay
  node's heartbeats only refresh its row, and a hub makes the policies ineffective. Files:
  migration loses nothing of an older database; the web console sends nothing from outside its
  directory, and answers every path without parent segments with the named file or the start page.

  \<^bold>\<open>Not modelled.\<close> Conditional and range requests to the web console and the headers of its files,
  symbolic links, the \<open>Location\<close> of a redirection, requests with folded header lines, logging, the
  DERP server (tailscale.com), running external commands, TLS and timeouts of connections, the
  signals of the operating system, the JSON encoder for structures (bodies arrive decoded, the fields it
  hides are cleared by \<open>wire_device\<close>, \<open>wire_invitation\<close> and \<open>wire_api_key\<close>), and
  the version string of internal/version.
\<close>

end
